(* ===== verification/Go_Prelude.thy ===== *)
theory Go_Prelude
  imports Main "HOL-Library.Multiset" "HOL-Library.Sublist" "HOL-Library.Char_ord"
    "HOL-Library.List_Lexorder" "HOL-Library.Word"
begin

section \<open>Shared Go vocabulary\<close>

text \<open>
  What every component of the development shares: Go errors as values, the early-returning
  loops over slices, the string functions of the Go library the sources call, stable and
  unstable slice sorting with the order contracts the callers rely on, the slice helpers of
  the lo package, and 64-bit time values.

  Go strings are byte strings and are modelled by \<^typ>\<open>string\<close>; their built-in order is the
  byte-wise lexicographic one, which is the order of \<open>HOL-Library.List_Lexorder\<close> over
  \<open>HOL-Library.Char_ord\<close>. A nil slice and an empty slice are both the empty list.
\<close>

named_theorems go_simps \<open>evaluation rules of the shared Go vocabulary\<close>
named_theorems result_simps \<open>characterisations of error-returning combinators\<close>

subsection \<open>Errors and early returns\<close>

text \<open>
  \<open>Err\<close> is an error made by \<open>errors.New\<close> or received from a library, \<open>Wrap\<close> is
  \<open>fmt.Errorf("msg: %w", err)\<close>, and \<open>ApiNotFound\<close> is the Kubernetes API error that
  \<open>apierrors.IsNotFound\<close> recognises.
\<close>

datatype err = Err string | Wrap string err | ApiNotFound

type_synonym 'a result = "err + 'a"

fun bindE :: "'a result \<Rightarrow> ('a \<Rightarrow> 'b result) \<Rightarrow> 'b result" where
  "bindE (Inl e) f = Inl e"
| "bindE (Inr x) f = f x"

fun wrapE :: "string \<Rightarrow> 'a result \<Rightarrow> 'a result" where
  "wrapE msg (Inl e) = Inl (Wrap msg e)"
| "wrapE msg (Inr x) = Inr x"

text \<open>The loop \<open>for _, in := range ins { out, err := f(in); if err != nil { return nil, err };
  outs = append(outs, out) }\<close>.\<close>

fun mapE :: "('a \<Rightarrow> 'b result) \<Rightarrow> 'a list \<Rightarrow> 'b list result" where
  "mapE f [] = Inr []"
| "mapE f (x # xs) = bindE (f x) (\<lambda>y. bindE (mapE f xs) (\<lambda>ys. Inr (y # ys)))"

lemma bindE_eq_Inr [result_simps]: "bindE r f = Inr y \<longleftrightarrow> (\<exists>x. r = Inr x \<and> f x = Inr y)"
  by (cases r) auto

lemma bindE_eq_Inl [result_simps]:
  "bindE r f = Inl e \<longleftrightarrow> r = Inl e \<or> (\<exists>x. r = Inr x \<and> f x = Inl e)"
  by (cases r) auto

lemma wrapE_eq_Inr [result_simps]: "wrapE msg r = Inr x \<longleftrightarrow> r = Inr x"
  by (cases r) auto

lemma wrapE_eq_Inl [result_simps]: "wrapE msg r = Inl e \<longleftrightarrow> (\<exists>e'. r = Inl e' \<and> e = Wrap msg e')"
  by (cases r) auto

lemma mapE_eq_Inr [result_simps]: "mapE f xs = Inr ys \<longleftrightarrow> list_all2 (\<lambda>x y. f x = Inr y) xs ys"
proof (induction xs arbitrary: ys)
  case Nil
  show ?case by auto
next
  case (Cons x xs)
  show ?case by (cases ys) (auto simp: result_simps Cons.IH)
qed

lemma option_ext: "(\<And>v. a = Some v \<longleftrightarrow> b = Some v) \<Longrightarrow> a = b"
  by (cases a; cases b) auto

lemma list_all2_right_elem: "list_all2 P xs ys \<Longrightarrow> y \<in> set ys \<Longrightarrow> \<exists>x\<in>set xs. P x y"
  by (induction rule: list_all2_induct) auto

lemma mapE_elem: "mapE f xs = Inr ys \<Longrightarrow> y \<in> set ys \<Longrightarrow> \<exists>x\<in>set xs. f x = Inr y"
  using list_all2_right_elem [of "\<lambda>x y. f x = Inr y"] by (simp add: mapE_eq_Inr)

lemma mapE_length: "mapE f xs = Inr ys \<Longrightarrow> length ys = length xs"
  by (simp add: mapE_eq_Inr list_all2_lengthD)

lemma mapE_eq_Inl [result_simps]:
  "mapE f xs = Inl e \<longleftrightarrow>
     (\<exists>pre x post. xs = pre @ x # post \<and> f x = Inl e \<and> (\<forall>p\<in>set pre. \<exists>y. f p = Inr y))"
proof (induction xs)
  case Nil
  show ?case by simp
next
  case (Cons a xs)
  show ?case
  proof (cases "f a")
    case (Inl e')
    have "e' = e \<Longrightarrow> \<exists>pre x post. a # xs = pre @ x # post \<and> f x = Inl e \<and>
        (\<forall>p\<in>set pre. \<exists>y. f p = Inr y)"
      using Inl by (intro exI [of _ "[]"]) auto
    with Inl show ?thesis by (auto simp: Cons_eq_append_conv)
  next
    case (Inr y)
    have "(\<exists>pre x post. a # xs = pre @ x # post \<and> f x = Inl e \<and> (\<forall>p\<in>set pre. \<exists>y. f p = Inr y))
      \<longleftrightarrow> (\<exists>pre x post. xs = pre @ x # post \<and> f x = Inl e \<and> (\<forall>p\<in>set pre. \<exists>y. f p = Inr y))"
      (is "?l \<longleftrightarrow> ?r")
    proof
      assume ?l
      then obtain pre x post where "a # xs = pre @ x # post" "f x = Inl e"
        "\<forall>p\<in>set pre. \<exists>y. f p = Inr y" by blast
      with Inr show ?r by (cases pre) auto
    next
      assume ?r
      then obtain pre x post where "xs = pre @ x # post" "f x = Inl e"
        "\<forall>p\<in>set pre. \<exists>y. f p = Inr y" by blast
      with Inr show ?l by (intro exI [of _ "a # pre"]) auto
    qed
    with Inr show ?thesis by (simp add: result_simps Cons.IH)
  qed
qed

text \<open>A conversion that may fail and its inverse on single values give a conversion and its inverse
  on slices; a conversion that cannot fail is a special case.\<close>

locale partial_codec =
  fixes enc :: "'a \<Rightarrow> 'b result" and dec :: "'b \<Rightarrow> 'a result" and ok :: "'a \<Rightarrow> bool"
  assumes dec_enc: "ok x \<Longrightarrow> bindE (enc x) dec = Inr x"
begin

lemma enc_succeeds: "ok x \<Longrightarrow> \<exists>y. enc x = Inr y \<and> dec y = Inr x"
  using dec_enc by (simp add: bindE_eq_Inr)

lemma list_enc: "list_all ok xs \<Longrightarrow> \<exists>ys. mapE enc xs = Inr ys \<and> mapE dec ys = Inr xs"
proof (induction xs)
  case (Cons x xs)
  then obtain ys where "mapE enc xs = Inr ys" "mapE dec ys = Inr xs" by auto
  moreover obtain y where "enc x = Inr y" "dec y = Inr x"
    using Cons.prems enc_succeeds by auto
  ultimately show ?case by (intro exI [of _ "y # ys"]) simp
qed simp

lemma list_dec_enc: "list_all ok xs \<Longrightarrow> bindE (mapE enc xs) (mapE dec) = Inr xs"
  using list_enc by (fastforce simp: bindE_eq_Inr)

end

locale codec =
  fixes to_api :: "'a \<Rightarrow> 'b" and from_api :: "'b \<Rightarrow> 'a result" and ok :: "'a \<Rightarrow> bool"
  assumes from_to: "ok x \<Longrightarrow> from_api (to_api x) = Inr x"
begin

lemma mapE_to_api: "mapE (\<lambda>x. Inr (to_api x)) xs = Inr (map to_api xs)"
  by (induction xs) auto

sublocale partial_codec "\<lambda>x. Inr (to_api x)" from_api ok
  by unfold_locales (simp add: from_to)

lemma list_from_to: "list_all ok xs \<Longrightarrow> mapE from_api (map to_api xs) = Inr xs"
  using list_dec_enc [of xs] by (simp add: mapE_to_api)

lemma to_api_inj: "ok x \<Longrightarrow> ok y \<Longrightarrow> to_api x = to_api y \<Longrightarrow> x = y"
  using from_to by (metis sum.inject(2))

lemma list_to_api_inj:
  "list_all ok xs \<Longrightarrow> list_all ok ys \<Longrightarrow> map to_api xs = map to_api ys \<Longrightarrow> xs = ys"
  by (metis list_from_to sum.inject(2))

end

subsection \<open>Strings\<close>

definition HasPrefix :: "string \<Rightarrow> string \<Rightarrow> bool" where
  "HasPrefix s p \<longleftrightarrow> take (length p) s = p"

definition HasSuffix :: "string \<Rightarrow> string \<Rightarrow> bool" where
  "HasSuffix s p \<longleftrightarrow> HasPrefix (rev s) (rev p)"

definition TrimPrefix :: "string \<Rightarrow> string \<Rightarrow> string" where
  "TrimPrefix s p = (if HasPrefix s p then drop (length p) s else s)"

definition TrimSuffix :: "string \<Rightarrow> string \<Rightarrow> string" where
  "TrimSuffix s p = (if HasSuffix s p then take (length s - length p) s else s)"

text \<open>\<open>strings.Contains(s, c)\<close> for a one-byte pattern.\<close>

definition ContainsChar :: "string \<Rightarrow> char \<Rightarrow> bool" where
  "ContainsChar s c \<longleftrightarrow> c \<in> set s"

text \<open>\<open>strings.SplitN(s, c, 2)\<close> for a one-byte separator: one part when the separator does not
  occur, otherwise what is before and after its first occurrence.\<close>

fun SplitN2 :: "string \<Rightarrow> char \<Rightarrow> string list" where
  "SplitN2 [] c = [[]]"
| "SplitN2 (x # s) c =
     (if x = c then [[], s]
      else case SplitN2 s c of [] \<Rightarrow> [[x]] | p # ps \<Rightarrow> (x # p) # ps)"

fun Join :: "string list \<Rightarrow> string \<Rightarrow> string" where
  "Join [] sep = []"
| "Join [s] sep = s"
| "Join (s # t # ss) sep = s @ sep @ Join (t # ss) sep"

lemma HasPrefix_append [simp]: "HasPrefix (p @ s) p"
  by (simp add: HasPrefix_def)

lemma HasPrefix_iff: "HasPrefix s p \<longleftrightarrow> (\<exists>t. s = p @ t)"
  by (auto simp: HasPrefix_def) (metis append_take_drop_id)

lemma HasSuffix_iff: "HasSuffix s p \<longleftrightarrow> (\<exists>t. s = t @ p)"
proof
  assume "HasSuffix s p"
  then obtain t where "rev s = rev p @ t" by (auto simp: HasSuffix_def HasPrefix_iff)
  then have "s = rev t @ p" by (metis rev_append rev_rev_ident)
  then show "\<exists>t. s = t @ p" ..
qed (auto simp: HasSuffix_def)

lemma TrimPrefix_append [simp]: "TrimPrefix (p @ s) p = s"
  by (simp add: TrimPrefix_def)

lemma SplitN2_append: "c \<notin> set s \<Longrightarrow> SplitN2 (s @ c # t) c = [s, t]"
  by (induction s) auto

lemma SplitN2_absent: "c \<notin> set s \<Longrightarrow> SplitN2 s c = [s]"
  by (induction s) auto

lemma SplitN2_cases:
  obtains (absent) "c \<notin> set s" "SplitN2 s c = [s]"
  | (present) p t where "s = p @ c # t" "c \<notin> set p" "SplitN2 s c = [p, t]"
proof (cases "c \<in> set s")
  case True
  then obtain p t where "s = p @ c # t" "c \<notin> set p" by (meson split_list_first)
  then show thesis by (intro present) (auto simp: SplitN2_append)
next
  case False
  then show thesis by (intro absent) (auto simp: SplitN2_absent)
qed

text \<open>Joining is injective on parts that do not contain the separator byte, for slices of the
  same length or of non-empty parts.\<close>

lemma Join_Cons: "ss \<noteq> [] \<Longrightarrow> Join (s # ss) sep = s @ sep @ Join ss sep"
  by (cases ss) auto

lemma append_sep_eq:
  "c \<notin> set s \<Longrightarrow> c \<notin> set t \<Longrightarrow> s @ c # u = t @ c # v \<longleftrightarrow> s = t \<and> u = v"
proof (induction s arbitrary: t)
  case Nil
  then show ?case by (cases t) auto
next
  case (Cons x s)
  then show ?case by (cases t) auto
qed

lemma Join_sep_free: "ss \<noteq> [] \<Longrightarrow> c \<notin> set (Join ss [c]) \<longleftrightarrow> (\<exists>s. ss = [s] \<and> c \<notin> set s)"
  by (cases ss rule: remdups_adj.cases) auto

lemma Join_inj:
  assumes "\<forall>s\<in>set ss. c \<notin> set s \<and> s \<noteq> []" "\<forall>t\<in>set ts. c \<notin> set t \<and> t \<noteq> []"
    and "Join ss [c] = Join ts [c]"
  shows "ss = ts"
  using assms
proof (induction ss arbitrary: ts)
  case Nil
  then show ?case by (cases ts rule: remdups_adj.cases) auto
next
  case (Cons s ss)
  then obtain t ts' where ts: "ts = t # ts'"
    by (cases ts; cases ss) auto
  consider (both) "ss \<noteq> []" "ts' \<noteq> []" | (none) "ss = []" "ts' = []"
    | (left) "ss \<noteq> []" "ts' = []" | (right) "ss = []" "ts' \<noteq> []" by blast
  then show ?case
  proof cases
    case both
    with Cons.prems ts have "s @ c # Join ss [c] = t @ c # Join ts' [c]"
      by (simp add: Join_Cons)
    moreover have "c \<notin> set s" "c \<notin> set t" using Cons.prems(1,2) ts by auto
    ultimately have "s = t" "Join ss [c] = Join ts' [c]"
      using append_sep_eq [of c s t "Join ss [c]" "Join ts' [c]"] by blast+
    moreover have "ss = ts'"
    proof (rule Cons.IH)
      show "\<forall>s\<in>set ss. c \<notin> set s \<and> s \<noteq> []" using Cons.prems(1) by simp
      show "\<forall>t\<in>set ts'. c \<notin> set t \<and> t \<noteq> []" using Cons.prems(2) ts by simp
    qed fact
    ultimately show ?thesis using ts by simp
  next
    case none
    with Cons.prems ts show ?thesis by simp
  next
    case left
    then have "c \<in> set (Join (s # ss) [c])" by (simp add: Join_Cons)
    with Cons.prems ts left show ?thesis by simp
  next
    case right
    then have "c \<in> set (Join (t # ts') [c])" by (simp add: Join_Cons)
    with Cons.prems ts right show ?thesis by simp
  qed
qed


subsection \<open>Sorting slices\<close>

text \<open>
  \<open>sort.Slice\<close> and \<open>slices.SortStableFunc\<close> over a \<open>less\<close> function. Go sorts short
  slices by insertion and longer ones by pattern-defeating quicksort; \<open>sort_by\<close> is the
  insertion sort, which is stable. What the callers rely on is proved below from the order
  contract alone: the result is a sorted permutation, its first element is least, and where the
  order is total on the elements every sorted permutation is the same slice, so the choice of
  algorithm is not observable.
\<close>

fun insert_by :: "('a \<Rightarrow> 'a \<Rightarrow> bool) \<Rightarrow> 'a \<Rightarrow> 'a list \<Rightarrow> 'a list" where
  "insert_by lt x [] = [x]"
| "insert_by lt x (y # ys) = (if lt y x then y # insert_by lt x ys else x # y # ys)"

fun sort_by :: "('a \<Rightarrow> 'a \<Rightarrow> bool) \<Rightarrow> 'a list \<Rightarrow> 'a list" where
  "sort_by lt [] = []"
| "sort_by lt (x # xs) = insert_by lt x (sort_by lt xs)"

lemma mset_insert_by [simp]: "mset (insert_by lt x xs) = add_mset x (mset xs)"
  by (induction xs) auto

lemma mset_sort_by [simp]: "mset (sort_by lt xs) = mset xs"
  by (induction xs) auto

lemma set_sort_by [simp]: "set (sort_by lt xs) = set xs"
  by (metis mset_sort_by set_mset_mset)

lemma length_sort_by [simp]: "length (sort_by lt xs) = length xs"
  by (metis mset_sort_by size_mset)

lemma sort_by_eq_Nil [simp]: "sort_by lt xs = [] \<longleftrightarrow> xs = []"
  by (metis length_0_conv length_sort_by)

text \<open>Sorting by a two-valued rank moves the elements of the higher rank behind the others and
  keeps the order within each rank.\<close>

lemma insert_by_rank:
  "insert_by (\<lambda>x y. \<not> P x \<and> P y) x (filter (\<lambda>x. \<not> P x) xs @ filter P xs) =
     filter (\<lambda>x. \<not> P x) (x # xs) @ filter P (x # xs)"
proof (cases "P x")
  case True
  have "insert_by (\<lambda>x y. \<not> P x \<and> P y) x (us @ vs) = us @ x # vs"
    if "\<forall>u\<in>set us. \<not> P u" "\<forall>v\<in>set vs. P v" for us vs
    using that True by (induction us) (cases vs; auto)+
  with True show ?thesis by simp
next
  case False
  have "insert_by (\<lambda>x y. \<not> P x \<and> P y) x zs = x # zs" for zs
    using False by (cases zs) auto
  with False show ?thesis by simp
qed

lemma sort_by_rank: "sort_by (\<lambda>x y. \<not> P x \<and> P y) xs = filter (\<lambda>x. \<not> P x) xs @ filter P xs"
  by (induction xs) (simp_all only: sort_by.simps insert_by_rank, simp)

text \<open>The contract of a \<open>less\<close> function on the elements that occur.\<close>

locale strict_weak_order =
  fixes A :: "'a set" and lt :: "'a \<Rightarrow> 'a \<Rightarrow> bool"
  assumes asym: "a \<in> A \<Longrightarrow> b \<in> A \<Longrightarrow> lt a b \<Longrightarrow> \<not> lt b a"
    and neg_trans: "a \<in> A \<Longrightarrow> b \<in> A \<Longrightarrow> c \<in> A \<Longrightarrow> \<not> lt a b \<Longrightarrow> \<not> lt b c \<Longrightarrow> \<not> lt a c"
begin

lemma less_trans: "a \<in> A \<Longrightarrow> b \<in> A \<Longrightarrow> c \<in> A \<Longrightarrow> lt a b \<Longrightarrow> lt b c \<Longrightarrow> lt a c"
  using asym neg_trans by blast

lemma sorted_insert_by:
  assumes "x \<in> A" "set xs \<subseteq> A" "sorted_wrt (\<lambda>a b. \<not> lt b a) xs"
  shows "sorted_wrt (\<lambda>a b. \<not> lt b a) (insert_by lt x xs)"
  using assms
proof (induction xs)
  case Nil
  show ?case by simp
next
  case (Cons y ys)
  have sub: "set (insert_by lt x ys) = insert x (set ys)"
    by (metis mset_insert_by set_mset_add_mset_insert set_mset_mset)
  show ?case
  proof (cases "lt y x")
    case True
    with Cons.prems have "\<not> lt x y" by (auto dest: asym)
    with Cons True sub show ?thesis by simp
  next
    case False
    have "\<not> lt z x" if "z \<in> set ys" for z
      using False Cons.prems that neg_trans [of z y x] by auto
    with Cons.prems False show ?thesis by simp
  qed
qed

lemma sorted_sort_by: "set xs \<subseteq> A \<Longrightarrow> sorted_wrt (\<lambda>a b. \<not> lt b a) (sort_by lt xs)"
  by (induction xs) (simp_all add: sorted_insert_by)

lemma sort_by_hd_least:
  assumes "set xs \<subseteq> A" "x \<in> set xs"
  shows "\<not> lt x (hd (sort_by lt xs))"
proof -
  obtain y ys where s: "sort_by lt xs = y # ys"
    using assms(2) by (cases "sort_by lt xs") auto
  then have "x \<in> insert y (set ys)" using assms(2) by (metis list.simps(15) set_sort_by)
  moreover have "y \<in> A" using s assms(1) by (metis list.set_intros(1) set_sort_by subsetD)
  ultimately show ?thesis
    using sorted_sort_by [OF assms(1)] s asym [of y y] by auto
qed

text \<open>The least element is the same, up to equivalence, for every order of the input.\<close>

lemma sort_by_hd_unique:
  assumes "set xs \<subseteq> A" "set ys \<subseteq> A" "set xs = set ys" "xs \<noteq> []"
  shows "\<not> lt (hd (sort_by lt xs)) (hd (sort_by lt ys))"
proof -
  have "hd (sort_by lt xs) \<in> set ys"
    using assms(3,4) by (metis hd_in_set set_sort_by sort_by_eq_Nil)
  then show ?thesis using assms(2) by (intro sort_by_hd_least)
qed

end

locale strict_total_order = strict_weak_order +
  assumes total: "a \<in> A \<Longrightarrow> b \<in> A \<Longrightarrow> \<not> lt a b \<Longrightarrow> \<not> lt b a \<Longrightarrow> a = b"
begin

lemma sorted_perm_unique:
  assumes "set xs \<subseteq> A" "mset xs = mset ys"
    and "sorted_wrt (\<lambda>a b. \<not> lt b a) xs" "sorted_wrt (\<lambda>a b. \<not> lt b a) ys"
  shows "xs = ys"
  using assms
proof (induction xs arbitrary: ys)
  case Nil
  then show ?case by simp
next
  case (Cons x xs)
  then obtain y ys' where ys: "ys = y # ys'" by (cases ys) auto
  have sets: "set (x # xs) = set (y # ys')" using Cons.prems(2) ys by (metis set_mset_mset)
  have "x = y"
  proof (rule ccontr)
    assume "x \<noteq> y"
    then have "x \<in> set ys'" "y \<in> set xs" using sets by (metis set_ConsD list.set_intros(1))+
    then have "\<not> lt x y" "\<not> lt y x" using Cons.prems ys by auto
    moreover have "x \<in> A" "y \<in> A" using Cons.prems(1) sets \<open>y \<in> set xs\<close> by auto
    ultimately show False using total \<open>x \<noteq> y\<close> by blast
  qed
  moreover have "xs = ys'"
    using Cons.prems ys \<open>x = y\<close> by (intro Cons.IH) auto
  ultimately show ?case using ys by simp
qed

lemma sort_by_cong_mset:
  assumes "set xs \<subseteq> A" "mset xs = mset ys"
  shows "sort_by lt xs = sort_by lt ys"
proof -
  have "set ys \<subseteq> A" using assms by (metis set_mset_mset)
  then show ?thesis
    using assms by (intro sorted_perm_unique sorted_sort_by) auto
qed

lemma sort_by_eq_iff_mset:
  "set xs \<subseteq> A \<Longrightarrow> sort_by lt xs = sort_by lt ys \<longleftrightarrow> mset xs = mset ys"
  by (metis mset_sort_by sort_by_cong_mset)

end

interpretation string_order: strict_total_order "UNIV :: string set" "(<)"
  by unfold_locales auto

text \<open>\<open>sort.Strings\<close>.\<close>

abbreviation sort_Strings :: "string list \<Rightarrow> string list" where
  "sort_Strings \<equiv> sort_by (<)"

lemma sorted_sort_Strings: "sorted (sort_Strings ss)"
  using string_order.sorted_sort_by [of ss] by (simp add: not_less)

subsection \<open>The lo helpers\<close>

text \<open>\<open>lo.UniqBy\<close> keeps the first element of every class of elements with the same key;
  \<open>lo.Uniq\<close> is the same with the element as its key.\<close>

fun uniqBy_seen :: "('a \<Rightarrow> 'k) \<Rightarrow> 'k set \<Rightarrow> 'a list \<Rightarrow> 'a list" where
  "uniqBy_seen key seen [] = []"
| "uniqBy_seen key seen (x # xs) =
     (if key x \<in> seen then uniqBy_seen key seen xs
      else x # uniqBy_seen key (insert (key x) seen) xs)"

definition lo_UniqBy :: "('a \<Rightarrow> 'k) \<Rightarrow> 'a list \<Rightarrow> 'a list" where
  "lo_UniqBy key xs = uniqBy_seen key {} xs"

definition lo_Uniq :: "'a list \<Rightarrow> 'a list" where
  "lo_Uniq xs = lo_UniqBy (\<lambda>x. x) xs"

lemma uniqBy_seen_keys: "key ` set (uniqBy_seen key seen xs) = key ` set xs - seen"
  by (induction xs arbitrary: seen) auto

lemma uniqBy_seen_subset: "set (uniqBy_seen key seen xs) \<subseteq> set xs"
  by (induction xs arbitrary: seen) (auto dest: subsetD)

lemma uniqBy_seen_distinct: "distinct (map key (uniqBy_seen key seen xs))"
proof (induction xs arbitrary: seen)
  case (Cons x xs)
  have "key x \<notin> key ` set (uniqBy_seen key (insert (key x) seen) xs)"
    by (simp add: uniqBy_seen_keys)
  with Cons show ?case by simp
qed simp

lemma lo_UniqBy_keys [simp]: "key ` set (lo_UniqBy key xs) = key ` set xs"
  by (simp add: lo_UniqBy_def uniqBy_seen_keys)

lemma lo_UniqBy_subset: "set (lo_UniqBy key xs) \<subseteq> set xs"
  by (simp add: lo_UniqBy_def uniqBy_seen_subset)

lemma lo_UniqBy_distinct: "distinct (map key (lo_UniqBy key xs))"
  by (simp add: lo_UniqBy_def uniqBy_seen_distinct)

lemma uniqBy_seen_id:
  "distinct (map key xs) \<Longrightarrow> key ` set xs \<inter> seen = {} \<Longrightarrow> uniqBy_seen key seen xs = xs"
  by (induction xs arbitrary: seen) auto

lemma lo_UniqBy_id: "distinct (map key xs) \<Longrightarrow> lo_UniqBy key xs = xs"
  by (simp add: lo_UniqBy_def uniqBy_seen_id)

lemma set_lo_Uniq [simp]: "set (lo_Uniq xs) = set xs"
  using lo_UniqBy_keys [of "\<lambda>x. x" xs] by (simp add: lo_Uniq_def)

lemma distinct_lo_Uniq [simp]: "distinct (lo_Uniq xs)"
  using lo_UniqBy_distinct [of "\<lambda>x. x" xs] by (simp add: lo_Uniq_def)

lemma lo_Uniq_eq_Nil [simp]: "lo_Uniq xs = [] \<longleftrightarrow> xs = []"
  by (metis set_empty set_lo_Uniq)

subsection \<open>Go maps\<close>

text \<open>
  A Go map is the list of its entries, each key once, in the order in which a \<open>range\<close> over it
  meets them. \<open>map_put k v m\<close> is \<open>m[k] = v\<close>: an existing key keeps its place and gets the new
  value; \<open>map_delete k m\<close> is \<open>delete(m, k)\<close>; a lookup is \<^const>\<open>map_of\<close>.
\<close>

fun map_put :: "'k \<Rightarrow> 'v \<Rightarrow> ('k \<times> 'v) list \<Rightarrow> ('k \<times> 'v) list" where
  "map_put k v [] = [(k, v)]"
| "map_put k v ((k', v') # m) = (if k = k' then (k', v) # m else (k', v') # map_put k v m)"

definition map_delete :: "'k \<Rightarrow> ('k \<times> 'v) list \<Rightarrow> ('k \<times> 'v) list" where
  "map_delete k m = filter (\<lambda>kv. fst kv \<noteq> k) m"

lemma map_put_fresh: "k \<notin> fst ` set m \<Longrightarrow> map_put k v m = m @ [(k, v)]"
  by (induction m) auto

lemma map_of_map_put: "map_of (map_put k v m) = (map_of m)(k \<mapsto> v)"
  by (induction m) (auto simp: fun_eq_iff)

lemma foldl_map_put_distinct:
  "distinct (map fst kvs) \<Longrightarrow> fst ` set kvs \<inter> fst ` set m = {} \<Longrightarrow>
     foldl (\<lambda>m (k, v). map_put k v m) m kvs = m @ kvs"
proof (induction kvs arbitrary: m)
  case (Cons kv kvs)
  obtain k v where kv: "kv = (k, v)" by (cases kv)
  with Cons.prems have "map_put k v m = m @ [(k, v)]" by (intro map_put_fresh) auto
  moreover have "foldl (\<lambda>m (k, v). map_put k v m) (m @ [(k, v)]) kvs = (m @ [(k, v)]) @ kvs"
    using Cons.prems kv by (intro Cons.IH) auto
  ultimately show ?case using kv by simp
qed simp

lemma keys_map_put: "fst ` set (map_put k v m) = insert k (fst ` set m)"
  by (induction k v m rule: map_put.induct) (simp_all add: insert_commute)

lemma set_map_put: "set (map_put k v m) \<subseteq> insert (k, v) (set m)"
  by (induction k v m rule: map_put.induct) (simp_all, blast)

lemma distinct_map_put: "distinct (map fst m) \<Longrightarrow> distinct (map fst (map_put k v m))"
proof (induction m)
  case (Cons kv m)
  then have "fst kv \<noteq> k \<Longrightarrow> fst kv \<notin> fst ` set (map_put k v m)" by (auto simp: keys_map_put)
  with Cons show ?case by (cases kv) auto
qed simp

lemma map_of_map_delete: "map_of (map_delete k m) = (map_of m)(k := None)"
  by (induction m) (auto simp: map_delete_def fun_eq_iff)

lemma distinct_map_delete: "distinct (map fst m) \<Longrightarrow> distinct (map fst (map_delete k m))"
  by (simp add: map_delete_def distinct_map_filter)

text \<open>The contract a client of a keyed store relies on, and what a run of changes does to it.\<close>

locale keyed_store =
  fixes lookup :: "'c \<Rightarrow> 'k \<Rightarrow> 'v option" and put :: "'c \<Rightarrow> 'v \<Rightarrow> 'c" and del :: "'c \<Rightarrow> 'k \<Rightarrow> 'c"
    and key :: "'v \<Rightarrow> 'k" and inv :: "'c \<Rightarrow> bool"
  assumes lookup_put: "inv c \<Longrightarrow> lookup (put c v) = (lookup c)(key v \<mapsto> v)"
    and lookup_del: "inv c \<Longrightarrow> lookup (del c k) = (lookup c)(k := None)"
    and inv_put: "inv c \<Longrightarrow> inv (put c v)"
    and inv_del: "inv c \<Longrightarrow> inv (del c k)"
begin

lemma inv_puts: "inv c \<Longrightarrow> inv (foldl put c vs)"
  by (induction vs arbitrary: c) (auto simp: inv_put)

lemma inv_dels: "inv c \<Longrightarrow> inv (foldl del c ks)"
  by (induction ks arbitrary: c) (auto simp: inv_del)

lemma lookup_dels: "inv c \<Longrightarrow> lookup (foldl del c ks) k = (if k \<in> set ks then None else lookup c k)"
  by (induction ks arbitrary: c) (auto simp: lookup_del inv_del)

lemma lookup_puts_other: "inv c \<Longrightarrow> k \<notin> key ` set vs \<Longrightarrow> lookup (foldl put c vs) k = lookup c k"
  by (induction vs arbitrary: c) (auto simp: lookup_put inv_put)

lemma lookup_puts_in:
  "inv c \<Longrightarrow> distinct (map key vs) \<Longrightarrow> v \<in> set vs \<Longrightarrow> lookup (foldl put c vs) (key v) = Some v"
  by (induction vs arbitrary: c) (auto simp: lookup_put inv_put lookup_puts_other)

end

interpretation go_map: keyed_store map_of "\<lambda>m kv. map_put (key kv) kv m" "\<lambda>m k. map_delete k m" key
    "\<lambda>_. True"
  for key :: "'v \<Rightarrow> 'k"
  by unfold_locales (simp_all add: map_of_map_put map_of_map_delete)

subsection \<open>Machine integers and time\<close>

text \<open>
  Times and durations are nanoseconds. \<open>wrap64\<close> reads an integer as an \<open>int64\<close> and
  \<open>wrap32\<close> as an \<open>int32\<close>, with wrap-around; \<open>go_quot\<close> is Go's integer division, which
  truncates towards zero. The zero \<open>time.Time\<close> is \<open>time_zero\<close>, which is before every time
  the clock returns.
\<close>

type_synonym Time = int
type_synonym Duration = int

definition wrap64 :: "int \<Rightarrow> int" where
  "wrap64 i = (i + 2 ^ 63) mod 2 ^ 64 - 2 ^ 63"

definition wrap32 :: "int \<Rightarrow> int" where
  "wrap32 i = (i + 2 ^ 31) mod 2 ^ 32 - 2 ^ 31"

definition go_quot :: "int \<Rightarrow> int \<Rightarrow> int" where
  "go_quot a b = sgn a * sgn b * (\<bar>a\<bar> div \<bar>b\<bar>)"

definition int64 :: "int \<Rightarrow> bool" where
  "int64 i \<longleftrightarrow> - (2 ^ 63) \<le> i \<and> i < 2 ^ 63"

definition int32 :: "int \<Rightarrow> bool" where
  "int32 i \<longleftrightarrow> - (2 ^ 31) \<le> i \<and> i < 2 ^ 31"

definition Nanosecond :: Duration where "Nanosecond = 1"
definition Second :: Duration where "Second = 1000000000"
definition Minute :: Duration where "Minute = 60 * Second"
definition Hour :: Duration where "Hour = 60 * Minute"

definition time_zero :: Time where
  "time_zero = - 62135596800 * Second"

lemmas time_units = Nanosecond_def Second_def Minute_def Hour_def

lemma wrap64_id [simp]: "int64 i \<Longrightarrow> wrap64 i = i"
  by (simp add: wrap64_def int64_def)

lemma wrap32_id [simp]: "int32 i \<Longrightarrow> wrap32 i = i"
  by (simp add: wrap32_def int32_def)

lemma int64_wrap64 [simp]: "int64 (wrap64 i)"
  by (simp add: wrap64_def int64_def)

lemma int32_wrap32 [simp]: "int32 (wrap32 i)"
  by (simp add: wrap32_def int32_def)

lemma wrap64_sint: "wrap64 i = sint (word_of_int i :: 64 word)"
  by (simp add: wrap64_def sint_sbintrunc' signed_take_bit_eq_take_bit_shift take_bit_eq_mod)

lemma wrap32_sint: "wrap32 i = sint (word_of_int i :: 32 word)"
  by (simp add: wrap32_def sint_sbintrunc' signed_take_bit_eq_take_bit_shift take_bit_eq_mod)

lemma go_quot_mult [simp]: "b \<noteq> 0 \<Longrightarrow> go_quot (a * b) b = a"
  by (auto simp: go_quot_def abs_mult sgn_if zero_less_mult_iff)

lemma go_quot_0 [simp]: "go_quot 0 b = 0"
  by (simp add: go_quot_def)

lemma go_quot_nonneg: "0 \<le> a \<Longrightarrow> 0 < b \<Longrightarrow> go_quot a b = a div b"
  by (cases "a = 0") (simp_all add: go_quot_def)

end
