(* ===== verification/Spire_Types.thy ===== *)
theory Spire_Types
  imports Go_Prelude
begin

section \<open>Entries, federation relationships and their API form (pkg/spireapi/types.go)\<close>

text \<open>
  The data the controller manager keeps about SPIRE objects and its conversion to and from the
  messages of the SPIRE server API. SPIFFE IDs and trust domains are values of the go-spiffe
  library: an ID is known by its trust domain and its path, a trust domain by its name, and
  the functions that parse and print them are the parameter \<open>spiffeid_lib\<close>. X.509 and key
  parsing and \<open>url.Parse\<close> are parameters as well.
\<close>

subsection \<open>Library values\<close>

datatype TrustDomain = TrustDomain (td_Name: string)

datatype ID = ID (id_TrustDomain: TrustDomain) (id_Path: string)

record spiffeid_lib =
  FromString :: "string \<Rightarrow> ID result"
  FromPath :: "TrustDomain \<Rightarrow> string \<Rightarrow> ID result"
  TrustDomainFromString :: "string \<Rightarrow> TrustDomain result"
  ID_String :: "ID \<Rightarrow> string"
  td_Compare :: "TrustDomain \<Rightarrow> TrustDomain \<Rightarrow> int"

text \<open>The zero trust domain has no name.\<close>

definition td_IsZero :: "TrustDomain \<Rightarrow> bool" where
  "td_IsZero td \<longleftrightarrow> td_Name td = ''''"

text \<open>What go-spiffe documents of the values it hands out: the name of a trust domain parses
  back to it, and the trust domain and path, or the printed form, of an ID give the ID back.\<close>

definition valid_TD :: "spiffeid_lib \<Rightarrow> TrustDomain \<Rightarrow> bool" where
  "valid_TD L td \<longleftrightarrow> td_Name td \<noteq> '''' \<and> TrustDomainFromString L (td_Name td) = Inr td"

definition valid_ID :: "spiffeid_lib \<Rightarrow> ID \<Rightarrow> bool" where
  "valid_ID L i \<longleftrightarrow> valid_TD L (id_TrustDomain i) \<and>
     FromPath L (id_TrustDomain i) (id_Path i) = Inr i \<and> FromString L (ID_String L i) = Inr i"

record Certificate =
  cert_Raw :: string
  cert_NotAfter :: Time

type_synonym PublicKey = string

record x509_lib =
  ParseCertificate :: "string \<Rightarrow> Certificate result"
  MarshalPKIXPublicKey :: "PublicKey \<Rightarrow> string result"
  ParsePKIXPublicKey :: "string \<Rightarrow> PublicKey result"

text \<open>A bundle of the spiffebundle package: the JWT authorities are a Go map, listed here by its
  entries in iteration order; sequence number and refresh hint may be unset.\<close>

record Bundle =
  b_TrustDomain :: TrustDomain
  b_X509Authorities :: "Certificate list"
  b_JWTAuthorities :: "(string \<times> PublicKey) list"
  b_SequenceNumber :: "nat option"
  b_RefreshHint :: "Duration option"

record URL =
  u_Scheme :: string
  u_Host :: string
  u_User :: "string option"

type_synonym url_lib = "string \<Rightarrow> URL result"

subsection \<open>The types of the package\<close>

record Selector =
  s_Type :: string
  s_Value :: string

record Entry =
  e_ID :: string
  e_SPIFFEID :: ID
  e_ParentID :: ID
  e_Selectors :: "Selector list"
  e_X509SVIDTTL :: Duration
  e_JWTSVIDTTL :: Duration
  e_FederatesWith :: "TrustDomain list"
  e_Admin :: bool
  e_Downstream :: bool
  e_DNSNames :: "string list"
  e_Hint :: string
  e_StoreSVID :: bool

text \<open>The interface \<open>BundleEndpointProfile\<close> is implemented by two struct types and, through
  their promoted methods, by pointers to them; a nil interface value is \<open>None\<close>.\<close>

datatype BundleEndpointProfile =
    HTTPSWebProfile
  | HTTPSWebProfilePtr
  | HTTPSSPIFFEProfile ID
  | HTTPSSPIFFEProfilePtr ID

record FederationRelationship =
  fr_TrustDomain :: TrustDomain
  fr_BundleEndpointURL :: string
  fr_BundleEndpointProfile :: "BundleEndpointProfile option"
  fr_TrustDomainBundle :: "Bundle option"

fun profile_Name :: "BundleEndpointProfile \<Rightarrow> string" where
  "profile_Name HTTPSWebProfile = ''https_web''"
| "profile_Name HTTPSWebProfilePtr = ''https_web''"
| "profile_Name (HTTPSSPIFFEProfile i) = ''https_spiffe''"
| "profile_Name (HTTPSSPIFFEProfilePtr i) = ''https_spiffe''"

fun profile_Equal :: "BundleEndpointProfile \<Rightarrow> BundleEndpointProfile option \<Rightarrow> bool" where
  "profile_Equal p None = False"
| "profile_Equal p (Some q) =
     (case p of
        HTTPSWebProfile \<Rightarrow> (case q of HTTPSWebProfile \<Rightarrow> True | HTTPSWebProfilePtr \<Rightarrow> True | _ \<Rightarrow> False)
      | HTTPSWebProfilePtr \<Rightarrow> (case q of HTTPSWebProfile \<Rightarrow> True | HTTPSWebProfilePtr \<Rightarrow> True | _ \<Rightarrow> False)
      | HTTPSSPIFFEProfile i \<Rightarrow>
          (case q of HTTPSSPIFFEProfile j \<Rightarrow> i = j | HTTPSSPIFFEProfilePtr j \<Rightarrow> i = j | _ \<Rightarrow> False)
      | HTTPSSPIFFEProfilePtr i \<Rightarrow>
          (case q of HTTPSSPIFFEProfile j \<Rightarrow> i = j | HTTPSSPIFFEProfilePtr j \<Rightarrow> i = j | _ \<Rightarrow> False))"

text \<open>\<open>FederationRelationship.Equal\<close>; calling \<open>Equal\<close> on a nil profile is a nil dereference,
  which is the value \<open>None\<close>. The trust domain bundle is not compared.\<close>

definition fr_Equal :: "FederationRelationship \<Rightarrow> FederationRelationship \<Rightarrow> bool option" where
  "fr_Equal fr other =
     (if fr_TrustDomain fr \<noteq> fr_TrustDomain other then Some False
      else if fr_BundleEndpointURL fr \<noteq> fr_BundleEndpointURL other then Some False
      else case fr_BundleEndpointProfile fr of
        None \<Rightarrow> None
      | Some p \<Rightarrow> Some (profile_Equal p (fr_BundleEndpointProfile other)))"

type_synonym Code = "32 word"

record Status =
  st_Code :: Code
  st_Message :: string

definition codes_OK :: Code where "codes_OK = 0"
definition codes_Unknown :: Code where "codes_Unknown = 2"
definition codes_NotFound :: Code where "codes_NotFound = 5"
definition codes_AlreadyExists :: Code where "codes_AlreadyExists = 6"

lemmas codes_defs = codes_OK_def codes_Unknown_def codes_NotFound_def codes_AlreadyExists_def

definition ValidateBundleEndpointURL :: "url_lib \<Rightarrow> string \<Rightarrow> unit result" where
  "ValidateBundleEndpointURL url_Parse s =
     (if s = '''' then Inl (Err ''bundle endpoint URL is missing'')
      else case url_Parse s of
        Inl e \<Rightarrow> Inl e
      | Inr u \<Rightarrow>
          if u_Scheme u \<noteq> ''https'' then Inl (Err ''scheme must be https'')
          else if u_Host u = '''' then Inl (Err ''host must be specified'')
          else if u_User u \<noteq> None then Inl (Err ''cannot contain userinfo'')
          else Inr ())"

subsection \<open>The messages of the SPIRE API\<close>

record api_SPIFFEID =
  api_TrustDomain :: string
  api_Path :: string

record api_Selector =
  api_Type :: string
  api_Value :: string

text \<open>TTLs are \<open>int32\<close> seconds.\<close>

record api_Entry =
  api_Id :: string
  api_SpiffeId :: "api_SPIFFEID option"
  api_ParentId :: "api_SPIFFEID option"
  api_Selectors :: "api_Selector list"
  api_X509SvidTtl :: int
  api_JwtSvidTtl :: int
  api_FederatesWith :: "string list"
  api_Admin :: bool
  api_DnsNames :: "string list"
  api_Downstream :: bool
  api_Hint :: string
  api_StoreSvid :: bool

record api_JWTKey =
  api_KeyId :: string
  api_PublicKey :: string

record api_Bundle =
  api_b_TrustDomain :: string
  api_X509Authorities :: "string list"
  api_JwtAuthorities :: "api_JWTKey list"
  api_SequenceNumber :: nat
  api_RefreshHint :: int

text \<open>The oneof of the profile; its wrapped message may be missing. \<open>API_OtherProfile\<close> is any
  variant this client does not know.\<close>

datatype api_Profile =
    API_HttpsWeb "unit option"
  | API_HttpsSpiffe "string option"
  | API_OtherProfile

record api_FederationRelationship =
  api_fr_TrustDomain :: string
  api_BundleEndpointUrl :: string
  api_BundleEndpointProfile :: "api_Profile option"
  api_TrustDomainBundle :: "api_Bundle option"

record api_Status =
  api_Code :: int
  api_Message :: string

subsection \<open>Entries\<close>

definition spiffeIDToAPI :: "ID \<Rightarrow> api_SPIFFEID" where
  "spiffeIDToAPI i = \<lparr>api_TrustDomain = td_Name (id_TrustDomain i), api_Path = id_Path i\<rparr>"

definition spiffeIDFromAPI :: "spiffeid_lib \<Rightarrow> api_SPIFFEID option \<Rightarrow> ID result" where
  "spiffeIDFromAPI L inp =
     (case inp of
        None \<Rightarrow> Inl (Err ''SPIFFE ID is nil'')
      | Some i \<Rightarrow> bindE (TrustDomainFromString L (api_TrustDomain i))
          (\<lambda>td. FromPath L td (api_Path i)))"

definition selectorToAPI :: "Selector \<Rightarrow> api_Selector" where
  "selectorToAPI s = \<lparr>api_Type = s_Type s, api_Value = s_Value s\<rparr>"

definition selectorsToAPI :: "Selector list \<Rightarrow> api_Selector list" where
  "selectorsToAPI ins = map selectorToAPI ins"

definition selectorFromAPI :: "api_Selector \<Rightarrow> Selector result" where
  "selectorFromAPI s =
     (if api_Type s = '''' then Inl (Err ''selector type is empty'')
      else if api_Value s = '''' then Inl (Err ''selector value is empty'')
      else if ContainsChar (api_Type s) CHR '':'' then Inl (Err ''selector type cannot contain a colon'')
      else Inr \<lparr>s_Type = api_Type s, s_Value = api_Value s\<rparr>)"

definition selectorsFromAPI :: "api_Selector list \<Rightarrow> Selector list result" where
  "selectorsFromAPI ins = mapE selectorFromAPI ins"

definition trustDomainsToAPI :: "TrustDomain list \<Rightarrow> string list" where
  "trustDomainsToAPI ins = map td_Name ins"

definition trustDomainsFromAPI :: "spiffeid_lib \<Rightarrow> string list \<Rightarrow> TrustDomain list result" where
  "trustDomainsFromAPI L ins =
     mapE (\<lambda>s. wrapE ''invalid trust domain'' (TrustDomainFromString L s)) ins"

definition entryToAPI :: "Entry \<Rightarrow> api_Entry" where
  "entryToAPI e =
     \<lparr>api_Id = e_ID e,
      api_SpiffeId = Some (spiffeIDToAPI (e_SPIFFEID e)),
      api_ParentId = Some (spiffeIDToAPI (e_ParentID e)),
      api_Selectors = selectorsToAPI (e_Selectors e),
      api_X509SvidTtl = wrap32 (go_quot (e_X509SVIDTTL e) Second),
      api_JwtSvidTtl = wrap32 (go_quot (e_JWTSVIDTTL e) Second),
      api_FederatesWith = trustDomainsToAPI (e_FederatesWith e),
      api_Admin = e_Admin e,
      api_DnsNames = e_DNSNames e,
      api_Downstream = e_Downstream e,
      api_Hint = e_Hint e,
      api_StoreSvid = e_StoreSVID e\<rparr>"

definition entriesToAPI :: "Entry list \<Rightarrow> api_Entry list" where
  "entriesToAPI ins = map entryToAPI ins"

definition entryFromAPI :: "spiffeid_lib \<Rightarrow> api_Entry option \<Rightarrow> Entry result" where
  "entryFromAPI L inp =
     (case inp of
        None \<Rightarrow> Inl (Err ''entry is nil'')
      | Some i \<Rightarrow>
          bindE (wrapE ''invalid SPIFFE ID field'' (spiffeIDFromAPI L (api_SpiffeId i))) (\<lambda>spiffeID.
          bindE (wrapE ''invalid parent ID field'' (spiffeIDFromAPI L (api_ParentId i))) (\<lambda>parentID.
          bindE (wrapE ''invalid selectors field'' (selectorsFromAPI (api_Selectors i))) (\<lambda>selectors.
          bindE (wrapE ''invalid federatesWith field'' (trustDomainsFromAPI L (api_FederatesWith i)))
            (\<lambda>federatesWith.
          Inr \<lparr>e_ID = api_Id i,
               e_SPIFFEID = spiffeID,
               e_ParentID = parentID,
               e_Selectors = selectors,
               e_X509SVIDTTL = wrap64 (api_X509SvidTtl i * Second),
               e_JWTSVIDTTL = wrap64 (api_JwtSvidTtl i * Second),
               e_FederatesWith = federatesWith,
               e_Admin = api_Admin i,
               e_Downstream = api_Downstream i,
               e_DNSNames = api_DnsNames i,
               e_Hint = api_Hint i,
               e_StoreSVID = api_StoreSvid i\<rparr>)))))"

definition entriesFromAPI :: "spiffeid_lib \<Rightarrow> api_Entry option list \<Rightarrow> Entry list result" where
  "entriesFromAPI L ins = mapE (entryFromAPI L) ins"

definition statusFromAPI :: "api_Status option \<Rightarrow> Status" where
  "statusFromAPI inp =
     (case inp of
        None \<Rightarrow> \<lparr>st_Code = codes_Unknown, st_Message = ''status is nil''\<rparr>
      | Some s \<Rightarrow> \<lparr>st_Code = word_of_int (api_Code s), st_Message = api_Message s\<rparr>)"

subsection \<open>Bundles\<close>

definition x509AuthorityToAPI :: "Certificate \<Rightarrow> string result" where
  "x509AuthorityToAPI c =
     (if cert_Raw c = '''' then Inl (Err ''x509 certificate is missing raw data'')
      else Inr (cert_Raw c))"

definition x509AuthoritiesToAPI :: "Certificate list \<Rightarrow> string list result" where
  "x509AuthoritiesToAPI ins = mapE x509AuthorityToAPI ins"

definition x509AuthorityFromAPI :: "x509_lib \<Rightarrow> string \<Rightarrow> Certificate result" where
  "x509AuthorityFromAPI X asn1 = ParseCertificate X asn1"

definition x509AuthoritiesFromAPI :: "x509_lib \<Rightarrow> string list \<Rightarrow> Certificate list result" where
  "x509AuthoritiesFromAPI X ins = mapE (x509AuthorityFromAPI X) ins"

definition jwtAuthorityToAPI :: "x509_lib \<Rightarrow> string \<times> PublicKey \<Rightarrow> api_JWTKey result" where
  "jwtAuthorityToAPI X kv =
     (if fst kv = '''' then Inl (Err ''key ID is missing'')
      else bindE (wrapE ''failed to marshal public key'' (MarshalPKIXPublicKey X (snd kv)))
        (\<lambda>b. Inr \<lparr>api_KeyId = fst kv, api_PublicKey = b\<rparr>))"

definition jwtAuthoritiesToAPI :: "x509_lib \<Rightarrow> (string \<times> PublicKey) list \<Rightarrow> api_JWTKey list result" where
  "jwtAuthoritiesToAPI X ins = mapE (jwtAuthorityToAPI X) ins"

definition jwtAuthorityFromAPI :: "x509_lib \<Rightarrow> api_JWTKey \<Rightarrow> (string \<times> PublicKey) result" where
  "jwtAuthorityFromAPI X k =
     (if api_KeyId k = '''' then Inl (Err ''key ID is missing'')
      else bindE (wrapE ''failed to unmarshal public key'' (ParsePKIXPublicKey X (api_PublicKey k)))
        (\<lambda>p. Inr (api_KeyId k, p)))"

definition jwtAuthoritiesFromAPI :: "x509_lib \<Rightarrow> api_JWTKey list \<Rightarrow> (string \<times> PublicKey) list result" where
  "jwtAuthoritiesFromAPI X ins =
     bindE (mapE (jwtAuthorityFromAPI X) ins) (\<lambda>kvs. Inr (foldl (\<lambda>m (k, v). map_put k v m) [] kvs))"

definition bundleToAPI :: "x509_lib \<Rightarrow> Bundle \<Rightarrow> api_Bundle result" where
  "bundleToAPI X b =
     (if td_Name (b_TrustDomain b) = '''' then Inl (Err ''trust domain is missing'')
      else bindE (x509AuthoritiesToAPI (b_X509Authorities b)) (\<lambda>x509Authorities.
           bindE (jwtAuthoritiesToAPI X (b_JWTAuthorities b)) (\<lambda>jwtAuthorities.
           Inr \<lparr>api_b_TrustDomain = td_Name (b_TrustDomain b),
                api_X509Authorities = x509Authorities,
                api_JwtAuthorities = jwtAuthorities,
                api_SequenceNumber = (case b_SequenceNumber b of None \<Rightarrow> 0 | Some n \<Rightarrow> n),
                api_RefreshHint =
                  go_quot (case b_RefreshHint b of None \<Rightarrow> 0 | Some d \<Rightarrow> d) Second\<rparr>)))"

text \<open>A nil message gives a nil bundle.\<close>

definition bundleFromAPI :: "spiffeid_lib \<Rightarrow> x509_lib \<Rightarrow> api_Bundle option \<Rightarrow> Bundle option result" where
  "bundleFromAPI L X inp =
     (case inp of
        None \<Rightarrow> Inr None
      | Some i \<Rightarrow>
          bindE (TrustDomainFromString L (api_b_TrustDomain i)) (\<lambda>trustDomain.
          bindE (x509AuthoritiesFromAPI X (api_X509Authorities i)) (\<lambda>x509Authorities.
          bindE (jwtAuthoritiesFromAPI X (api_JwtAuthorities i)) (\<lambda>jwtAuthorities.
          Inr (Some \<lparr>b_TrustDomain = trustDomain,
                     b_X509Authorities = x509Authorities,
                     b_JWTAuthorities = jwtAuthorities,
                     b_SequenceNumber =
                       (if api_SequenceNumber i \<noteq> 0 then Some (api_SequenceNumber i) else None),
                     b_RefreshHint =
                       (if api_RefreshHint i \<noteq> 0 then Some (wrap64 (api_RefreshHint i * Second))
                        else None)\<rparr>)))))"

subsection \<open>Federation relationships\<close>

definition federationRelationshipToAPI ::
  "spiffeid_lib \<Rightarrow> x509_lib \<Rightarrow> url_lib \<Rightarrow> FederationRelationship \<Rightarrow> api_FederationRelationship result" where
  "federationRelationshipToAPI L X U fr =
     (if td_IsZero (fr_TrustDomain fr) then Inl (Err ''trust domain is missing'')
      else
        bindE (wrapE ''invalid bundle endpoint URL'' (ValidateBundleEndpointURL U (fr_BundleEndpointURL fr)))
          (\<lambda>_.
        bindE (case fr_TrustDomainBundle fr of
                 None \<Rightarrow> Inr None
               | Some b \<Rightarrow> bindE (wrapE ''invalid trust domain bundle'' (bundleToAPI X b)) (\<lambda>ab. Inr (Some ab)))
          (\<lambda>trustDomainBundle.
        bindE (case fr_BundleEndpointProfile fr of
                 Some HTTPSWebProfile \<Rightarrow> Inr (API_HttpsWeb (Some ()))
               | Some (HTTPSSPIFFEProfile i) \<Rightarrow> Inr (API_HttpsSpiffe (Some (ID_String L i)))
               | _ \<Rightarrow> Inl (Err ''unrecognized bundle endpoint profile type''))
          (\<lambda>profile.
        Inr \<lparr>api_fr_TrustDomain = td_Name (fr_TrustDomain fr),
             api_BundleEndpointUrl = fr_BundleEndpointURL fr,
             api_BundleEndpointProfile = Some profile,
             api_TrustDomainBundle = trustDomainBundle\<rparr>))))"

definition federationRelationshipsToAPI ::
  "spiffeid_lib \<Rightarrow> x509_lib \<Rightarrow> url_lib \<Rightarrow> FederationRelationship list
     \<Rightarrow> api_FederationRelationship list result" where
  "federationRelationshipsToAPI L X U ins = mapE (federationRelationshipToAPI L X U) ins"

definition federationRelationshipFromAPI ::
  "spiffeid_lib \<Rightarrow> x509_lib \<Rightarrow> url_lib \<Rightarrow> api_FederationRelationship \<Rightarrow> FederationRelationship result" where
  "federationRelationshipFromAPI L X U i =
     bindE (wrapE ''invalid trust domain'' (TrustDomainFromString L (api_fr_TrustDomain i))) (\<lambda>trustDomain.
     bindE (wrapE ''invalid bundle endpoint URL'' (ValidateBundleEndpointURL U (api_BundleEndpointUrl i)))
       (\<lambda>_.
     bindE (case api_TrustDomainBundle i of
              None \<Rightarrow> Inr None
            | Some b \<Rightarrow> wrapE ''invalid trust domain bundle'' (bundleFromAPI L X (Some b)))
       (\<lambda>trustDomainBundle.
     bindE (case api_BundleEndpointProfile i of
              Some (API_HttpsWeb m) \<Rightarrow>
                (case m of None \<Rightarrow> Inl (Err ''https_web profile is missing data'')
                 | Some _ \<Rightarrow> Inr HTTPSWebProfile)
            | Some (API_HttpsSpiffe m) \<Rightarrow>
                (case m of None \<Rightarrow> Inl (Err ''https_spiffe profile is missing data'')
                 | Some s \<Rightarrow> bindE (wrapE ''invalid endpoint SPIFFE ID'' (FromString L s))
                     (\<lambda>endpointSPIFFEID. Inr (HTTPSSPIFFEProfile endpointSPIFFEID)))
            | None \<Rightarrow> Inl (Err ''bundle endpoint profile is missing'')
            | Some API_OtherProfile \<Rightarrow> Inl (Err ''unrecognized bundle endpoint profile type''))
       (\<lambda>profile.
     Inr \<lparr>fr_TrustDomain = trustDomain,
          fr_BundleEndpointURL = api_BundleEndpointUrl i,
          fr_BundleEndpointProfile = Some profile,
          fr_TrustDomainBundle = trustDomainBundle\<rparr>))))"

definition federationRelationshipsFromAPI ::
  "spiffeid_lib \<Rightarrow> x509_lib \<Rightarrow> url_lib \<Rightarrow> api_FederationRelationship list
     \<Rightarrow> FederationRelationship list result" where
  "federationRelationshipsFromAPI L X U ins = mapE (federationRelationshipFromAPI L X U) ins"

section \<open>What the conversions preserve\<close>

subsection \<open>Validity of the values that travel\<close>

definition valid_selector :: "Selector \<Rightarrow> bool" where
  "valid_selector s \<longleftrightarrow> s_Type s \<noteq> '''' \<and> s_Value s \<noteq> '''' \<and> \<not> ContainsChar (s_Type s) CHR '':''"

text \<open>A TTL as the server keeps it: whole seconds, read as a 32-bit number.\<close>

definition ttl_wire :: "Duration \<Rightarrow> Duration" where
  "ttl_wire d = wrap32 (go_quot d Second) * Second"

definition ttl_ok :: "Duration \<Rightarrow> bool" where
  "ttl_ok d \<longleftrightarrow> d mod Second = 0 \<and> int32 (d div Second)"

definition valid_entry :: "spiffeid_lib \<Rightarrow> Entry \<Rightarrow> bool" where
  "valid_entry L e \<longleftrightarrow> valid_ID L (e_SPIFFEID e) \<and> valid_ID L (e_ParentID e) \<and>
     list_all valid_selector (e_Selectors e) \<and> list_all (valid_TD L) (e_FederatesWith e)"

definition wire_entry :: "spiffeid_lib \<Rightarrow> Entry \<Rightarrow> bool" where
  "wire_entry L e \<longleftrightarrow> valid_entry L e \<and> ttl_ok (e_X509SVIDTTL e) \<and> ttl_ok (e_JWTSVIDTTL e)"

lemma wrap64_seconds: "int32 s \<Longrightarrow> wrap64 (s * Second) = s * Second"
  by (rule wrap64_id) (simp add: int32_def int64_def Second_def)

lemma ttl_wire_ok: "ttl_ok d \<Longrightarrow> ttl_wire d = d"
proof -
  assume "ttl_ok d"
  then have "d = d div Second * Second" "int32 (d div Second)"
    by (auto simp: ttl_ok_def mult.commute)
  then show "ttl_wire d = d"
    unfolding ttl_wire_def by (metis go_quot_mult Second_def wrap32_id zero_neq_numeral)
qed

lemma ttl_ok_wire [simp]: "ttl_ok (ttl_wire d)"
  by (simp add: ttl_ok_def ttl_wire_def Second_def)

lemma ttl_wire_idem [simp]: "ttl_wire (ttl_wire d) = ttl_wire d"
  by (simp add: ttl_wire_ok)

lemma ttl_wire_eq_iff: "ttl_wire d = d \<longleftrightarrow> ttl_ok d"
  by (metis ttl_ok_wire ttl_wire_ok)

interpretation selector_codec: codec selectorToAPI selectorFromAPI valid_selector
  by unfold_locales (simp add: selectorToAPI_def selectorFromAPI_def valid_selector_def)

interpretation td_codec: codec td_Name
    "\<lambda>s. wrapE ''invalid trust domain'' (TrustDomainFromString L s)" "valid_TD L"
  for L :: spiffeid_lib
  by unfold_locales (simp add: valid_TD_def)

interpretation id_codec: codec "\<lambda>i. Some (spiffeIDToAPI i)" "spiffeIDFromAPI L" "valid_ID L"
  for L :: spiffeid_lib
  by unfold_locales (simp add: spiffeIDToAPI_def spiffeIDFromAPI_def valid_ID_def valid_TD_def)

subsection \<open>Entries\<close>

lemma entryFromAPI_entryToAPI:
  assumes "valid_entry L e"
  shows "entryFromAPI L (Some (entryToAPI e)) =
    Inr (e\<lparr>e_X509SVIDTTL := ttl_wire (e_X509SVIDTTL e), e_JWTSVIDTTL := ttl_wire (e_JWTSVIDTTL e)\<rparr>)"
proof -
  have "selectorsFromAPI (selectorsToAPI (e_Selectors e)) = Inr (e_Selectors e)"
    using assms by (simp add: valid_entry_def selectorsFromAPI_def selectorsToAPI_def
        selector_codec.list_from_to)
  moreover have "trustDomainsFromAPI L (trustDomainsToAPI (e_FederatesWith e)) = Inr (e_FederatesWith e)"
    using assms by (simp add: valid_entry_def trustDomainsFromAPI_def trustDomainsToAPI_def
        td_codec.list_from_to)
  moreover have "spiffeIDFromAPI L (Some (spiffeIDToAPI i)) = Inr i"
    if "i = e_SPIFFEID e \<or> i = e_ParentID e" for i
    using that assms by (auto simp: valid_entry_def id_codec.from_to)
  ultimately show ?thesis
    by (simp add: entryFromAPI_def entryToAPI_def ttl_wire_def wrap64_seconds)
qed

interpretation entry_codec: codec "\<lambda>e. Some (entryToAPI e)" "entryFromAPI L" "wire_entry L"
  for L :: spiffeid_lib
  by unfold_locales (simp add: wire_entry_def entryFromAPI_entryToAPI ttl_wire_ok)

text \<open>Every error of a received entry names the first field that is bad, in the order SPIFFE ID,
  parent ID, selectors, trust domains.\<close>

lemma entryFromAPI_Inr_fields:
  assumes "entryFromAPI L inp = Inr e"
  obtains i where "inp = Some i" "e_ID e = api_Id i" "e_Hint e = api_Hint i"
    "spiffeIDFromAPI L (api_SpiffeId i) = Inr (e_SPIFFEID e)"
    "spiffeIDFromAPI L (api_ParentId i) = Inr (e_ParentID e)"
    "list_all valid_selector (e_Selectors e)"
proof -
  obtain i where i: "inp = Some i" using assms by (cases inp) (auto simp: entryFromAPI_def)
  have sel: "list_all valid_selector ss" if "list_all2 (\<lambda>x y. selectorFromAPI x = Inr y) as ss" for as ss
    using that
    by (induction rule: list_all2_induct)
      (auto simp: selectorFromAPI_def valid_selector_def split: if_splits)
  from assms i show thesis
    by (intro that [OF i]) (auto simp: entryFromAPI_def result_simps selectorsFromAPI_def intro: sel)
qed

subsection \<open>Bundles and federation relationships\<close>

definition valid_certificate :: "x509_lib \<Rightarrow> Certificate \<Rightarrow> bool" where
  "valid_certificate X c \<longleftrightarrow> cert_Raw c \<noteq> '''' \<and> ParseCertificate X (cert_Raw c) = Inr c"

definition valid_jwt_key :: "x509_lib \<Rightarrow> string \<times> PublicKey \<Rightarrow> bool" where
  "valid_jwt_key X kv \<longleftrightarrow> fst kv \<noteq> '''' \<and>
     bindE (MarshalPKIXPublicKey X (snd kv)) (ParsePKIXPublicKey X) = Inr (snd kv)"

definition valid_bundle :: "spiffeid_lib \<Rightarrow> x509_lib \<Rightarrow> Bundle \<Rightarrow> bool" where
  "valid_bundle L X b \<longleftrightarrow> valid_TD L (b_TrustDomain b) \<and>
     list_all (valid_certificate X) (b_X509Authorities b) \<and>
     list_all (valid_jwt_key X) (b_JWTAuthorities b) \<and> distinct (map fst (b_JWTAuthorities b)) \<and>
     b_SequenceNumber b \<noteq> Some 0 \<and>
     (case b_RefreshHint b of None \<Rightarrow> True | Some d \<Rightarrow> d \<noteq> 0 \<and> d mod Second = 0 \<and> int64 d)"

definition valid_fr :: "spiffeid_lib \<Rightarrow> x509_lib \<Rightarrow> url_lib \<Rightarrow> FederationRelationship \<Rightarrow> bool" where
  "valid_fr L X U fr \<longleftrightarrow> valid_TD L (fr_TrustDomain fr) \<and>
     ValidateBundleEndpointURL U (fr_BundleEndpointURL fr) = Inr () \<and>
     (case fr_BundleEndpointProfile fr of
        Some HTTPSWebProfile \<Rightarrow> True
      | Some (HTTPSSPIFFEProfile i) \<Rightarrow> valid_ID L i
      | _ \<Rightarrow> False) \<and>
     (case fr_TrustDomainBundle fr of None \<Rightarrow> True | Some b \<Rightarrow> valid_bundle L X b)"

interpretation cert_codec: partial_codec x509AuthorityToAPI "x509AuthorityFromAPI X" "valid_certificate X"
  for X :: x509_lib
  by unfold_locales (simp add: x509AuthorityToAPI_def x509AuthorityFromAPI_def valid_certificate_def)

interpretation jwt_codec: partial_codec "jwtAuthorityToAPI X" "jwtAuthorityFromAPI X" "valid_jwt_key X"
  for X :: x509_lib
proof unfold_locales
  fix kv
  assume "valid_jwt_key X kv"
  then obtain b where "MarshalPKIXPublicKey X (snd kv) = Inr b" "ParsePKIXPublicKey X b = Inr (snd kv)"
    "fst kv \<noteq> ''''"
    by (auto simp: valid_jwt_key_def bindE_eq_Inr)
  then show "bindE (jwtAuthorityToAPI X kv) (jwtAuthorityFromAPI X) = Inr kv"
    by (simp add: jwtAuthorityToAPI_def jwtAuthorityFromAPI_def)
qed

lemma bundle_refresh_wire: "d mod Second = 0 \<Longrightarrow> int64 d \<Longrightarrow> wrap64 (go_quot d Second * Second) = d"
  by (metis Second_def go_quot_mult mod_div_trivial mod_eq_0_iff_dvd dvd_div_mult_self wrap64_id
      zero_neq_numeral)

lemma bundle_refresh_nonzero: "d mod Second = 0 \<Longrightarrow> int64 d \<Longrightarrow> d \<noteq> 0 \<Longrightarrow> go_quot d Second \<noteq> 0"
  using bundle_refresh_wire [of d] by (auto simp: wrap64_def)

lemma bundle_roundtrip:
  assumes "valid_bundle L X b"
  shows "bindE (bundleToAPI X b) (\<lambda>ab. bundleFromAPI L X (Some ab)) = Inr (Some b)"
proof -
  obtain xs where xs: "x509AuthoritiesToAPI (b_X509Authorities b) = Inr xs"
    "x509AuthoritiesFromAPI X xs = Inr (b_X509Authorities b)"
    using assms cert_codec.list_enc [of X "b_X509Authorities b"]
    by (auto simp: valid_bundle_def x509AuthoritiesToAPI_def x509AuthoritiesFromAPI_def)
  obtain ks where ks: "jwtAuthoritiesToAPI X (b_JWTAuthorities b) = Inr ks"
    "mapE (jwtAuthorityFromAPI X) ks = Inr (b_JWTAuthorities b)"
    using assms jwt_codec.list_enc [of X "b_JWTAuthorities b"]
    by (auto simp: valid_bundle_def jwtAuthoritiesToAPI_def)
  have "foldl (\<lambda>m (k, v). map_put k v m) [] (b_JWTAuthorities b) = b_JWTAuthorities b"
    using assms foldl_map_put_distinct [of "b_JWTAuthorities b" "[]"] by (simp add: valid_bundle_def)
  then have jwt: "jwtAuthoritiesFromAPI X ks = Inr (b_JWTAuthorities b)"
    using ks by (simp add: jwtAuthoritiesFromAPI_def)
  have td: "TrustDomainFromString L (td_Name (b_TrustDomain b)) = Inr (b_TrustDomain b)"
    "td_Name (b_TrustDomain b) \<noteq> ''''"
    using assms by (simp_all add: valid_bundle_def valid_TD_def)
  let ?r = "go_quot (case b_RefreshHint b of None \<Rightarrow> 0 | Some d \<Rightarrow> d) Second"
  have hint: "(if ?r \<noteq> 0 then Some (wrap64 (?r * Second)) else None) = b_RefreshHint b"
    using assms
    by (cases "b_RefreshHint b")
      (simp_all add: valid_bundle_def bundle_refresh_wire bundle_refresh_nonzero)
  let ?n = "case b_SequenceNumber b of None \<Rightarrow> 0 | Some n \<Rightarrow> n"
  have seq: "(if ?n \<noteq> 0 then Some ?n else None) = b_SequenceNumber b"
    using assms by (cases "b_SequenceNumber b") (simp_all add: valid_bundle_def)
  show ?thesis
    using td hint seq by (cases "?r = 0"; cases "?n = 0")
      (simp_all add: bundleToAPI_def bundleFromAPI_def xs ks(1) jwt)
qed

lemma fr_bundle_roundtrip:
  assumes "valid_bundle L X b"
  shows "\<exists>ab. bundleToAPI X b = Inr ab \<and> bundleFromAPI L X (Some ab) = Inr (Some b)"
  using bundle_roundtrip [OF assms] by (simp add: bindE_eq_Inr)

interpretation fr_codec: partial_codec "federationRelationshipToAPI L X U"
    "federationRelationshipFromAPI L X U" "valid_fr L X U"
  for L :: spiffeid_lib and X :: x509_lib and U :: url_lib
proof unfold_locales
  fix fr
  assume v: "valid_fr L X U fr"
  have td: "TrustDomainFromString L (td_Name (fr_TrustDomain fr)) = Inr (fr_TrustDomain fr)"
    "\<not> td_IsZero (fr_TrustDomain fr)"
    using v by (auto simp: valid_fr_def valid_TD_def td_IsZero_def)
  obtain p where p: "fr_BundleEndpointProfile fr = Some p" "p = HTTPSWebProfile \<or>
      (\<exists>i. p = HTTPSSPIFFEProfile i \<and> FromString L (ID_String L i) = Inr i)"
    using v by (auto simp: valid_fr_def valid_ID_def split: option.splits BundleEndpointProfile.splits)
  show "bindE (federationRelationshipToAPI L X U fr) (federationRelationshipFromAPI L X U) = Inr fr"
  proof (cases "fr_TrustDomainBundle fr")
    case None
    with v td p show ?thesis
      by (auto simp: federationRelationshipToAPI_def federationRelationshipFromAPI_def valid_fr_def)
  next
    case (Some b)
    then obtain ab where "bundleToAPI X b = Inr ab" "bundleFromAPI L X (Some ab) = Inr (Some b)"
      using v fr_bundle_roundtrip [of L X b] by (auto simp: valid_fr_def)
    with Some v td p show ?thesis
      by (auto simp: federationRelationshipToAPI_def federationRelationshipFromAPI_def valid_fr_def)
  qed
qed

text \<open>A relationship received from the server has a profile of one of the struct types, so it can
  be compared.\<close>

lemma federationRelationshipFromAPI_profile:
  "federationRelationshipFromAPI L X U i = Inr fr \<Longrightarrow> fr_BundleEndpointProfile fr \<noteq> None"
  by (auto simp: federationRelationshipFromAPI_def result_simps)

lemma profile_Equal_refl [simp]: "profile_Equal p (Some p)"
  by (cases p) auto

lemma profile_Equal_sym: "profile_Equal p (Some q) = profile_Equal q (Some p)"
  by (cases p; cases q) auto

lemma fr_Equal_no_panic: "fr_BundleEndpointProfile fr \<noteq> None \<Longrightarrow> \<exists>b. fr_Equal fr other = Some b"
  by (auto simp: fr_Equal_def)

lemma fr_Equal_refl: "fr_BundleEndpointProfile fr \<noteq> None \<Longrightarrow> fr_Equal fr fr = Some True"
  by (auto simp: fr_Equal_def simp del: profile_Equal.simps)

section \<open>Properties\<close>

text \<open>A concrete go-spiffe for the witnesses: an ID is printed as \<open>spiffe://\<close>, the trust domain
  name and the path, and every non-empty name is a trust domain.\<close>

definition ref_spiffeid :: spiffeid_lib where
  "ref_spiffeid =
     \<lparr>FromString = (\<lambda>s. if HasPrefix s ''spiffe://''
        then (let r = TrimPrefix s ''spiffe://''; n = takeWhile (\<lambda>c. c \<noteq> CHR ''/'') r in
              if n = '''' then Inl (Err ''trust domain is missing'')
              else Inr (ID (TrustDomain n) (dropWhile (\<lambda>c. c \<noteq> CHR ''/'') r)))
        else Inl (Err ''scheme is missing or invalid'')),
      FromPath = (\<lambda>td path. Inr (ID td path)),
      TrustDomainFromString = (\<lambda>s. if s = '''' then Inl (Err ''trust domain is missing'') else Inr (TrustDomain s)),
      ID_String = (\<lambda>i. ''spiffe://'' @ td_Name (id_TrustDomain i) @ id_Path i),
      td_Compare = (\<lambda>a b. if td_Name a < td_Name b then -1 else if td_Name b < td_Name a then 1 else 0)\<rparr>"

definition sample_entry :: Entry where
  "sample_entry =
     \<lparr>e_ID = ''id1'', e_SPIFFEID = ID (TrustDomain ''td'') ''/w'', e_ParentID = ID (TrustDomain ''td'') ''/n'',
      e_Selectors = [\<lparr>s_Type = ''k8s'', s_Value = ''pod-uid:1''\<rparr>], e_X509SVIDTTL = 1500000000, e_JWTSVIDTTL = 0,
      e_FederatesWith = [TrustDomain ''other''], e_Admin = False, e_Downstream = False,
      e_DNSNames = [''a''], e_Hint = ''h'', e_StoreSVID = False\<rparr>"

lemmas spiffeid_sample_simps =
  ref_spiffeid_def HasPrefix_def TrimPrefix_def valid_TD_def valid_ID_def

lemma sample_entry_valid: "valid_entry ref_spiffeid sample_entry"
  by (simp add: valid_entry_def sample_entry_def spiffeid_sample_simps valid_selector_def ContainsChar_def)

text \<open>C16: a slice of valid entries sent to the server and read back is the same slice, except that
  the TTLs are the whole seconds of a signed 32-bit number.\<close>

theorem entries_roundtrip:
  assumes "list_all (valid_entry L) es"
  shows "entriesFromAPI L (map Some (entriesToAPI es)) =
    Inr (map (\<lambda>e. e\<lparr>e_X509SVIDTTL := ttl_wire (e_X509SVIDTTL e), e_JWTSVIDTTL := ttl_wire (e_JWTSVIDTTL e)\<rparr>) es)"
  using assms
  by (induction es) (simp_all add: entriesFromAPI_def entriesToAPI_def entryFromAPI_entryToAPI)

theorem entries_roundtrip_witness:
  "entriesFromAPI ref_spiffeid (map Some (entriesToAPI [sample_entry])) =
     Inr [sample_entry\<lparr>e_X509SVIDTTL := 1000000000\<rparr>]"
  using entries_roundtrip [of ref_spiffeid "[sample_entry]"] sample_entry_valid
  by (simp add: ttl_wire_def sample_entry_def go_quot_def wrap32_def Second_def)

definition ref_x509 :: x509_lib where
  "ref_x509 = \<lparr>ParseCertificate = (\<lambda>s. Inr \<lparr>cert_Raw = s, cert_NotAfter = 0\<rparr>),
     MarshalPKIXPublicKey = Inr, ParsePKIXPublicKey = Inr\<rparr>"

definition ref_url :: url_lib where
  "ref_url s = Inr \<lparr>u_Scheme = ''https'', u_Host = s, u_User = None\<rparr>"

definition sample_fr :: FederationRelationship where
  "sample_fr = \<lparr>fr_TrustDomain = TrustDomain ''td2'', fr_BundleEndpointURL = ''https://td2/bundle'',
     fr_BundleEndpointProfile = Some (HTTPSSPIFFEProfile (ID (TrustDomain ''td2'') ''/endpoint'')),
     fr_TrustDomainBundle = Some \<lparr>b_TrustDomain = TrustDomain ''td2'',
       b_X509Authorities = [\<lparr>cert_Raw = ''raw'', cert_NotAfter = 0\<rparr>], b_JWTAuthorities = [(''k'', ''pub'')],
       b_SequenceNumber = Some 3, b_RefreshHint = Some 300000000000\<rparr>\<rparr>"

lemma sample_fr_valid: "valid_fr ref_spiffeid ref_x509 ref_url sample_fr"
  by (simp add: valid_fr_def sample_fr_def spiffeid_sample_simps ref_url_def ref_x509_def valid_bundle_def
      valid_certificate_def valid_jwt_key_def ValidateBundleEndpointURL_def Second_def int64_def)

text \<open>C17: a federation relationship with a valid trust domain, endpoint URL, struct profile and bundle
  converts to an API message, and reading that message back gives the same relationship.\<close>

theorem federationRelationships_roundtrip:
  assumes "list_all (valid_fr L X U) frs"
  shows "bindE (federationRelationshipsToAPI L X U frs) (federationRelationshipsFromAPI L X U) = Inr frs"
  unfolding federationRelationshipsToAPI_def federationRelationshipsFromAPI_def
  by (rule fr_codec.list_dec_enc [OF assms])

theorem federationRelationships_roundtrip_witness:
  "bindE (federationRelationshipsToAPI ref_spiffeid ref_x509 ref_url [sample_fr])
     (federationRelationshipsFromAPI ref_spiffeid ref_x509 ref_url) = Inr [sample_fr]"
  using federationRelationships_roundtrip [of ref_spiffeid ref_x509 ref_url "[sample_fr]"] sample_fr_valid
  by simp

end
