(* ===== verification/Crd_Api.thy ===== *)
theory Crd_Api
  imports Spire_Types
begin

section \<open>Custom resources and the Kubernetes objects they select (api/v1alpha1, pkg/k8sapi)\<close>

text \<open>
  The custom resource types of api/v1alpha1, the parsing and validation of their specs, the static
  manifest loaders and the list helpers of pkg/k8sapi. The Kubernetes objects have the fields the
  sources read; everything else a template may read of them is one opaque component. A parsed
  text template is what \<open>Execute\<close> makes of the template data; parsing templates and label
  selectors, reading bundles, and the file and environment access of the loaders are parameters.
\<close>

subsection \<open>Kubernetes objects\<close>

record ObjectMeta =
  om_Name :: string
  om_Namespace :: string
  om_UID :: string
  om_ResourceVersion :: string
  om_CreationTimestamp :: Time
  om_DeletionTimestamp :: "Time option"
  om_Rest :: string

record Node =
  node_Meta :: ObjectMeta
  node_Spec :: string

record PodSpec =
  ps_NodeName :: string
  ps_Rest :: string

record Pod =
  pod_Meta :: ObjectMeta
  pod_Spec :: PodSpec

record Namespace =
  ns_Meta :: ObjectMeta

record ObjectReference =
  or_Kind :: string
  or_UID :: string

record EndpointAddress =
  ea_TargetRef :: "ObjectReference option"

record EndpointSubset =
  eb_Addresses :: "EndpointAddress list"
  eb_NotReadyAddresses :: "EndpointAddress list"

record Endpoints =
  ep_Meta :: ObjectMeta
  ep_Subsets :: "EndpointSubset list"

text \<open>Label selectors, before and after conversion, are opaque tokens.\<close>

type_synonym LabelSelector = string
type_synonym LabelsSelector = string

subsection \<open>ClusterSPIFFEID\<close>

record ClusterSPIFFEIDSpec =
  cs_SPIFFEIDTemplate :: string
  cs_TTL :: Duration
  cs_JWTTTL :: Duration
  cs_DNSNameTemplates :: "string list"
  cs_WorkloadSelectorTemplates :: "string list"
  cs_FederatesWith :: "string list"
  cs_NamespaceSelector :: "LabelSelector option"
  cs_PodSelector :: "LabelSelector option"
  cs_Admin :: bool
  cs_Downstream :: bool
  cs_AutoPopulateDNSNames :: bool
  cs_ClassName :: string
  cs_Fallback :: bool
  cs_Hint :: string

record ClusterSPIFFEIDStats =
  st_NamespacesSelected :: nat
  st_NamespacesIgnored :: nat
  st_PodsSelected :: nat
  st_PodEntryRenderFailures :: nat
  st_EntriesMasked :: nat
  st_EntriesToSet :: nat
  st_EntryFailures :: nat

text \<open>\<open>ClusterSPIFFEIDStatus\<close> holds the statistics only.\<close>

type_synonym ClusterSPIFFEIDStatus = ClusterSPIFFEIDStats

record crd_ClusterSPIFFEID =
  csid_Meta :: ObjectMeta
  csid_Spec :: ClusterSPIFFEIDSpec
  csid_Status :: ClusterSPIFFEIDStatus

subsection \<open>ClusterStaticEntry\<close>

record ClusterStaticEntrySpec =
  se_SPIFFEID :: string
  se_ParentID :: string
  se_Selectors :: "string list"
  se_FederatesWith :: "string list"
  se_X509SVIDTTL :: Duration
  se_JWTSVIDTTL :: Duration
  se_DNSNames :: "string list"
  se_Hint :: string
  se_Admin :: bool
  se_Downstream :: bool
  se_StoreSVID :: bool
  se_ClassName :: string

record ClusterStaticEntryStatus =
  ses_Rendered :: bool
  ses_Masked :: bool
  ses_Set :: bool

record crd_ClusterStaticEntry =
  cse_Meta :: ObjectMeta
  cse_Spec :: ClusterStaticEntrySpec
  cse_Status :: ClusterStaticEntryStatus

subsection \<open>ClusterFederatedTrustDomain\<close>

record ClusterFederatedTrustDomainSpec =
  cf_TrustDomain :: string
  cf_BundleEndpointURL :: string
  cf_ProfileType :: string
  cf_EndpointSPIFFEID :: string
  cf_TrustDomainBundle :: string
  cf_ClassName :: string

record crd_ClusterFederatedTrustDomain =
  cftd_Meta :: ObjectMeta
  cftd_Spec :: ClusterFederatedTrustDomainSpec

definition HTTPSSPIFFEProfileType :: string where "HTTPSSPIFFEProfileType = ''https_spiffe''"
definition HTTPSWebProfileType :: string where "HTTPSWebProfileType = ''https_web''"

subsection \<open>Parsing the specs\<close>

record templateData =
  td_TrustDomain :: string
  td_ClusterName :: string
  td_ClusterDomain :: string
  td_PodMeta :: "ObjectMeta option"
  td_PodSpec :: "PodSpec option"
  td_NodeMeta :: ObjectMeta
  td_NodeSpec :: string

type_synonym Template = "templateData \<Rightarrow> string result"

record crd_libs =
  cl_spiffeid :: spiffeid_lib
  cl_url :: url_lib
  cl_template_Parse :: "string \<Rightarrow> Template result"
  cl_LabelSelectorAsSelector :: "LabelSelector \<Rightarrow> LabelsSelector result"
  cl_spiffebundle_Read :: "TrustDomain \<Rightarrow> string \<Rightarrow> Bundle result"

record ParsedClusterSPIFFEIDSpec =
  ps_SPIFFEIDTemplate :: Template
  ps_NamespaceSelector :: "LabelsSelector option"
  ps_PodSelector :: "LabelsSelector option"
  ps_TTL :: Duration
  ps_JWTTTL :: Duration
  ps_FederatesWith :: "TrustDomain list"
  ps_DNSNameTemplates :: "Template list"
  ps_WorkloadSelectorTemplates :: "Template list"
  ps_Admin :: bool
  ps_Downstream :: bool
  ps_AutoPopulateDNSNames :: bool
  ps_Hint :: string

fun parseSelectorField :: "crd_libs \<Rightarrow> LabelSelector option \<Rightarrow> LabelsSelector option result" where
  "parseSelectorField C None = Inr None"
| "parseSelectorField C (Some s) = bindE (cl_LabelSelectorAsSelector C s) (\<lambda>sel. Inr (Some sel))"

definition ParseClusterSPIFFEIDSpec :: "crd_libs \<Rightarrow> ClusterSPIFFEIDSpec \<Rightarrow> ParsedClusterSPIFFEIDSpec result" where
  "ParseClusterSPIFFEIDSpec C spec =
     (if cs_SPIFFEIDTemplate spec = '''' then Inl (Err ''empty SPIFFEID template'')
      else
        bindE (wrapE ''invalid SPIFFEID template'' (cl_template_Parse C (cs_SPIFFEIDTemplate spec))) (\<lambda>spiffeIDTemplate.
        bindE (parseSelectorField C (cs_NamespaceSelector spec)) (\<lambda>namespaceSelector.
        bindE (parseSelectorField C (cs_PodSelector spec)) (\<lambda>podSelector.
        bindE (mapE (\<lambda>v. wrapE ''invalid federatesWith value'' (TrustDomainFromString (cl_spiffeid C) v))
                 (cs_FederatesWith spec)) (\<lambda>federatesWith.
        bindE (mapE (\<lambda>v. wrapE ''invalid dnsNameTemplate value'' (cl_template_Parse C v))
                 (cs_DNSNameTemplates spec)) (\<lambda>dnsNameTemplates.
        bindE (mapE (\<lambda>v. wrapE ''invalid workloadSelectorTemplates value'' (cl_template_Parse C v))
                 (cs_WorkloadSelectorTemplates spec)) (\<lambda>workloadSelectorTemplates.
        Inr \<lparr>ps_SPIFFEIDTemplate = spiffeIDTemplate,
             ps_NamespaceSelector = namespaceSelector,
             ps_PodSelector = podSelector,
             ps_TTL = cs_TTL spec,
             ps_JWTTTL = cs_JWTTTL spec,
             ps_FederatesWith = federatesWith,
             ps_DNSNameTemplates = dnsNameTemplates,
             ps_WorkloadSelectorTemplates = workloadSelectorTemplates,
             ps_Admin = cs_Admin spec,
             ps_Downstream = cs_Downstream spec,
             ps_AutoPopulateDNSNames = cs_AutoPopulateDNSNames spec,
             ps_Hint = cs_Hint spec\<rparr>)))))))"

definition ParseClusterFederatedTrustDomainSpec ::
  "crd_libs \<Rightarrow> ClusterFederatedTrustDomainSpec \<Rightarrow> FederationRelationship result" where
  "ParseClusterFederatedTrustDomainSpec C spec =
     bindE (wrapE ''invalid trustDomain value'' (TrustDomainFromString (cl_spiffeid C) (cf_TrustDomain spec)))
       (\<lambda>trustDomain.
     bindE (wrapE ''invalid bundleEndpointURL value''
              (ValidateBundleEndpointURL (cl_url C) (cf_BundleEndpointURL spec))) (\<lambda>_.
     bindE (if cf_ProfileType spec = HTTPSWebProfileType then
              (if cf_EndpointSPIFFEID spec \<noteq> ''''
               then Inl (Err ''invalid bundle endpoint profile endpointSPIFFEID value: not applicable'')
               else Inr HTTPSWebProfile)
            else if cf_ProfileType spec = HTTPSSPIFFEProfileType then
              bindE (wrapE ''invalid bundle endpoint profile endpointSPIFFEID value''
                       (FromString (cl_spiffeid C) (cf_EndpointSPIFFEID spec)))
                (\<lambda>i. Inr (HTTPSSPIFFEProfile i))
            else Inl (Err ''invalid bundle endpoint profile type value'')) (\<lambda>profile.
     bindE (if cf_TrustDomainBundle spec \<noteq> '''' then
              bindE (wrapE ''invalid trustDomainBundle value''
                       (cl_spiffebundle_Read C trustDomain (cf_TrustDomainBundle spec)))
                (\<lambda>b. Inr (Some b))
            else Inr None) (\<lambda>trustDomainBundle.
     Inr \<lparr>fr_TrustDomain = trustDomain,
          fr_BundleEndpointURL = cf_BundleEndpointURL spec,
          fr_BundleEndpointProfile = Some profile,
          fr_TrustDomainBundle = trustDomainBundle\<rparr>))))"

subsection \<open>Admission validation\<close>

text \<open>The validators answer with the error, if any; deletes are not validated.\<close>

definition validate_ClusterSPIFFEID :: "crd_libs \<Rightarrow> crd_ClusterSPIFFEID \<Rightarrow> err option" where
  "validate_ClusterSPIFFEID C o' =
     (case ParseClusterSPIFFEIDSpec C (csid_Spec o') of Inl e \<Rightarrow> Some e | Inr _ \<Rightarrow> None)"

definition validate_ClusterFederatedTrustDomain :: "crd_libs \<Rightarrow> crd_ClusterFederatedTrustDomain \<Rightarrow> err option" where
  "validate_ClusterFederatedTrustDomain C o' =
     (case ParseClusterFederatedTrustDomainSpec C (cftd_Spec o') of Inl e \<Rightarrow> Some e | Inr _ \<Rightarrow> None)"

datatype 'a admission = ValidateCreate 'a | ValidateUpdate 'a 'a | ValidateDelete 'a

fun admit :: "('a \<Rightarrow> err option) \<Rightarrow> 'a admission \<Rightarrow> err option" where
  "admit validate (ValidateCreate obj) = validate obj"
| "admit validate (ValidateUpdate oobj nobj) = validate nobj"
| "admit validate (ValidateDelete obj) = None"

subsection \<open>Static manifests\<close>

record 'a decoded =
  d_APIVersion :: string
  d_Kind :: string
  d_Object :: 'a

record 'a loader =
  ld_ReadDir :: "string \<Rightarrow> string list result"
  ld_Join :: "string \<Rightarrow> string \<Rightarrow> string"
  ld_ReadFile :: "string \<Rightarrow> string result"
  ld_ExpandEnv :: "string \<Rightarrow> string"
  ld_Decode :: "string \<Rightarrow> 'a decoded result"

definition LoadFile :: "'a loader \<Rightarrow> string \<Rightarrow> bool \<Rightarrow> 'a decoded result" where
  "LoadFile D path expandEnv =
     bindE (wrapE (''could not read file at '' @ path) (ld_ReadFile D path)) (\<lambda>content.
     wrapE (''could not decode file ('' @ path @ '') into runtime.Object'')
       (ld_Decode D (if expandEnv then ld_ExpandEnv D content else content)))"

fun loadManifests :: "'a loader \<Rightarrow> string \<Rightarrow> string \<Rightarrow> bool \<Rightarrow> string list \<Rightarrow> 'a list result" where
  "loadManifests D kind manifestPath expandEnv [] = Inr []"
| "loadManifests D kind manifestPath expandEnv (file # files) =
     (if \<not> HasSuffix file ''.yaml'' then loadManifests D kind manifestPath expandEnv files
      else bindE (LoadFile D (ld_Join D manifestPath file) expandEnv) (\<lambda>entry.
        if d_APIVersion entry \<noteq> ''spire.spiffe.io/v1alpha1'' \<or> d_Kind entry \<noteq> kind
        then loadManifests D kind manifestPath expandEnv files
        else bindE (loadManifests D kind manifestPath expandEnv files) (\<lambda>res. Inr (d_Object entry # res))))"

definition ListManifests :: "'a loader \<Rightarrow> string \<Rightarrow> string \<Rightarrow> bool \<Rightarrow> 'a list result" where
  "ListManifests D kind manifestPath expandEnv =
     bindE (ld_ReadDir D manifestPath) (loadManifests D kind manifestPath expandEnv)"

definition static_ListClusterStaticEntries ::
  "crd_ClusterStaticEntry loader \<Rightarrow> string \<Rightarrow> bool \<Rightarrow> crd_ClusterStaticEntry list result" where
  "static_ListClusterStaticEntries D = ListManifests D ''ClusterStaticEntry''"

definition static_ListClusterFederatedTrustDomains ::
  "crd_ClusterFederatedTrustDomain loader \<Rightarrow> string \<Rightarrow> bool \<Rightarrow> crd_ClusterFederatedTrustDomain list result" where
  "static_ListClusterFederatedTrustDomains D = ListManifests D ''ClusterFederatedTrustDomain''"

subsection \<open>The Kubernetes client and its list helpers\<close>

datatype ListOption =
    InNamespace string
  | MatchingLabelsSelector LabelsSelector
  | MatchingFields string string
  | UnsafeDisableDeepCopy

text \<open>The reads are served by the informer cache of the client in the current world; a status update
  is an API call.\<close>

record 'w K8sClient =
  k8s_ListClusterStaticEntry :: "'w \<Rightarrow> crd_ClusterStaticEntry list result"
  k8s_ListClusterSPIFFEID :: "'w \<Rightarrow> crd_ClusterSPIFFEID list result"
  k8s_ListClusterFederatedTrustDomain :: "'w \<Rightarrow> crd_ClusterFederatedTrustDomain list result"
  k8s_ListNamespace :: "'w \<Rightarrow> ListOption list \<Rightarrow> Namespace list result"
  k8s_ListNode :: "'w \<Rightarrow> ListOption list \<Rightarrow> Node list result"
  k8s_ListPod :: "'w \<Rightarrow> ListOption list \<Rightarrow> Pod list result"
  k8s_ListEndpoints :: "'w \<Rightarrow> ListOption list \<Rightarrow> Endpoints list result"
  k8s_UpdateStaticEntryStatus :: "'w \<Rightarrow> crd_ClusterStaticEntry \<Rightarrow> 'w \<times> err option"
  k8s_UpdateSPIFFEIDStatus :: "'w \<Rightarrow> crd_ClusterSPIFFEID \<Rightarrow> 'w \<times> err option"

definition ListClusterStaticEntries :: "'w K8sClient \<Rightarrow> 'w \<Rightarrow> crd_ClusterStaticEntry list result" where
  "ListClusterStaticEntries K w = k8s_ListClusterStaticEntry K w"

definition ListClusterSPIFFEIDs :: "'w K8sClient \<Rightarrow> 'w \<Rightarrow> crd_ClusterSPIFFEID list result" where
  "ListClusterSPIFFEIDs K w = k8s_ListClusterSPIFFEID K w"

definition ListClusterFederatedTrustDomains :: "'w K8sClient \<Rightarrow> 'w \<Rightarrow> crd_ClusterFederatedTrustDomain list result" where
  "ListClusterFederatedTrustDomains K w = k8s_ListClusterFederatedTrustDomain K w"

definition ListNamespaces :: "'w K8sClient \<Rightarrow> 'w \<Rightarrow> LabelsSelector option \<Rightarrow> Namespace list result" where
  "ListNamespaces K w namespaceSelector =
     k8s_ListNamespace K w
       (case namespaceSelector of None \<Rightarrow> [] | Some s \<Rightarrow> [MatchingLabelsSelector s])"

definition ListNodes :: "'w K8sClient \<Rightarrow> 'w \<Rightarrow> Node list result" where
  "ListNodes K w = k8s_ListNode K w [UnsafeDisableDeepCopy]"

definition ListNamespacePods :: "'w K8sClient \<Rightarrow> 'w \<Rightarrow> string \<Rightarrow> LabelsSelector option \<Rightarrow> Pod list result" where
  "ListNamespacePods K w namespace podSelector =
     k8s_ListPod K w
       ([InNamespace namespace, UnsafeDisableDeepCopy] @
        (case podSelector of None \<Rightarrow> [] | Some s \<Rightarrow> [MatchingLabelsSelector s]))"

section \<open>What parsing establishes\<close>

text \<open>A parsed ClusterSPIFFEID keeps the plain fields and has one parsed value for every text.\<close>

lemma ParseClusterSPIFFEIDSpec_ok:
  assumes "ParseClusterSPIFFEIDSpec C spec = Inr p"
  shows "cs_SPIFFEIDTemplate spec \<noteq> ''''"
    and "cl_template_Parse C (cs_SPIFFEIDTemplate spec) = Inr (ps_SPIFFEIDTemplate p)"
    and "list_all2 (\<lambda>v td. TrustDomainFromString (cl_spiffeid C) v = Inr td) (cs_FederatesWith spec) (ps_FederatesWith p)"
    and "list_all2 (\<lambda>v t. cl_template_Parse C v = Inr t) (cs_DNSNameTemplates spec) (ps_DNSNameTemplates p)"
    and "list_all2 (\<lambda>v t. cl_template_Parse C v = Inr t) (cs_WorkloadSelectorTemplates spec)
      (ps_WorkloadSelectorTemplates p)"
    and "ps_TTL p = cs_TTL spec" "ps_JWTTTL p = cs_JWTTTL spec" "ps_Admin p = cs_Admin spec"
    and "ps_Downstream p = cs_Downstream spec" "ps_Hint p = cs_Hint spec"
    and "ps_AutoPopulateDNSNames p = cs_AutoPopulateDNSNames spec"
  using assms by (auto simp: ParseClusterSPIFFEIDSpec_def result_simps split: if_splits)

text \<open>A relationship parsed from a resource is one of the struct profiles and has a valid URL.\<close>

lemma ParseClusterFederatedTrustDomainSpec_ok:
  assumes "ParseClusterFederatedTrustDomainSpec C spec = Inr fr"
  shows "TrustDomainFromString (cl_spiffeid C) (cf_TrustDomain spec) = Inr (fr_TrustDomain fr)"
    and "fr_BundleEndpointURL fr = cf_BundleEndpointURL spec"
    and "ValidateBundleEndpointURL (cl_url C) (fr_BundleEndpointURL fr) = Inr ()"
    and "fr_BundleEndpointProfile fr =
      (if cf_ProfileType spec = HTTPSWebProfileType then Some HTTPSWebProfile
       else Some (HTTPSSPIFFEProfile (projr (FromString (cl_spiffeid C) (cf_EndpointSPIFFEID spec)))))"
  using assms
  by (auto simp: ParseClusterFederatedTrustDomainSpec_def result_simps split: if_splits)

lemma loadManifests_suffix:
  "loadManifests D kind p x files = loadManifests D kind p x (filter (\<lambda>f. HasSuffix f ''.yaml'') files)"
proof (induction files)
  case (Cons f files)
  show ?case
  proof (cases "HasSuffix f ''.yaml''")
    case True
    then show ?thesis by (simp flip: Cons.IH cong: if_cong)
  next
    case False
    then show ?thesis by (simp flip: Cons.IH cong: if_cong)
  qed
qed simp

end
