(* ===== verification/Entries.thy ===== *)
theory Entries
  imports Crd_Api
begin

section \<open>Rendering declared entries (pkg/spireentry/entries.go)\<close>

text \<open>
  How a ClusterStaticEntry, or a ClusterSPIFFEID together with a pod, its node and the endpoints
  it backs, becomes a SPIRE entry. The set \<open>sliceSet\<close> of names that \<open>appendIfNotExists\<close>
  threads through its calls is a HOL set that is returned together with the slice.
\<close>

definition parseSelector :: "string \<Rightarrow> Selector result" where
  "parseSelector selector =
     (case SplitN2 selector CHR '':'' of
        [t, v] \<Rightarrow>
          if t = '''' then Inl (Err ''type cannot be empty'')
          else if v = '''' then Inl (Err ''value cannot be empty'')
          else Inr \<lparr>s_Type = t, s_Value = v\<rparr>
      | _ \<Rightarrow> Inl (Err ''expected at least one colon separate the type from the value''))"

definition parseSelectors :: "string list \<Rightarrow> Selector list result" where
  "parseSelectors selectors = mapE parseSelector selectors"

definition renderStaticEntry :: "spiffeid_lib \<Rightarrow> ClusterStaticEntrySpec \<Rightarrow> Entry result" where
  "renderStaticEntry L spec =
     bindE (wrapE ''failed to parse SPIFFEID'' (FromString L (se_SPIFFEID spec))) (\<lambda>spiffeID.
     bindE (wrapE ''failed to parse ParentID'' (FromString L (se_ParentID spec))) (\<lambda>parentID.
     bindE (wrapE ''failed to parse Selectors'' (parseSelectors (se_Selectors spec))) (\<lambda>selectors.
     bindE (mapE (\<lambda>v. wrapE ''invalid federatesWith value'' (TrustDomainFromString L v))
              (se_FederatesWith spec)) (\<lambda>federatesWith.
     Inr \<lparr>e_ID = '''',
          e_SPIFFEID = spiffeID,
          e_ParentID = parentID,
          e_Selectors = selectors,
          e_X509SVIDTTL = se_X509SVIDTTL spec,
          e_JWTSVIDTTL = se_JWTSVIDTTL spec,
          e_FederatesWith = federatesWith,
          e_Admin = se_Admin spec,
          e_Downstream = se_Downstream spec,
          e_DNSNames = se_DNSNames spec,
          e_Hint = se_Hint spec,
          e_StoreSVID = se_StoreSVID spec\<rparr>))))"

definition renderTemplate :: "Template \<Rightarrow> templateData \<Rightarrow> string result" where
  "renderTemplate tmpl d = wrapE ''failed to execute template'' (tmpl d)"

text \<open>The template \<open>spiffe://{{ .TrustDomain }}/spire/agent/k8s_psat/{{ .ClusterName }}/{{ .NodeMeta.UID }}\<close>,
  which cannot fail to execute.\<close>

definition defaultParentIDTemplate :: Template where
  "defaultParentIDTemplate d =
     Inr (''spiffe://'' @ td_TrustDomain d @ ''/spire/agent/k8s_psat/'' @ td_ClusterName d @ ''/'' @
          om_UID (td_NodeMeta d))"

definition renderSPIFFEID :: "spiffeid_lib \<Rightarrow> Template \<Rightarrow> templateData \<Rightarrow> TrustDomain \<Rightarrow> ID result" where
  "renderSPIFFEID L tmpl d expectTD =
     bindE (renderTemplate tmpl d) (\<lambda>rendered.
     bindE (wrapE ''invalid SPIFFE ID'' (FromString L rendered)) (\<lambda>i.
     if id_TrustDomain i \<noteq> expectTD
     then Inl (Err ''invalid SPIFFE ID: expected trust domain but got another'')
     else Inr i))"

fun appendIfNotExists :: "string list \<Rightarrow> string set \<Rightarrow> string list \<Rightarrow> string list \<times> string set" where
  "appendIfNotExists items0 sliceSet [] = (items0, sliceSet)"
| "appendIfNotExists items0 sliceSet (item # items) =
     (if item \<notin> sliceSet then appendIfNotExists (items0 @ [item]) (insert item sliceSet) items
      else appendIfNotExists items0 sliceSet items)"

definition renderDNSName :: "Template \<Rightarrow> templateData \<Rightarrow> string result" where
  "renderDNSName tmpl d = renderTemplate tmpl d"

fun renderDNSNames_loop ::
  "string list \<Rightarrow> string set \<Rightarrow> Template list \<Rightarrow> templateData \<Rightarrow> (string list \<times> string set) result" where
  "renderDNSNames_loop dnsNames dnsNamesSet [] d = Inr (dnsNames, dnsNamesSet)"
| "renderDNSNames_loop dnsNames dnsNamesSet (tmpl # tmpls) d =
     bindE (wrapE ''failed to render DNS name'' (renderDNSName tmpl d)) (\<lambda>dnsName.
       case appendIfNotExists dnsNames dnsNamesSet [dnsName] of
         (dnsNames', dnsNamesSet') \<Rightarrow> renderDNSNames_loop dnsNames' dnsNamesSet' tmpls d)"

definition renderDNSNames ::
  "string set \<Rightarrow> Template list \<Rightarrow> templateData \<Rightarrow> (string list \<times> string set) result" where
  "renderDNSNames dnsNamesSet tmpls d = renderDNSNames_loop [] dnsNamesSet tmpls d"

definition endpointNames :: "string \<Rightarrow> Endpoints \<Rightarrow> string list" where
  "endpointNames clusterDomain endpoint =
     (let n = om_Name (ep_Meta endpoint); ns = om_Namespace (ep_Meta endpoint) in
      [n, n @ ''.'' @ ns, n @ ''.'' @ ns @ ''.svc''] @
      (if clusterDomain \<noteq> '''' then [n @ ''.'' @ ns @ ''.svc.'' @ clusterDomain] else []))"

definition dnsNamesFromEndpoints :: "Endpoints list \<Rightarrow> string \<Rightarrow> string list" where
  "dnsNamesFromEndpoints endpointsList clusterDomain =
     sort_Strings (concat (map (endpointNames clusterDomain) endpointsList))"

definition renderSelector :: "Template \<Rightarrow> templateData \<Rightarrow> Selector result" where
  "renderSelector tmpl d =
     bindE (renderTemplate tmpl d) (\<lambda>rendered. wrapE ''invalid workload selector'' (parseSelector rendered))"

definition renderPodEntry ::
  "spiffeid_lib \<Rightarrow> ParsedClusterSPIFFEIDSpec \<Rightarrow> Node \<Rightarrow> Pod \<Rightarrow> Endpoints list \<Rightarrow> TrustDomain \<Rightarrow> string \<Rightarrow> string
     \<Rightarrow> Template option \<Rightarrow> Entry result" where
  "renderPodEntry L spec node pod endpointsList trustDomain clusterName clusterDomain parentIDTemplate =
     (let selectors = [\<lparr>s_Type = ''k8s'', s_Value = ''pod-uid:'' @ om_UID (pod_Meta pod)\<rparr>];
          d = \<lparr>td_TrustDomain = td_Name trustDomain, td_ClusterName = clusterName,
               td_ClusterDomain = clusterDomain, td_PodMeta = None, td_PodSpec = None,
               td_NodeMeta = node_Meta node, td_NodeSpec = node_Spec node\<rparr>;
          parentTmpl = (case parentIDTemplate of None \<Rightarrow> defaultParentIDTemplate | Some t \<Rightarrow> t)
      in bindE (wrapE ''failed to render parent ID'' (renderSPIFFEID L parentTmpl d trustDomain)) (\<lambda>parentID.
         let d = d\<lparr>td_PodMeta := Some (pod_Meta pod), td_PodSpec := Some (pod_Spec pod)\<rparr> in
         bindE (wrapE ''failed to render SPIFFE ID''
                  (renderSPIFFEID L (ps_SPIFFEIDTemplate spec) d trustDomain)) (\<lambda>spiffeID.
         bindE (renderDNSNames {} (ps_DNSNameTemplates spec) d) (\<lambda>(dnsNames, dnsNamesSet).
         let dnsNames =
               fst (appendIfNotExists dnsNames dnsNamesSet (dnsNamesFromEndpoints endpointsList clusterDomain)) in
         bindE (mapE (\<lambda>t. wrapE ''failed to render workload selector'' (renderSelector t d))
                  (ps_WorkloadSelectorTemplates spec)) (\<lambda>workloadSelectors.
         Inr \<lparr>e_ID = '''',
              e_SPIFFEID = spiffeID,
              e_ParentID = parentID,
              e_Selectors = selectors @ workloadSelectors,
              e_X509SVIDTTL = ps_TTL spec,
              e_JWTSVIDTTL = ps_JWTTTL spec,
              e_FederatesWith = ps_FederatesWith spec,
              e_Admin = ps_Admin spec,
              e_Downstream = ps_Downstream spec,
              e_DNSNames = dnsNames,
              e_Hint = ps_Hint spec,
              e_StoreSVID = False\<rparr>)))))"

section \<open>What rendering guarantees\<close>

subsection \<open>Selectors\<close>

lemma parseSelector_Inr:
  "parseSelector s = Inr sel \<longleftrightarrow> valid_selector sel \<and> s = s_Type sel @ CHR '':'' # s_Value sel"
proof
  assume "parseSelector s = Inr sel"
  then show "valid_selector sel \<and> s = s_Type sel @ CHR '':'' # s_Value sel"
    by (cases "CHR '':''" s rule: SplitN2_cases)
      (auto simp: parseSelector_def valid_selector_def ContainsChar_def split: if_splits)
next
  assume "valid_selector sel \<and> s = s_Type sel @ CHR '':'' # s_Value sel"
  then show "parseSelector s = Inr sel"
    by (simp add: parseSelector_def valid_selector_def ContainsChar_def SplitN2_append)
qed

text \<open>Printing a selector as type, colon, value is the inverse of parsing it.\<close>

definition selector_String :: "Selector \<Rightarrow> string" where
  "selector_String s = s_Type s @ CHR '':'' # s_Value s"

interpretation selector_text: codec selector_String parseSelector valid_selector
  by unfold_locales (simp add: parseSelector_Inr selector_String_def)

lemma parseSelectors_Inr:
  "parseSelectors ss = Inr sels \<Longrightarrow> list_all valid_selector sels \<and> ss = map selector_String sels"
  unfolding parseSelectors_def mapE_eq_Inr
  by (induction rule: list_all2_induct) (auto simp: parseSelector_Inr selector_String_def)

lemma mapE_valid_selectors:
  "mapE (\<lambda>t. wrapE m (renderSelector t d)) ts = Inr sels \<Longrightarrow> list_all valid_selector sels"
  unfolding mapE_eq_Inr
  by (induction rule: list_all2_induct) (auto simp: renderSelector_def result_simps parseSelector_Inr)

subsection \<open>DNS names\<close>

lemma appendIfNotExists_eq:
  "appendIfNotExists items0 S items = (items0 @ uniqBy_seen (\<lambda>x. x) S items, S \<union> set items)"
  by (induction items arbitrary: items0 S) auto

lemma renderDNSNames_loop_Inr:
  assumes "renderDNSNames_loop names S tmpls d = Inr (names', S')" "distinct names" "set names = S"
  shows "distinct names' \<and> set names' = S' \<and>
    (\<exists>rendered. list_all2 (\<lambda>t n. t d = Inr n) tmpls rendered \<and> set names' = set names \<union> set rendered)"
  using assms
proof (induction tmpls arbitrary: names S)
  case (Cons t tmpls)
  then obtain n where n: "t d = Inr n"
    by (auto simp: result_simps renderDNSName_def renderTemplate_def)
  let ?names = "if n \<in> S then names else names @ [n]"
  have "renderDNSNames_loop ?names (insert n S) tmpls d = Inr (names', S')"
    using Cons.prems(1) n by (simp add: renderDNSName_def renderTemplate_def insert_absorb split: if_splits)
  moreover have "distinct ?names" "set ?names = insert n S" using Cons.prems(2,3) by auto
  ultimately obtain rendered where "distinct names'" "set names' = S'"
    "list_all2 (\<lambda>t n. t d = Inr n) tmpls rendered" "set names' = insert n S \<union> set rendered"
    using Cons.IH [of ?names "insert n S"] by metis
  with n Cons.prems(3) show ?case by (intro conjI exI [of _ "n # rendered"]) auto
qed auto

lemma appendIfNotExists_distinct:
  assumes "distinct names" "set names = S"
  shows "distinct (fst (appendIfNotExists names S items))"
    and "set (fst (appendIfNotExists names S items)) = S \<union> set items"
proof -
  have u: "set (uniqBy_seen (\<lambda>x. x) S items) = set items - S"
    using uniqBy_seen_keys [of "\<lambda>x. x" S items] by simp
  show "set (fst (appendIfNotExists names S items)) = S \<union> set items"
    using assms(2) u by (simp add: appendIfNotExists_eq)
  show "distinct (fst (appendIfNotExists names S items))"
    using assms u uniqBy_seen_distinct [of "\<lambda>x. x" S items] by (auto simp: appendIfNotExists_eq)
qed

lemma set_dnsNamesFromEndpoints:
  "set (dnsNamesFromEndpoints eps domain) = (\<Union>ep\<in>set eps. set (endpointNames domain ep))"
  by (simp add: dnsNamesFromEndpoints_def)

text \<open>The names do not depend on the order in which the endpoints are listed.\<close>

lemma dnsNamesFromEndpoints_order:
  assumes "mset eps = mset eps'"
  shows "dnsNamesFromEndpoints eps domain = dnsNamesFromEndpoints eps' domain"
proof -
  have "mset (concat (map f xs)) = \<Sum>\<^sub># (image_mset (mset \<circ> f) (mset xs))" for f :: "Endpoints \<Rightarrow> string list" and xs
    by (induction xs) auto
  then show ?thesis
    unfolding dnsNamesFromEndpoints_def using assms
    by (intro string_order.sort_by_cong_mset) simp_all
qed

subsection \<open>Entries\<close>

lemma renderSPIFFEID_Inr:
  "renderSPIFFEID L t d td = Inr i \<longleftrightarrow> (\<exists>s. t d = Inr s \<and> FromString L s = Inr i) \<and> id_TrustDomain i = td"
  by (auto simp: renderSPIFFEID_def renderTemplate_def result_simps split: if_splits)

lemma renderStaticEntry_Inr:
  assumes "renderStaticEntry L spec = Inr e"
  shows "e_ID e = ''''" "FromString L (se_SPIFFEID spec) = Inr (e_SPIFFEID e)"
    and "FromString L (se_ParentID spec) = Inr (e_ParentID e)"
    and "list_all valid_selector (e_Selectors e)" "se_Selectors spec = map selector_String (e_Selectors e)"
    and "list_all2 (\<lambda>v td. TrustDomainFromString L v = Inr td) (se_FederatesWith spec) (e_FederatesWith e)"
    and "e_X509SVIDTTL e = se_X509SVIDTTL spec" "e_JWTSVIDTTL e = se_JWTSVIDTTL spec"
    and "e_DNSNames e = se_DNSNames spec" "e_Hint e = se_Hint spec" "e_Admin e = se_Admin spec"
    and "e_Downstream e = se_Downstream spec" "e_StoreSVID e = se_StoreSVID spec"
  using assms parseSelectors_Inr [of "se_Selectors spec"]
  by (auto simp: renderStaticEntry_def result_simps)

definition pod_selector :: "Pod \<Rightarrow> Selector" where
  "pod_selector pod = \<lparr>s_Type = ''k8s'', s_Value = ''pod-uid:'' @ om_UID (pod_Meta pod)\<rparr>"

definition pod_data :: "TrustDomain \<Rightarrow> string \<Rightarrow> string \<Rightarrow> Node \<Rightarrow> Pod \<Rightarrow> templateData" where
  "pod_data td clusterName clusterDomain node pod =
     \<lparr>td_TrustDomain = td_Name td, td_ClusterName = clusterName, td_ClusterDomain = clusterDomain,
      td_PodMeta = Some (pod_Meta pod), td_PodSpec = Some (pod_Spec pod),
      td_NodeMeta = node_Meta node, td_NodeSpec = node_Spec node\<rparr>"

lemma renderPodEntry_cases:
  assumes "renderPodEntry L spec node pod eps td cn cd pt = Inr e"
  obtains names S sels where
    "renderDNSNames {} (ps_DNSNameTemplates spec) (pod_data td cn cd node pod) = Inr (names, S)"
    "e_DNSNames e = fst (appendIfNotExists names S (dnsNamesFromEndpoints eps cd))"
    "mapE (\<lambda>t. wrapE ''failed to render workload selector'' (renderSelector t (pod_data td cn cd node pod)))
       (ps_WorkloadSelectorTemplates spec) = Inr sels"
    "e_Selectors e = pod_selector pod # sels"
    "renderSPIFFEID L (ps_SPIFFEIDTemplate spec) (pod_data td cn cd node pod) td = Inr (e_SPIFFEID e)"
    "id_TrustDomain (e_ParentID e) = td"
    "e_ID e = ''''" "e_X509SVIDTTL e = ps_TTL spec" "e_JWTSVIDTTL e = ps_JWTTTL spec"
    "e_FederatesWith e = ps_FederatesWith spec" "e_Admin e = ps_Admin spec"
    "e_Downstream e = ps_Downstream spec" "e_Hint e = ps_Hint spec" "\<not> e_StoreSVID e"
  using assms
  by (auto simp: renderPodEntry_def Let_def result_simps pod_data_def pod_selector_def renderSPIFFEID_Inr)

lemma renderPodEntry_dns:
  assumes "renderPodEntry L spec node pod eps td cn cd pt = Inr e"
  obtains rendered where "distinct (e_DNSNames e)"
    "list_all2 (\<lambda>t n. t (pod_data td cn cd node pod) = Inr n) (ps_DNSNameTemplates spec) rendered"
    "set (e_DNSNames e) = set rendered \<union> (\<Union>ep\<in>set eps. set (endpointNames cd ep))"
proof (rule renderPodEntry_cases [OF assms])
  fix names S
  assume names: "renderDNSNames {} (ps_DNSNameTemplates spec) (pod_data td cn cd node pod) = Inr (names, S)"
    and dns: "e_DNSNames e = fst (appendIfNotExists names S (dnsNamesFromEndpoints eps cd))"
  obtain rendered where r: "distinct names" "set names = S"
    "list_all2 (\<lambda>t n. t (pod_data td cn cd node pod) = Inr n) (ps_DNSNameTemplates spec) rendered"
    "set names = set rendered"
    using renderDNSNames_loop_Inr [of "[]" "{}"] names unfolding renderDNSNames_def by fastforce
  from that [of rendered] r dns show thesis
    by (auto simp: appendIfNotExists_distinct set_dnsNamesFromEndpoints)
qed

section \<open>Properties\<close>

text \<open>Parsing a workload selector accepts exactly the texts of the form type, colon, value with a
  non-empty type without a colon and a non-empty value, and splits at the first colon.\<close>

lemma parseSelector_iff:
  "parseSelector s = Inr sel \<longleftrightarrow>
     s = s_Type sel @ CHR '':'' # s_Value sel \<and> s_Type sel \<noteq> '''' \<and> CHR '':'' \<notin> set (s_Type sel) \<and> s_Value sel \<noteq> ''''"
  by (auto simp: parseSelector_Inr valid_selector_def ContainsChar_def)

text \<open>C15: an entry rendered for a pod has no ID yet, has a SPIFFE ID and a parent ID in the trust domain of
  the manager, selects the pod by its UID first and has valid selectors only, and has every DNS name once:
  those the templates render and those of the endpoints the pod backs.\<close>

theorem renderPodEntry_correct:
  assumes "renderPodEntry L spec node pod eps td cn cd pt = Inr e"
  shows "e_ID e = '''' \<and> id_TrustDomain (e_SPIFFEID e) = td \<and> id_TrustDomain (e_ParentID e) = td \<and>
    hd (e_Selectors e) = pod_selector pod \<and> list_all valid_selector (e_Selectors e) \<and>
    distinct (e_DNSNames e) \<and>
    (\<exists>rendered. list_all2 (\<lambda>t n. t (pod_data td cn cd node pod) = Inr n) (ps_DNSNameTemplates spec) rendered \<and>
       set (e_DNSNames e) = set rendered \<union> (\<Union>ep\<in>set eps. set (endpointNames cd ep)))"
  using assms
proof (rule renderPodEntry_cases)
  fix sels
  assume sels: "mapE (\<lambda>t. wrapE ''failed to render workload selector'' (renderSelector t (pod_data td cn cd node pod)))
       (ps_WorkloadSelectorTemplates spec) = Inr sels"
    and e: "e_Selectors e = pod_selector pod # sels" "id_TrustDomain (e_ParentID e) = td" "e_ID e = ''''"
      "renderSPIFFEID L (ps_SPIFFEIDTemplate spec) (pod_data td cn cd node pod) td = Inr (e_SPIFFEID e)"
  obtain rendered where r: "distinct (e_DNSNames e)"
    "list_all2 (\<lambda>t n. t (pod_data td cn cd node pod) = Inr n) (ps_DNSNameTemplates spec) rendered"
    "set (e_DNSNames e) = set rendered \<union> (\<Union>ep\<in>set eps. set (endpointNames cd ep))"
    by (rule renderPodEntry_dns [OF assms])
  have "valid_selector (pod_selector pod)"
    by (simp add: pod_selector_def valid_selector_def ContainsChar_def)
  with e mapE_valid_selectors [OF sels] r show ?thesis
    by (auto simp: renderSPIFFEID_Inr)
qed

definition sample_pod :: Pod where
  "sample_pod = \<lparr>pod_Meta = \<lparr>om_Name = ''p'', om_Namespace = ''ns'', om_UID = ''u1'', om_ResourceVersion = ''1'',
     om_CreationTimestamp = 0, om_DeletionTimestamp = None, om_Rest = ''''\<rparr>, pod_Spec = \<lparr>ps_NodeName = ''n'', ps_Rest = ''''\<rparr>\<rparr>"

definition sample_node :: Node where
  "sample_node = \<lparr>node_Meta = \<lparr>om_Name = ''n'', om_Namespace = '''', om_UID = ''nu'', om_ResourceVersion = ''1'',
     om_CreationTimestamp = 0, om_DeletionTimestamp = None, om_Rest = ''''\<rparr>, node_Spec = ''''\<rparr>"

definition sample_spec :: ParsedClusterSPIFFEIDSpec where
  "sample_spec = \<lparr>ps_SPIFFEIDTemplate = (\<lambda>d. Inr ''spiffe://td/w''), ps_NamespaceSelector = None,
     ps_PodSelector = None, ps_TTL = 0, ps_JWTTTL = 0, ps_FederatesWith = [],
     ps_DNSNameTemplates = [\<lambda>d. Inr ''svc''], ps_WorkloadSelectorTemplates = [], ps_Admin = False,
     ps_Downstream = False, ps_AutoPopulateDNSNames = True, ps_Hint = ''''\<rparr>"

definition sample_endpoints :: "Endpoints list" where
  "sample_endpoints = [\<lparr>ep_Meta = (pod_Meta sample_pod)\<lparr>om_Name := ''svc''\<rparr>,
     ep_Subsets = [\<lparr>eb_Addresses = [\<lparr>ea_TargetRef = Some \<lparr>or_Kind = ''Pod'', or_UID = om_UID (pod_Meta sample_pod)\<rparr>\<rparr>],
                    eb_NotReadyAddresses = []\<rparr>]\<rparr>]"

definition sample_pod_entry :: Entry where
  "sample_pod_entry =
     \<lparr>e_ID = '''', e_SPIFFEID = ID (TrustDomain ''td'') ''/w'',
      e_ParentID = ID (TrustDomain ''td'') ''/spire/agent/k8s_psat/c/nu'',
      e_Selectors = [\<lparr>s_Type = ''k8s'', s_Value = ''pod-uid:u1''\<rparr>], e_X509SVIDTTL = 0, e_JWTSVIDTTL = 0,
      e_FederatesWith = [], e_Admin = False, e_Downstream = False,
      e_DNSNames = [''svc'', ''svc.ns'', ''svc.ns.svc''], e_Hint = '''', e_StoreSVID = False\<rparr>"

lemma sample_pod_rendered:
  "renderPodEntry ref_spiffeid sample_spec sample_node sample_pod sample_endpoints (TrustDomain ''td'') ''c'' '''' None =
     Inr sample_pod_entry"
  by code_simp

theorem renderPodEntry_correct_witness: "hd (e_Selectors sample_pod_entry) = pod_selector sample_pod"
  using renderPodEntry_correct [OF sample_pod_rendered] by blast

text \<open>A static entry renders to an entry exactly when its SPIFFE ID and parent ID parse to those of the
  entry, its selector texts are the printed valid selectors of the entry, its federated trust domains parse
  one by one, the remaining fields agree and the entry has no ID.\<close>

lemma renderStaticEntry_iff:
  "renderStaticEntry L spec = Inr e \<longleftrightarrow>
     FromString L (se_SPIFFEID spec) = Inr (e_SPIFFEID e) \<and> FromString L (se_ParentID spec) = Inr (e_ParentID e) \<and>
     list_all valid_selector (e_Selectors e) \<and>
     se_Selectors spec = map (\<lambda>s. s_Type s @ CHR '':'' # s_Value s) (e_Selectors e) \<and>
     list_all2 (\<lambda>v td. TrustDomainFromString L v = Inr td) (se_FederatesWith spec) (e_FederatesWith e) \<and>
     e_ID e = '''' \<and> e_X509SVIDTTL e = se_X509SVIDTTL spec \<and> e_JWTSVIDTTL e = se_JWTSVIDTTL spec \<and>
     e_DNSNames e = se_DNSNames spec \<and> e_Hint e = se_Hint spec \<and> e_Admin e = se_Admin spec \<and>
     e_Downstream e = se_Downstream spec \<and> e_StoreSVID e = se_StoreSVID spec" (is "?l \<longleftrightarrow> ?r")
proof
  have print: "(\<lambda>s. s_Type s @ CHR '':'' # s_Value s) = selector_String" by (simp add: selector_String_def fun_eq_iff)
  show "?r" if ?l
    using renderStaticEntry_Inr [OF that] by (simp add: print)
  assume r: ?r
  have "parseSelectors (se_Selectors spec) = Inr (e_Selectors e)"
    using r selector_text.list_from_to [of "e_Selectors e"] unfolding print parseSelectors_def by simp
  moreover have "mapE (\<lambda>v. wrapE ''invalid federatesWith value'' (TrustDomainFromString L v))
      (se_FederatesWith spec) = Inr (e_FederatesWith e)"
    using r by (simp add: result_simps)
  ultimately show ?l using r by (simp add: renderStaticEntry_def)
qed

end
