(* ===== verification/Batch.thy ===== *)
theory Batch
  imports Spire_Types
begin

section \<open>Batched requests (pkg/spireapi/batch.go)\<close>

text \<open>
  \<open>runBatch\<close> splits a slice of requests into ranges and calls a closure on each until one
  returns an error. The closures of the entry and trust domain clients all send one range in
  one RPC and append the converted statuses of the response; \<open>batch_rpc\<close> is that closure, over
  the RPC it sends. The state a closure captures is the world the RPC acts on and the statuses
  collected so far.
\<close>

subsection \<open>Definitions\<close>

definition entryCreateBatchSize :: int where "entryCreateBatchSize = 50"
definition entryUpdateBatchSize :: int where "entryUpdateBatchSize = 50"
definition entryDeleteBatchSize :: int where "entryDeleteBatchSize = 200"
definition entryListPageSize :: int where "entryListPageSize = 200"
definition federationRelationshipCreateBatchSize :: int where "federationRelationshipCreateBatchSize = 50"
definition federationRelationshipUpdateBatchSize :: int where "federationRelationshipUpdateBatchSize = 50"
definition federationRelationshipDeleteBatchSize :: int where "federationRelationshipDeleteBatchSize = 200"
definition federationRelationshipListPageSize :: int where "federationRelationshipListPageSize = 200"

lemmas batch_size_defs =
  entryCreateBatchSize_def entryUpdateBatchSize_def entryDeleteBatchSize_def
  federationRelationshipCreateBatchSize_def federationRelationshipUpdateBatchSize_def
  federationRelationshipDeleteBatchSize_def

text \<open>The loop \<open>for i := 0; i < size; \<dots>\<close>. A batch of zero is only possible when the size is zero,
  where the loop is not entered.\<close>

function runBatch_loop ::
  "nat \<Rightarrow> nat \<Rightarrow> (nat \<Rightarrow> nat \<Rightarrow> 's \<Rightarrow> 's \<times> err option) \<Rightarrow> nat \<Rightarrow> 's \<Rightarrow> 's \<times> err option" where
  "runBatch_loop sz batch fn i s =
     (if i < sz \<and> 0 < batch then
        (let n = min (sz - i) batch in
         case fn i (i + n) s of
           (s', Some e) \<Rightarrow> (s', Some e)
         | (s', None) \<Rightarrow> runBatch_loop sz batch fn (i + n) s')
      else (s, None))"
  by pat_completeness auto
termination
  by (relation "measure (\<lambda>(sz, batch, fn, i, s). sz - i)") auto

declare runBatch_loop.simps [simp del]

definition runBatch ::
  "nat \<Rightarrow> int \<Rightarrow> (nat \<Rightarrow> nat \<Rightarrow> 's \<Rightarrow> 's \<times> err option) \<Rightarrow> 's \<Rightarrow> 's \<times> err option" where
  "runBatch sz batch fn s =
     runBatch_loop sz (if batch < 1 then sz else nat batch) fn 0 s"

text \<open>The slice expression \<open>xs[start:end]\<close>.\<close>

definition slice :: "'a list \<Rightarrow> nat \<Rightarrow> nat \<Rightarrow> 'a list" where
  "slice xs start end = take (end - start) (drop start xs)"

definition batch_rpc ::
  "('w \<Rightarrow> 'i list \<Rightarrow> 'w \<times> 'r list result) \<Rightarrow> ('r \<Rightarrow> api_Status option) \<Rightarrow> 'i list
     \<Rightarrow> nat \<Rightarrow> nat \<Rightarrow> 'w \<times> Status list \<Rightarrow> ('w \<times> Status list) \<times> err option" where
  "batch_rpc send status items start end s =
     (case send (fst s) (slice items start end) of
        (w', Inl e) \<Rightarrow> ((w', snd s), Some e)
      | (w', Inr results) \<Rightarrow> ((w', snd s @ map (\<lambda>r. statusFromAPI (status r)) results), None))"

subsection \<open>The ranges a batched call makes\<close>

text \<open>The reference: the consecutive ranges of at most \<open>batch\<close> indices that cover the indices from \<open>i\<close> to \<open>sz\<close>.\<close>

function ranges :: "nat \<Rightarrow> nat \<Rightarrow> nat \<Rightarrow> (nat \<times> nat) list" where
  "ranges sz batch i =
     (if i < sz \<and> 0 < batch
      then (i, min sz (i + batch)) # ranges sz batch (min sz (i + batch)) else [])"
  by pat_completeness auto
termination
  by (relation "measure (\<lambda>(sz, batch, i). sz - i)") auto

declare ranges.simps [simp del]

fun run_ranges :: "(nat \<Rightarrow> nat \<Rightarrow> 's \<Rightarrow> 's \<times> err option) \<Rightarrow> (nat \<times> nat) list \<Rightarrow> 's \<Rightarrow> 's \<times> err option" where
  "run_ranges fn [] s = (s, None)"
| "run_ranges fn ((a, b) # rs) s =
     (case fn a b s of (s', Some e) \<Rightarrow> (s', Some e) | (s', None) \<Rightarrow> run_ranges fn rs s')"

lemma runBatch_loop_ranges: "runBatch_loop sz batch fn i s = run_ranges fn (ranges sz batch i) s"
proof (induction sz batch fn i s rule: runBatch_loop.induct)
  case (1 sz batch fn i s)
  have eq: "i + min (sz - i) batch = min sz (i + batch)" if "i < sz" using that by auto
  show ?case
  proof (cases "i < sz \<and> 0 < batch")
    case True
    obtain s' oe where f: "fn i (i + min (sz - i) batch) s = (s', oe)"
      by (cases "fn i (i + min (sz - i) batch) s")
    show ?thesis
    proof (cases oe)
      case None
      with f True have "runBatch_loop sz batch fn (min sz (i + batch)) s' =
          run_ranges fn (ranges sz batch (min sz (i + batch))) s'"
        using 1 [OF True refl f [symmetric]] eq by simp
      with f True None eq show ?thesis
        by (simp add: runBatch_loop.simps [of sz batch fn i s] ranges.simps [of sz batch i])
    next
      case (Some e)
      with f True eq show ?thesis
        by (simp add: runBatch_loop.simps [of sz batch fn i s] ranges.simps [of sz batch i])
    qed
  next
    case False
    then show ?thesis
      by (simp only: runBatch_loop.simps [of sz batch fn i s] ranges.simps [of sz batch i]
          if_False run_ranges.simps)
  qed
qed

definition batch_ranges :: "nat \<Rightarrow> int \<Rightarrow> (nat \<times> nat) list" where
  "batch_ranges sz batch = ranges sz (if batch < 1 then sz else nat batch) 0"

lemma runBatch_run_ranges: "runBatch sz batch fn s = run_ranges fn (batch_ranges sz batch) s"
  by (simp add: runBatch_def batch_ranges_def runBatch_loop_ranges)

lemma ranges_cover: "0 < batch \<Longrightarrow> concat (map (\<lambda>(a, b). [a..<b]) (ranges sz batch i)) = [i..<sz]"
proof (induction sz batch i rule: ranges.induct)
  case (1 sz batch i)
  show ?case
  proof (cases "i < sz")
    case True
    then have "[i..<sz] = [i..<min sz (i + batch)] @ [min sz (i + batch)..<sz]"
      using upt_add_eq_append [of i "min sz (i + batch)" "sz - min sz (i + batch)"] by simp
    with True 1 show ?thesis by (simp add: ranges.simps [of sz batch i])
  next
    case False
    then show ?thesis by (simp add: ranges.simps [of sz batch i])
  qed
qed

lemma ranges_sizes:
  "(a, b) \<in> set (ranges sz batch i) \<Longrightarrow> i \<le> a \<and> a < b \<and> b \<le> sz \<and> b - a \<le> batch"
proof (induction sz batch i rule: ranges.induct)
  case (1 sz batch i)
  show ?case
  proof (cases "i < sz \<and> 0 < batch")
    case True
    with 1 show ?thesis by (fastforce simp: ranges.simps [of sz batch i])
  next
    case False
    with 1 show ?thesis by (auto simp: ranges.simps [of sz batch i])
  qed
qed

lemma batch_ranges_cover: "concat (map (\<lambda>(a, b). [a..<b]) (batch_ranges sz batch)) = [0..<sz]"
proof (cases "batch < 1 \<and> sz = 0")
  case True
  then show ?thesis by (simp add: batch_ranges_def ranges.simps)
next
  case False
  then show ?thesis by (simp add: batch_ranges_def ranges_cover)
qed

lemma concat_slices_ranges:
  "0 < batch \<Longrightarrow> concat (map (\<lambda>(a, b). slice xs a b) (ranges (length xs) batch i)) = drop i xs"
proof (induction "length xs" batch i rule: ranges.induct)
  case (1 batch i)
  show ?case
  proof (cases "i < length xs")
    case True
    let ?m = "min (length xs) (i + batch)"
    have "slice xs i ?m @ drop ?m xs = drop i xs"
      using True by (auto simp: slice_def min_def)
        (metis append_take_drop_id add.commute diff_add_inverse drop_drop)
    with True 1 show ?thesis by (simp add: ranges.simps [of "length xs" batch i])
  next
    case False
    then show ?thesis by (simp add: ranges.simps [of "length xs" batch i])
  qed
qed

lemma batch_ranges_slices: "concat (map (\<lambda>(a, b). slice xs a b) (batch_ranges (length xs) batch)) = xs"
proof (cases "batch < 1 \<and> xs = []")
  case True
  then show ?thesis by (simp add: batch_ranges_def ranges.simps)
next
  case False
  then show ?thesis using concat_slices_ranges [of _ xs 0] by (simp add: batch_ranges_def)
qed

subsection \<open>Servers that treat the items of a request one by one\<close>

text \<open>What the SPIRE API documents of its batch RPCs: the items of a request are processed in
  order, each with its own result.\<close>

fun step_results :: "('w \<Rightarrow> 'i \<Rightarrow> 'w) \<Rightarrow> ('w \<Rightarrow> 'i \<Rightarrow> 'r) \<Rightarrow> 'w \<Rightarrow> 'i list \<Rightarrow> 'r list" where
  "step_results step out w [] = []"
| "step_results step out w (x # xs) = out w x # step_results step out (step w x) xs"

definition serves_itemwise ::
  "('w \<Rightarrow> 'i list \<Rightarrow> 'w \<times> 'r list result) \<Rightarrow> ('w \<Rightarrow> 'i \<Rightarrow> 'w) \<Rightarrow> ('w \<Rightarrow> 'i \<Rightarrow> 'r) \<Rightarrow> bool" where
  "serves_itemwise send step out \<longleftrightarrow>
     (\<forall>w xs. send w xs = (foldl step w xs, Inr (step_results step out w xs)))"

lemma step_results_append:
  "step_results step out w (xs @ ys) = step_results step out w xs @ step_results step out (foldl step w xs) ys"
  by (induction xs arbitrary: w) auto

lemma length_step_results [simp]: "length (step_results step out w xs) = length xs"
  by (induction xs arbitrary: w) auto

lemma step_results_map:
  "step_results (\<lambda>w x. step w (f x)) (\<lambda>w x. out w (f x)) w xs = step_results step out w (map f xs)"
  by (induction xs arbitrary: w) auto

lemma serves_itemwise_map:
  "serves_itemwise send step out \<Longrightarrow>
     serves_itemwise (\<lambda>w xs. send w (map f xs)) (\<lambda>w x. step w (f x)) (\<lambda>w x. out w (f x))"
  by (simp add: serves_itemwise_def foldl_map step_results_map)

lemma run_ranges_itemwise:
  assumes "serves_itemwise send step out"
  shows "run_ranges (batch_rpc send status items) rs (w, sts) =
    ((foldl step w (concat (map (\<lambda>(a, b). slice items a b) rs)),
      sts @ map (\<lambda>r. statusFromAPI (status r))
        (step_results step out w (concat (map (\<lambda>(a, b). slice items a b) rs)))), None)"
  using assms
  by (induction rs arbitrary: w sts)
    (auto simp: batch_rpc_def serves_itemwise_def step_results_append)

lemma runBatch_itemwise:
  assumes "serves_itemwise send step out"
  shows "runBatch (length items) batch (batch_rpc send status items) (w, []) =
    ((foldl step w items, map (\<lambda>r. statusFromAPI (status r)) (step_results step out w items)), None)"
  using run_ranges_itemwise [OF assms] by (simp add: runBatch_run_ranges batch_ranges_slices)

text \<open>A failed batch stops the call: nothing after the failing range is sent.\<close>

lemma run_ranges_error_prefix:
  "run_ranges fn rs s = (s', Some e) \<Longrightarrow>
     \<exists>pre a b post s1. rs = pre @ (a, b) # post \<and> run_ranges fn pre s = (s1, None) \<and> fn a b s1 = (s', Some e)"
proof (induction rs arbitrary: s)
  case (Cons r rs)
  obtain a b where r: "r = (a, b)" by (cases r)
  obtain s2 o2 where f: "fn a b s = (s2, o2)" by (cases "fn a b s")
  show ?case
  proof (cases o2)
    case (Some e')
    with Cons.prems r f have "fn a b s = (s', Some e)" by simp
    with r show ?thesis by (intro exI [of _ "[]"]) auto
  next
    case None
    with Cons.prems r f have "run_ranges fn rs s2 = (s', Some e)" by simp
    from Cons.IH [OF this] obtain pre a' b' post s1 where
      "rs = pre @ (a', b') # post" "run_ranges fn pre s2 = (s1, None)" "fn a' b' s1 = (s', Some e)"
      by blast
    with None r f show ?thesis
      by (intro exI [of _ "(a, b) # pre"]) auto
  qed
qed simp

end
