(* ===== verification/Paging.thy ===== *)
theory Paging
  imports Spire_Types
begin

section \<open>Page loops of the list RPCs\<close>

text \<open>
  The loop that both clients of pkg/spireapi run to list objects: fetch a page from the current
  token, append its items, stop at a page without a next token or at an error. \<open>fetch\<close> is the
  RPC with its filter and page size applied. A server may hand out tokens for ever, so the loop
  is a partial function, with \<open>None\<close> for a loop that does not end; \<open>page_loop_returns\<close> says when
  it does.
\<close>

partial_function (option) page_loop ::
  "('w \<Rightarrow> string \<Rightarrow> 'w \<times> ('a list \<times> string) result) \<Rightarrow> 'a list \<Rightarrow> string \<Rightarrow> 'w
     \<Rightarrow> ('w \<times> 'a list result) option" where
  "page_loop fetch items pageToken w =
     (case snd (fetch w pageToken) of
        Inl e \<Rightarrow> Some (fst (fetch w pageToken), Inl e)
      | Inr resp \<Rightarrow>
          if snd resp = '''' then Some (fst (fetch w pageToken), Inr (items @ fst resp))
          else page_loop fetch (items @ fst resp) (snd resp) (fst (fetch w pageToken)))"

declare page_loop.simps [code]

text \<open>\<open>pages fetch w tok xs w'\<close>: starting from the token \<open>tok\<close> in the world \<open>w\<close>, the server hands out
  pages that together hold \<open>xs\<close>, until a page without a next token, and leaves the world \<open>w'\<close>.\<close>

inductive pages ::
  "('w \<Rightarrow> string \<Rightarrow> 'w \<times> ('a list \<times> string) result) \<Rightarrow> 'w \<Rightarrow> string \<Rightarrow> 'a list \<Rightarrow> 'w \<Rightarrow> bool"
  for fetch where
  last_page: "fetch w tok = (w', Inr (xs, '''')) \<Longrightarrow> pages fetch w tok xs w'"
| next_page: "fetch w tok = (w1, Inr (xs, nxt)) \<Longrightarrow> nxt \<noteq> '''' \<Longrightarrow> pages fetch w1 nxt ys w' \<Longrightarrow>
     pages fetch w tok (xs @ ys) w'"

lemma page_loop_pages: "pages fetch w tok xs w' \<Longrightarrow> page_loop fetch acc tok w = Some (w', Inr (acc @ xs))"
  by (induction arbitrary: acc rule: pages.induct) (subst page_loop.simps, simp)+

lemma page_loop_returns_pages:
  assumes "page_loop fetch acc tok w = Some r"
  shows "\<forall>xs. snd r = Inr xs \<longrightarrow> (\<exists>ys. pages fetch w tok ys (fst r) \<and> xs = acc @ ys)"
proof (rule page_loop.raw_induct [where P = "\<lambda>ft acc tok w r.
    \<forall>xs. snd r = Inr xs \<longrightarrow> (\<exists>ys. pages ft w tok ys (fst r) \<and> xs = acc @ ys)", OF _ assms])
  fix f ft acc tok w r
  assume IH: "\<And>ft acc tok w r. f ft acc tok w = Some r \<Longrightarrow>
      \<forall>xs. snd r = Inr xs \<longrightarrow> (\<exists>ys. pages ft w tok ys (fst r) \<and> xs = acc @ ys)"
    and eq: "(case snd (ft w tok) of Inl e \<Rightarrow> Some (fst (ft w tok), Inl e)
      | Inr resp \<Rightarrow> if snd resp = '''' then Some (fst (ft w tok), Inr (acc @ fst resp))
          else f ft (acc @ fst resp) (snd resp) (fst (ft w tok))) = Some r"
  obtain w1 res where ft: "ft w tok = (w1, res)" by (cases "ft w tok")
  show "\<forall>xs. snd r = Inr xs \<longrightarrow> (\<exists>ys. pages ft w tok ys (fst r) \<and> xs = acc @ ys)"
  proof (cases res)
    case (Inl e)
    with eq ft show ?thesis by auto
  next
    case (Inr resp)
    obtain ys nxt where resp: "resp = (ys, nxt)" by (cases resp)
    show ?thesis
    proof (cases "nxt = ''''")
      case True
      with ft Inr resp have "pages ft w tok ys w1" by (intro pages.last_page) simp
      with True eq ft Inr resp show ?thesis by auto
    next
      case False
      with eq ft Inr resp have "f ft (acc @ ys) nxt w1 = Some r" by simp
      from IH [OF this] False ft Inr resp show ?thesis
        by (auto 4 4 intro: pages.next_page [of ft])
    qed
  qed
qed

lemma page_loop_iff_pages: "page_loop fetch [] tok w = Some (w', Inr xs) \<longleftrightarrow> pages fetch w tok xs w'"
  using page_loop_returns_pages [of fetch "[]" tok w "(w', Inr xs)"] page_loop_pages [of fetch w tok xs w' "[]"]
  by auto

text \<open>The loop ends when the tokens of the server make progress in some rank.\<close>

definition tokens_progress ::
  "('w \<Rightarrow> string \<Rightarrow> 'w \<times> ('a list \<times> string) result) \<Rightarrow> ('w \<Rightarrow> string \<Rightarrow> nat) \<Rightarrow> bool" where
  "tokens_progress fetch rank \<longleftrightarrow>
     (\<forall>w tok w' xs nxt. fetch w tok = (w', Inr (xs, nxt)) \<and> nxt \<noteq> '''' \<longrightarrow> rank w' nxt < rank w tok)"

lemma page_loop_returns:
  assumes "tokens_progress fetch rank"
  shows "\<exists>r. page_loop fetch acc tok w = Some r"
proof (induction "rank w tok" arbitrary: w tok acc rule: less_induct)
  case less
  obtain w1 res where ft: "fetch w tok = (w1, res)" by (cases "fetch w tok")
  show ?case
  proof (cases res)
    case (Inl e)
    with ft show ?thesis by (subst page_loop.simps) simp
  next
    case (Inr resp)
    obtain xs nxt where resp: "resp = (xs, nxt)" by (cases resp)
    show ?thesis
    proof (cases "nxt = ''''")
      case True
      with ft Inr resp show ?thesis by (subst page_loop.simps) simp
    next
      case False
      with assms ft Inr resp have "rank w1 nxt < rank w tok"
        unfolding tokens_progress_def by blast
      from less [OF this] False ft Inr resp show ?thesis by (subst page_loop.simps) simp
    qed
  qed
qed

end
