(* ===== verification/Entry_Api.thy ===== *)
theory Entry_Api
  imports Batch Paging
begin

section \<open>The entry client (pkg/spireapi/entryapi.go)\<close>

text \<open>
  The client of the SPIRE entry API. The gRPC stub is the parameter \<open>EntryAPI\<close>: its operations
  act on a world \<open>'w\<close>, which holds the server, its environment and whatever else the calls may
  change, so that consecutive calls need not see the same server. An operation that does not
  return, because a page loop never ends or because a nil pointer is dereferenced, has the value
  \<open>None\<close>.
\<close>

subsection \<open>The gRPC stub and the client interface\<close>

record api_EntryResult =
  r_Status :: "api_Status option"
  r_Entry :: "api_Entry option"

text \<open>\<open>rpc_ListEntries\<close> takes the hint filter, the page token and the page size and returns the
  entries of the page and the next token; the delete RPC returns the statuses of its results.\<close>

record 'w EntryAPI =
  rpc_ListEntries :: "'w \<Rightarrow> string option \<Rightarrow> string \<Rightarrow> int \<Rightarrow> 'w \<times> (api_Entry option list \<times> string) result"
  rpc_BatchCreateEntry :: "'w \<Rightarrow> api_Entry list \<Rightarrow> 'w \<times> api_EntryResult list result"
  rpc_BatchUpdateEntry :: "'w \<Rightarrow> api_Entry list \<Rightarrow> 'w \<times> api_EntryResult list result"
  rpc_BatchDeleteEntry :: "'w \<Rightarrow> string list \<Rightarrow> 'w \<times> api_Status option list result"

datatype Field =
    AdminField
  | DNSNamesField
  | DownstreamField
  | FederatesWithField
  | HintField
  | JWTSVIDTTLField
  | StoreSVIDField
  | X509SVIDTTL

text \<open>The interface \<open>EntryClient\<close>. A list of statuses and an error are both returned by the batched
  operations.\<close>

record 'w EntryClient =
  ec_ListEntries :: "'w \<Rightarrow> string list \<Rightarrow> ('w \<times> Entry list result) option"
  ec_CreateEntries :: "'w \<Rightarrow> Entry list \<Rightarrow> 'w \<times> Status list \<times> err option"
  ec_UpdateEntries :: "'w \<Rightarrow> Entry list \<Rightarrow> 'w \<times> Status list \<times> err option"
  ec_DeleteEntries :: "'w \<Rightarrow> string list \<Rightarrow> 'w \<times> Status list \<times> err option"
  ec_GetUnsupportedFields :: "'w \<Rightarrow> string \<Rightarrow> string \<Rightarrow> ('w \<times> Field set result) option"

subsection \<open>Listing\<close>

definition listEntries ::
  "'w EntryAPI \<Rightarrow> spiffeid_lib \<Rightarrow> string option \<Rightarrow> 'w \<Rightarrow> ('w \<times> Entry list result) option" where
  "listEntries A L flt w =
     (case page_loop (\<lambda>w pageToken. rpc_ListEntries A w flt pageToken entryListPageSize) [] '''' w of
        None \<Rightarrow> None
      | Some (w', r) \<Rightarrow> Some (w', bindE r (entriesFromAPI L)))"

text \<open>One list call per hint. The source starts them concurrently and cancels the others when one
  fails; here they run in the order of the hints, which fixes one schedule. The outcome is an
  error exactly when a call fails, whichever schedule runs.\<close>

fun list_each ::
  "'w EntryAPI \<Rightarrow> spiffeid_lib \<Rightarrow> string list \<Rightarrow> 'w \<Rightarrow> ('w \<times> Entry list result list) option" where
  "list_each A L [] w = Some (w, [])"
| "list_each A L (h # hs) w =
     (case listEntries A L (Some h) w of
        None \<Rightarrow> None
      | Some (w', r) \<Rightarrow>
          (case list_each A L hs w' of None \<Rightarrow> None | Some (w'', rs) \<Rightarrow> Some (w'', r # rs)))"

definition ListEntries ::
  "'w EntryAPI \<Rightarrow> spiffeid_lib \<Rightarrow> 'w \<Rightarrow> string list \<Rightarrow> ('w \<times> Entry list result) option" where
  "ListEntries A L w hints =
     (let filterHints = lo_Uniq (filter (\<lambda>hint. hint \<noteq> '''') hints) in
      if filterHints = [] then listEntries A L None w
      else case list_each A L filterHints w of
        None \<Rightarrow> None
      | Some (w', results) \<Rightarrow>
          (case find isl results of
             Some r \<Rightarrow> Some (w', Inl (projl r))
           | None \<Rightarrow> Some (w', Inr (lo_UniqBy e_ID (concat (map projr results))))))"

subsection \<open>Probing for unsupported fields\<close>

definition unsupportedFieldsTestEntry :: "string \<Rightarrow> string \<Rightarrow> api_Entry" where
  "unsupportedFieldsTestEntry td entryIDPrefix =
     (let i = \<lparr>api_TrustDomain = td, api_Path = ''/spire-controller-manager/unsupported-fields-test''\<rparr> in
      \<lparr>api_Id = (if entryIDPrefix \<noteq> ''''
                 then entryIDPrefix @ ''spire-controller-manager.unsupported-fields-test'' else ''''),
       api_SpiffeId = Some i, api_ParentId = Some i,
       api_Selectors = [\<lparr>api_Type = ''a'', api_Value = ''1''\<rparr>],
       api_X509SvidTtl = 60, api_JwtSvidTtl = 60, api_FederatesWith = [], api_Admin = False,
       api_DnsNames = [], api_Downstream = False, api_Hint = ''hint'', api_StoreSvid = True\<rparr>)"

definition unsupportedFieldsOf :: "api_Entry \<Rightarrow> Field set" where
  "unsupportedFieldsOf e =
     (if api_JwtSvidTtl e = 0 then {JWTSVIDTTLField} else {}) \<union>
     (if api_Hint e = '''' then {HintField} else {}) \<union>
     (if \<not> api_StoreSvid e then {StoreSVIDField} else {})"

text \<open>The status and the entry of the single result are dereferenced without a check. An error of
  the deletion is only logged.\<close>

definition GetUnsupportedFields ::
  "'w EntryAPI \<Rightarrow> 'w \<Rightarrow> string \<Rightarrow> string \<Rightarrow> ('w \<times> Field set result) option" where
  "GetUnsupportedFields A w td entryIDPrefix =
     (case rpc_BatchCreateEntry A w [unsupportedFieldsTestEntry td entryIDPrefix] of
        (w', Inl e) \<Rightarrow> Some (w', Inl e)
      | (w', Inr [result]) \<Rightarrow>
          (case r_Status result of
             None \<Rightarrow> None
           | Some st \<Rightarrow>
               if api_Code st \<noteq> uint codes_OK \<and> api_Code st \<noteq> uint codes_AlreadyExists
               then Some (w', Inl (Err (''failed to create entry: '' @ api_Message st)))
               else case r_Entry result of
                 None \<Rightarrow> None
               | Some e \<Rightarrow>
                   (case rpc_BatchDeleteEntry A w' [api_Id e] of
                      (w'', _) \<Rightarrow> Some (w'', Inr (unsupportedFieldsOf e))))
      | (w', Inr _) \<Rightarrow> Some (w', Inl (Err ''only one response expected'')))"

subsection \<open>Batched changes\<close>

definition CreateEntries :: "'w EntryAPI \<Rightarrow> 'w \<Rightarrow> Entry list \<Rightarrow> 'w \<times> Status list \<times> err option" where
  "CreateEntries A w entries =
     (case runBatch (length entries) entryCreateBatchSize
             (batch_rpc (\<lambda>w es. rpc_BatchCreateEntry A w (entriesToAPI es)) r_Status entries) (w, [])
      of ((w', statuses), err) \<Rightarrow> (w', statuses, err))"

definition UpdateEntries :: "'w EntryAPI \<Rightarrow> 'w \<Rightarrow> Entry list \<Rightarrow> 'w \<times> Status list \<times> err option" where
  "UpdateEntries A w entries =
     (case runBatch (length entries) entryUpdateBatchSize
             (batch_rpc (\<lambda>w es. rpc_BatchUpdateEntry A w (entriesToAPI es)) r_Status entries) (w, [])
      of ((w', statuses), err) \<Rightarrow> (w', statuses, err))"

definition DeleteEntries :: "'w EntryAPI \<Rightarrow> 'w \<Rightarrow> string list \<Rightarrow> 'w \<times> Status list \<times> err option" where
  "DeleteEntries A w entryIDs =
     (case runBatch (length entryIDs) entryDeleteBatchSize
             (batch_rpc (rpc_BatchDeleteEntry A) (\<lambda>s. s) entryIDs) (w, [])
      of ((w', statuses), err) \<Rightarrow> (w', statuses, err))"

definition NewEntryClient :: "spiffeid_lib \<Rightarrow> 'w EntryAPI \<Rightarrow> 'w EntryClient" where
  "NewEntryClient L A =
     \<lparr>ec_ListEntries = ListEntries A L,
      ec_CreateEntries = CreateEntries A,
      ec_UpdateEntries = UpdateEntries A,
      ec_DeleteEntries = DeleteEntries A,
      ec_GetUnsupportedFields = GetUnsupportedFields A\<rparr>"

section \<open>Correctness of the entry client\<close>

subsection \<open>Listing follows the pages of the server\<close>

abbreviation list_pages ::
  "'w EntryAPI \<Rightarrow> string option \<Rightarrow> 'w \<Rightarrow> string \<Rightarrow> api_Entry option list \<Rightarrow> 'w \<Rightarrow> bool" where
  "list_pages A flt \<equiv> pages (\<lambda>w tok. rpc_ListEntries A w flt tok entryListPageSize)"

abbreviation list_progress :: "'w EntryAPI \<Rightarrow> string option \<Rightarrow> ('w \<Rightarrow> string \<Rightarrow> nat) \<Rightarrow> bool" where
  "list_progress A flt \<equiv> tokens_progress (\<lambda>w tok. rpc_ListEntries A w flt tok entryListPageSize)"

lemma listEntries_iff_pages:
  "listEntries A L flt w = Some (w', Inr xs) \<longleftrightarrow>
     (\<exists>es. list_pages A flt w '''' es w' \<and> entriesFromAPI L es = Inr xs)"
  by (auto simp: listEntries_def bindE_eq_Inr simp flip: page_loop_iff_pages
      split: option.splits prod.splits)

lemma listEntries_returns:
  assumes "list_progress A flt rank"
  shows "\<exists>r. listEntries A L flt w = Some r"
  using page_loop_returns [OF assms, of "[]" "''''" w] by (auto simp: listEntries_def)

lemma list_each_returns:
  assumes "\<And>h. h \<in> set hs \<Longrightarrow> list_progress A (Some h) rank"
  shows "\<exists>r. list_each A L hs w = Some r"
  using assms
proof (induction hs arbitrary: w)
  case (Cons h hs)
  then obtain r1 where "listEntries A L (Some h) w = Some r1"
    using listEntries_returns [of A "Some h" rank L w] by auto
  moreover obtain r2 where "list_each A L hs (fst r1) = Some r2" using Cons by fastforce
  ultimately show ?case by (cases r1; cases r2) simp
qed simp

lemma list_each_length: "list_each A L hs w = Some (w', rs) \<Longrightarrow> length rs = length hs"
  by (induction hs arbitrary: w w' rs) (auto split: option.splits)

text \<open>What a successful list by hints returns: entries of the per-hint lists, one for every ID that
  occurs in them.\<close>

lemma ListEntries_hints_result:
  assumes "ListEntries A L w hints = Some (w', Inr xs)" "\<exists>h\<in>set hints. h \<noteq> ''''"
  obtains rs where "list_each A L (lo_Uniq (filter (\<lambda>h. h \<noteq> '''') hints)) w = Some (w', map Inr rs)"
    "xs = lo_UniqBy e_ID (concat rs)"
proof -
  let ?hs = "lo_Uniq (filter (\<lambda>h. h \<noteq> '''') hints)"
  have ne: "?hs \<noteq> []" using assms(2) by (simp add: filter_empty_conv)
  obtain results where res: "list_each A L ?hs w = Some (w', results)" "find isl results = None"
    "xs = lo_UniqBy e_ID (concat (map projr results))"
    using assms(1) ne unfolding ListEntries_def Let_def
    by (auto split: option.splits)
  then have "results = map Inr (map projr results)"
    by (auto simp: find_None_iff intro: map_idI [symmetric])
  with res show thesis by (intro that) auto
qed

subsection \<open>Batched changes are sent in full and in order\<close>

lemma CreateEntries_itemwise:
  assumes "serves_itemwise (rpc_BatchCreateEntry A) step out"
  shows "CreateEntries A w es = (foldl step w (entriesToAPI es),
    map (\<lambda>r. statusFromAPI (r_Status r)) (step_results step out w (entriesToAPI es)), None)"
  using runBatch_itemwise [OF serves_itemwise_map [OF assms, of entryToAPI]]
  by (simp add: CreateEntries_def entriesToAPI_def foldl_map step_results_map)

lemma UpdateEntries_itemwise:
  assumes "serves_itemwise (rpc_BatchUpdateEntry A) step out"
  shows "UpdateEntries A w es = (foldl step w (entriesToAPI es),
    map (\<lambda>r. statusFromAPI (r_Status r)) (step_results step out w (entriesToAPI es)), None)"
  using runBatch_itemwise [OF serves_itemwise_map [OF assms, of entryToAPI]]
  by (simp add: UpdateEntries_def entriesToAPI_def foldl_map step_results_map)

lemma DeleteEntries_itemwise:
  assumes "serves_itemwise (rpc_BatchDeleteEntry A) step out"
  shows "DeleteEntries A w ids = (foldl step w ids, map statusFromAPI (step_results step out w ids), None)"
  using runBatch_itemwise [OF assms] by (simp add: DeleteEntries_def)

text \<open>The probe leaves the error paths of its create call untouched and reports a field exactly when
  the entry that comes back has lost it.\<close>

lemma GetUnsupportedFields_ok:
  assumes "rpc_BatchCreateEntry A w [unsupportedFieldsTestEntry td p] =
      (w1, Inr [\<lparr>r_Status = Some st, r_Entry = Some e\<rparr>])"
    and "api_Code st = 0 \<or> api_Code st = 6"
  shows "GetUnsupportedFields A w td p =
    Some (fst (rpc_BatchDeleteEntry A w1 [api_Id e]), Inr (unsupportedFieldsOf e))"
  using assms by (auto simp: GetUnsupportedFields_def codes_defs split: prod.splits)

end
