(* ===== verification/Entry_State.thy ===== *)
theory Entry_State
  imports Entries Entry_Api
begin

section \<open>Current and declared entries, and the plan to reconcile them (pkg/spireentry)\<close>

text \<open>
  The data the entry reconciler works on between listing and calling the server: the resources
  that declare entries with the status they will get (by.go), the entries state keyed by
  \<open>makeEntryKey\<close> (reconciler.go from \<open>entriesState\<close> on), and the loop over that state that
  decides what to delete, create and update (the middle of \<open>reconcile\<close>).

  A \<open>byObject\<close> is a pointer to a resource wrapper. It is modelled as a reference into the two
  slices of wrappers, \<open>byStore\<close>, together with the object metadata, which never changes.
\<close>

subsection \<open>Declaring resources (by.go)\<close>

record ClusterStaticEntry =
  bse_Resource :: crd_ClusterStaticEntry
  bse_NextStatus :: ClusterStaticEntryStatus

record ClusterSPIFFEID =
  bsi_Resource :: crd_ClusterSPIFFEID
  bsi_NextStatus :: ClusterSPIFFEIDStatus

datatype by_ref = ByStaticEntry nat | BySPIFFEID nat

record byObject =
  by_Ref :: by_ref
  by_Meta :: ObjectMeta

record byStore =
  bs_StaticEntries :: "ClusterStaticEntry list"
  bs_SPIFFEIDs :: "ClusterSPIFFEID list"

definition list_modify :: "nat \<Rightarrow> ('a \<Rightarrow> 'a) \<Rightarrow> 'a list \<Rightarrow> 'a list" where
  "list_modify i f xs = (if i < length xs then xs[i := f (xs ! i)] else xs)"

definition modify_static :: "nat \<Rightarrow> (ClusterStaticEntryStatus \<Rightarrow> ClusterStaticEntryStatus) \<Rightarrow> byStore \<Rightarrow> byStore" where
  "modify_static i f st =
     st\<lparr>bs_StaticEntries := list_modify i (\<lambda>c. c\<lparr>bse_NextStatus := f (bse_NextStatus c)\<rparr>) (bs_StaticEntries st)\<rparr>"

definition modify_spiffeid :: "nat \<Rightarrow> (ClusterSPIFFEIDStatus \<Rightarrow> ClusterSPIFFEIDStatus) \<Rightarrow> byStore \<Rightarrow> byStore" where
  "modify_spiffeid i f st =
     st\<lparr>bs_SPIFFEIDs := list_modify i (\<lambda>c. c\<lparr>bsi_NextStatus := f (bsi_NextStatus c)\<rparr>) (bs_SPIFFEIDs st)\<rparr>"

fun IncrementEntriesToSet :: "by_ref \<Rightarrow> byStore \<Rightarrow> byStore" where
  "IncrementEntriesToSet (ByStaticEntry i) st = st"
| "IncrementEntriesToSet (BySPIFFEID i) st =
     modify_spiffeid i (\<lambda>s. s\<lparr>st_EntriesToSet := st_EntriesToSet s + 1\<rparr>) st"

fun IncrementEntriesMasked :: "by_ref \<Rightarrow> byStore \<Rightarrow> byStore" where
  "IncrementEntriesMasked (ByStaticEntry i) st = modify_static i (\<lambda>s. s\<lparr>ses_Masked := True\<rparr>) st"
| "IncrementEntriesMasked (BySPIFFEID i) st =
     modify_spiffeid i (\<lambda>s. s\<lparr>st_EntriesMasked := st_EntriesMasked s + 1\<rparr>) st"

fun IncrementEntrySuccess :: "by_ref \<Rightarrow> byStore \<Rightarrow> byStore" where
  "IncrementEntrySuccess (ByStaticEntry i) st = modify_static i (\<lambda>s. s\<lparr>ses_Set := True\<rparr>) st"
| "IncrementEntrySuccess (BySPIFFEID i) st = st"

fun IncrementEntryFailures :: "by_ref \<Rightarrow> byStore \<Rightarrow> byStore" where
  "IncrementEntryFailures (ByStaticEntry i) st = st"
| "IncrementEntryFailures (BySPIFFEID i) st =
     modify_spiffeid i (\<lambda>s. s\<lparr>st_EntryFailures := st_EntryFailures s + 1\<rparr>) st"

subsection \<open>The entries state\<close>

record declaredEntry =
  de_Entry :: Entry
  de_By :: byObject

record entryState =
  es_Current :: "Entry list"
  es_Declared :: "declaredEntry list"

type_synonym entryKey = string
type_synonym entriesState = "(entryKey \<times> entryState) list"

text \<open>\<open>el_sha256hex\<close> is the hexadecimal SHA-256 digest of the bytes written to the hash.\<close>

record entry_libs =
  el_spiffeid :: spiffeid_lib
  el_sha256hex :: "string \<Rightarrow> string"

definition selector_less :: "Selector \<Rightarrow> Selector \<Rightarrow> bool" where
  "selector_less a b \<longleftrightarrow>
     (if s_Type a < s_Type b then True
      else if s_Type b < s_Type a then False
      else s_Value a < s_Value b)"

definition sortSelectors :: "Selector list \<Rightarrow> Selector list" where
  "sortSelectors unsorted = sort_by selector_less unsorted"

definition entryKey_bytes :: "spiffeid_lib \<Rightarrow> Entry \<Rightarrow> string" where
  "entryKey_bytes L e =
     ID_String L (e_SPIFFEID e) @ ID_String L (e_ParentID e) @
     concat (map (\<lambda>s. s_Type s @ s_Value s) (sortSelectors (e_Selectors e)))"

definition makeEntryKey :: "entry_libs \<Rightarrow> Entry \<Rightarrow> entryKey" where
  "makeEntryKey H e = el_sha256hex H (entryKey_bytes (el_spiffeid H) e)"

definition stateFor :: "entry_libs \<Rightarrow> entriesState \<Rightarrow> Entry \<Rightarrow> entryState" where
  "stateFor H es e =
     (case map_of es (makeEntryKey H e) of
        Some s \<Rightarrow> s
      | None \<Rightarrow> \<lparr>es_Current = [], es_Declared = []\<rparr>)"

definition AddCurrent :: "entry_libs \<Rightarrow> entriesState \<Rightarrow> Entry \<Rightarrow> entriesState" where
  "AddCurrent H es e =
     (let s = stateFor H es e in
      map_put (makeEntryKey H e) (s\<lparr>es_Current := es_Current s @ [e]\<rparr>) es)"

definition AddDeclared :: "entry_libs \<Rightarrow> entriesState \<Rightarrow> Entry \<Rightarrow> byObject \<Rightarrow> entriesState" where
  "AddDeclared H es e by =
     (let s = stateFor H es e in
      map_put (makeEntryKey H e) (s\<lparr>es_Declared := es_Declared s @ [\<lparr>de_Entry = e, de_By = by\<rparr>]\<rparr>) es)"

subsection \<open>Preference between declaring resources\<close>

definition UnixNano :: "Time \<Rightarrow> int" where
  "UnixNano t = wrap64 t"

definition objectCmp :: "byObject \<Rightarrow> byObject \<Rightarrow> int" where
  "objectCmp a b =
     (let creationDiff = wrap64 (UnixNano (om_CreationTimestamp (by_Meta a)) - UnixNano (om_CreationTimestamp (by_Meta b)));
          uidCmp = (if om_UID (by_Meta a) < om_UID (by_Meta b) then - 1
                    else if om_UID (by_Meta b) < om_UID (by_Meta a) then 1 else 0)
      in if creationDiff < 0 then - 1
         else if creationDiff > 0 then 1
         else case (om_DeletionTimestamp (by_Meta a), om_DeletionTimestamp (by_Meta b)) of
           (None, None) \<Rightarrow> uidCmp
         | (Some _, None) \<Rightarrow> 1
         | (None, Some _) \<Rightarrow> - 1
         | (Some da, Some db) \<Rightarrow>
             (let deleteDiff = wrap64 (UnixNano da - UnixNano db) in
              if deleteDiff < 0 then 1 else if deleteDiff > 0 then - 1 else uidCmp))"

abbreviation by_less :: "declaredEntry \<Rightarrow> declaredEntry \<Rightarrow> bool" where
  "by_less a b \<equiv> objectCmp (de_By a) (de_By b) < 0"

text \<open>\<open>sort.Slice\<close> is not stable; the model sorts by insertion. The two can differ for resources that compare as equal,
  which have the same age and UID.\<close>

definition sortDeclaredEntriesByPreference :: "declaredEntry list \<Rightarrow> declaredEntry list" where
  "sortDeclaredEntriesByPreference entries = sort_by by_less entries"

subsection \<open>Comparing a declared with a current entry\<close>

definition trustDomainsMatch :: "spiffeid_lib \<Rightarrow> TrustDomain list \<Rightarrow> TrustDomain list \<Rightarrow> bool" where
  "trustDomainsMatch L as bs \<longleftrightarrow>
     length as = length bs \<and>
     sort_by (\<lambda>a b. td_Compare L a b < 0) as = sort_by (\<lambda>a b. td_Compare L a b < 0) bs"

definition stringsMatch :: "string list \<Rightarrow> string list \<Rightarrow> bool" where
  "stringsMatch as bs \<longleftrightarrow> length as = length bs \<and> sort_Strings as = sort_Strings bs"

definition getOutdatedEntryFields :: "spiffeid_lib \<Rightarrow> Entry \<Rightarrow> Entry \<Rightarrow> Field set \<Rightarrow> Field list" where
  "getOutdatedEntryFields L newEntry oldEntry unsupportedFields =
     (if e_X509SVIDTTL oldEntry \<noteq> e_X509SVIDTTL newEntry then [X509SVIDTTL] else []) @
     (if e_JWTSVIDTTL oldEntry \<noteq> e_JWTSVIDTTL newEntry \<and> JWTSVIDTTLField \<notin> unsupportedFields
      then [JWTSVIDTTLField] else []) @
     (if \<not> trustDomainsMatch L (e_FederatesWith oldEntry) (e_FederatesWith newEntry)
      then [FederatesWithField] else []) @
     (if e_Admin oldEntry \<noteq> e_Admin newEntry then [AdminField] else []) @
     (if e_Downstream oldEntry \<noteq> e_Downstream newEntry then [DownstreamField] else []) @
     (if \<not> stringsMatch (e_DNSNames oldEntry) (e_DNSNames newEntry) then [DNSNamesField] else []) @
     (if e_Hint oldEntry \<noteq> e_Hint newEntry \<and> HintField \<notin> unsupportedFields then [HintField] else []) @
     (if e_StoreSVID oldEntry \<noteq> e_StoreSVID newEntry \<and> StoreSVIDField \<notin> unsupportedFields
      then [StoreSVIDField] else [])"

subsection \<open>Join tokens and projections\<close>

definition joinTokenSpiffePrefix :: string where
  "joinTokenSpiffePrefix = ''/spire/agent/join_token/''"

definition joinTokenSelectorType :: string where
  "joinTokenSelectorType = ''spiffe_id''"

definition isJoinTokenEntry :: "Entry \<Rightarrow> bool" where
  "isJoinTokenEntry e \<longleftrightarrow>
     HasPrefix (id_Path (e_ParentID e)) joinTokenSpiffePrefix \<and>
     list_ex (\<lambda>s. s_Type s = joinTokenSelectorType) (e_Selectors e)"

definition filterJoinTokenEntries :: "Entry list \<Rightarrow> Entry list" where
  "filterJoinTokenEntries entries = filter (\<lambda>e. \<not> isJoinTokenEntry e) entries"

definition entriesFromDeclaredEntries :: "declaredEntry list \<Rightarrow> Entry list" where
  "entriesFromDeclaredEntries declaredEntries = map de_Entry declaredEntries"

definition idsFromEntries :: "Entry list \<Rightarrow> string list" where
  "idsFromEntries entries = map e_ID entries"

subsection \<open>The loop over the state\<close>

text \<open>What the loop computes: the three slices, the status counters it changes on the way, and the
  number of UUIDs it has drawn. \<open>uuid n\<close> is the \<open>n\<close>-th value of \<open>uuid.New\<close>.\<close>

record plan =
  pl_toDelete :: "Entry list"
  pl_toCreate :: "declaredEntry list"
  pl_toUpdate :: "declaredEntry list"
  pl_Store :: byStore
  pl_UUIDs :: nat

definition planStep ::
  "spiffeid_lib \<Rightarrow> string \<Rightarrow> (nat \<Rightarrow> string) \<Rightarrow> Field set \<Rightarrow> plan \<Rightarrow> entryState \<Rightarrow> plan" where
  "planStep L entryIDPrefix uuid unsupportedFields p s =
     (case sortDeclaredEntriesByPreference (es_Declared s) of
        [] \<Rightarrow> p\<lparr>pl_toDelete := pl_toDelete p @ filterJoinTokenEntries (es_Current s)\<rparr>
      | preferredEntry # otherEntries \<Rightarrow>
          (let store = IncrementEntriesToSet (by_Ref (de_By preferredEntry)) (pl_Store p);
               store = foldl (\<lambda>st d. IncrementEntriesMasked (by_Ref (de_By d)) st) store otherEntries;
               p = p\<lparr>pl_Store := store\<rparr>
           in case es_Current s of
             [] \<Rightarrow>
               (if e_ID (de_Entry preferredEntry) = '''' \<and> entryIDPrefix \<noteq> '''' then
                  (let entry = (de_Entry preferredEntry)\<lparr>e_ID := entryIDPrefix @ uuid (pl_UUIDs p)\<rparr> in
                   p\<lparr>pl_toCreate := pl_toCreate p @ [preferredEntry\<lparr>de_Entry := entry\<rparr>],
                     pl_UUIDs := pl_UUIDs p + 1\<rparr>)
                else p\<lparr>pl_toCreate := pl_toCreate p @ [preferredEntry]\<rparr>)
           | current # rest \<Rightarrow>
               (let preferredEntry =
                      preferredEntry\<lparr>de_Entry := (de_Entry preferredEntry)\<lparr>e_ID := e_ID current\<rparr>\<rparr>;
                    p = (if getOutdatedEntryFields L (de_Entry preferredEntry) current unsupportedFields \<noteq> []
                         then p\<lparr>pl_toUpdate := pl_toUpdate p @ [preferredEntry]\<rparr> else p)
                in p\<lparr>pl_toDelete := pl_toDelete p @ filterJoinTokenEntries rest\<rparr>)))"

text \<open>The whole loop, over the states in the order in which \<open>range\<close> meets the keys, and the
  deletion of the entries that are marked for cleanup only.\<close>

definition makePlan ::
  "spiffeid_lib \<Rightarrow> string \<Rightarrow> (nat \<Rightarrow> string) \<Rightarrow> Field set \<Rightarrow> byStore \<Rightarrow> nat \<Rightarrow> entryState list \<Rightarrow> Entry list \<Rightarrow> plan" where
  "makePlan L entryIDPrefix uuid unsupportedFields store n states deleteOnlyEntries =
     (let p = foldl (planStep L entryIDPrefix uuid unsupportedFields)
                \<lparr>pl_toDelete = [], pl_toCreate = [], pl_toUpdate = [], pl_Store = store, pl_UUIDs = n\<rparr> states
      in p\<lparr>pl_toDelete := pl_toDelete p @ deleteOnlyEntries\<rparr>)"

section \<open>Keys\<close>

text \<open>The comparison of sortSelectors makes the selectors a linear order, so that the sorting of the library
  and its lemmas apply to them.\<close>

instantiation Selector_ext :: (linorder) linorder
begin

definition less_eq_Selector_ext :: "'a Selector_ext \<Rightarrow> 'a Selector_ext \<Rightarrow> bool" where
  "a \<le> b \<longleftrightarrow> s_Type a < s_Type b \<or> s_Type a = s_Type b \<and>
     (s_Value a < s_Value b \<or> s_Value a = s_Value b \<and> Selector.more a \<le> Selector.more b)"

definition less_Selector_ext :: "'a Selector_ext \<Rightarrow> 'a Selector_ext \<Rightarrow> bool" where
  "a < b \<longleftrightarrow> (a :: 'a Selector_ext) \<le> b \<and> \<not> b \<le> a"

instance
proof
  fix a b c :: "'a Selector_ext"
  show "a < b \<longleftrightarrow> a \<le> b \<and> \<not> b \<le> a" by (rule less_Selector_ext_def)
  show "a \<le> a" by (simp add: less_eq_Selector_ext_def)
  show "a \<le> b \<Longrightarrow> b \<le> c \<Longrightarrow> a \<le> c" unfolding less_eq_Selector_ext_def by (elim disjE conjE) auto
  show "a \<le> b \<Longrightarrow> b \<le> a \<Longrightarrow> a = b" unfolding less_eq_Selector_ext_def by (elim disjE conjE) auto
  show "a \<le> b \<or> b \<le> a" by (auto simp: less_eq_Selector_ext_def not_less)
qed

end

lemma selector_less_iff: "selector_less a b \<longleftrightarrow> a < b"
  by (auto simp: selector_less_def less_Selector_ext_def less_eq_Selector_ext_def)

interpretation selector_order: strict_total_order UNIV selector_less
  by unfold_locales (auto simp: selector_less_iff)

lemma sortSelectors_sort: "sortSelectors ss = sort ss"
  using selector_order.sorted_sort_by [of ss]
  by (intro properties_for_sort [symmetric]) (simp_all add: sortSelectors_def selector_less_iff not_less)

lemma sortSelectors_cong: "mset ss = mset ss' \<Longrightarrow> sortSelectors ss = sortSelectors ss'"
  unfolding sortSelectors_sort by (rule properties_for_sort) simp_all

text \<open>The key reads the SPIFFE ID, the parent ID and the selectors up to their order, and nothing else.\<close>

definition same_identity :: "Entry \<Rightarrow> Entry \<Rightarrow> bool" where
  "same_identity a b \<longleftrightarrow> e_SPIFFEID a = e_SPIFFEID b \<and> e_ParentID a = e_ParentID b \<and>
     mset (e_Selectors a) = mset (e_Selectors b)"

lemma same_identity_key: "same_identity a b \<Longrightarrow> makeEntryKey H a = makeEntryKey H b"
  using sortSelectors_cong [of "e_Selectors a" "e_Selectors b"]
  by (simp add: same_identity_def makeEntryKey_def entryKey_bytes_def)

lemma makeEntryKey_update [simp]:
  "makeEntryKey H (e\<lparr>e_ID := i\<rparr>) = makeEntryKey H e"
  "makeEntryKey H (e\<lparr>e_X509SVIDTTL := t\<rparr>) = makeEntryKey H e"
  "makeEntryKey H (e\<lparr>e_JWTSVIDTTL := t\<rparr>) = makeEntryKey H e"
  by (simp_all add: makeEntryKey_def entryKey_bytes_def)

lemma isJoinTokenEntry_update [simp]:
  "isJoinTokenEntry (e\<lparr>e_ID := i\<rparr>) = isJoinTokenEntry e"
  "isJoinTokenEntry (e\<lparr>e_X509SVIDTTL := t\<rparr>) = isJoinTokenEntry e"
  "isJoinTokenEntry (e\<lparr>e_JWTSVIDTTL := t\<rparr>) = isJoinTokenEntry e"
  by (simp_all add: isJoinTokenEntry_def)

section \<open>Preference\<close>

text \<open>Timestamps of Kubernetes objects lie between 1970 and 2262, where differences of
  nanoseconds do not overflow.\<close>

definition sane_time :: "Time \<Rightarrow> bool" where
  "sane_time t \<longleftrightarrow> 0 \<le> t \<and> t < 2 ^ 63"

definition sane_by :: "byObject \<Rightarrow> bool" where
  "sane_by b \<longleftrightarrow> sane_time (om_CreationTimestamp (by_Meta b)) \<and>
     (case om_DeletionTimestamp (by_Meta b) of None \<Rightarrow> True | Some t \<Rightarrow> sane_time t)"

text \<open>The documented order: older first, then those that are not being deleted, then those that are
  deleted later, then by UID.\<close>

fun later_deletion :: "Time option \<Rightarrow> Time option \<Rightarrow> bool" where
  "later_deletion None (Some t) = True"
| "later_deletion (Some s) (Some t) = (t < s)"
| "later_deletion _ None = False"

definition prefers :: "ObjectMeta \<Rightarrow> ObjectMeta \<Rightarrow> bool" where
  "prefers a b \<longleftrightarrow>
     om_CreationTimestamp a < om_CreationTimestamp b \<or>
     om_CreationTimestamp a = om_CreationTimestamp b \<and>
       (later_deletion (om_DeletionTimestamp a) (om_DeletionTimestamp b) \<or>
        om_DeletionTimestamp a = om_DeletionTimestamp b \<and> om_UID a < om_UID b)"

lemma wrap64_zero: "wrap64 0 = 0"
  by (simp add: wrap64_def)

lemma sane_time_diff:
  assumes "sane_time s" "sane_time t"
  shows "wrap64 (UnixNano s - UnixNano t) = s - t"
proof -
  have "wrap64 s = s" "wrap64 t = t" "wrap64 (s - t) = s - t"
    using assms by (simp_all add: sane_time_def int64_def)
  then show ?thesis by (simp add: UnixNano_def)
qed

lemma objectCmp_prefers:
  assumes "sane_by a" "sane_by b"
  shows "objectCmp a b < 0 \<longleftrightarrow> prefers (by_Meta a) (by_Meta b)"
    and "objectCmp a b > 0 \<longleftrightarrow> prefers (by_Meta b) (by_Meta a)"
  using assms
  by (auto simp: objectCmp_def prefers_def sane_by_def sane_time_diff Let_def wrap64_zero split: option.splits)

lemma later_deletion_asym: "later_deletion x y \<Longrightarrow> \<not> later_deletion y x"
  by (cases "(x, y)" rule: later_deletion.cases) auto

lemma later_deletion_irrefl [simp]: "\<not> later_deletion x x"
  by (cases x) auto

lemma later_deletion_total: "\<not> later_deletion x y \<Longrightarrow> \<not> later_deletion y x \<Longrightarrow> x = y"
  by (cases x; cases y) auto

lemma later_deletion_trans: "later_deletion x y \<Longrightarrow> later_deletion y z \<Longrightarrow> later_deletion x z"
  by (cases x; cases y; cases z) auto

lemma prefers_asym: "prefers a b \<Longrightarrow> \<not> prefers b a"
  by (auto simp: prefers_def dest: later_deletion_asym)

lemma not_prefers:
  "\<not> prefers a b \<longleftrightarrow>
     om_CreationTimestamp b < om_CreationTimestamp a \<or>
     om_CreationTimestamp a = om_CreationTimestamp b \<and>
       (later_deletion (om_DeletionTimestamp b) (om_DeletionTimestamp a) \<or>
        om_DeletionTimestamp a = om_DeletionTimestamp b \<and> om_UID b \<le> om_UID a)"
  using later_deletion_asym later_deletion_total
  by (auto simp: prefers_def not_less)

lemma prefers_neg_trans: "\<not> prefers a b \<Longrightarrow> \<not> prefers b c \<Longrightarrow> \<not> prefers a c"
  unfolding not_prefers by (elim disjE conjE) (auto dest: later_deletion_trans)

lemma prefers_total: "\<not> prefers a b \<Longrightarrow> \<not> prefers b a \<Longrightarrow> om_UID a = om_UID b"
  unfolding not_prefers using later_deletion_asym by auto

interpretation preference: strict_weak_order "{d. sane_by (de_By d)}" by_less
proof unfold_locales
  fix a b c :: declaredEntry
  show "a \<in> {d. sane_by (de_By d)} \<Longrightarrow> b \<in> {d. sane_by (de_By d)} \<Longrightarrow> by_less a b \<Longrightarrow> \<not> by_less b a"
    using prefers_asym by (auto simp: objectCmp_prefers)
  show "a \<in> {d. sane_by (de_By d)} \<Longrightarrow> b \<in> {d. sane_by (de_By d)} \<Longrightarrow> c \<in> {d. sane_by (de_By d)} \<Longrightarrow>
      \<not> by_less a b \<Longrightarrow> \<not> by_less b c \<Longrightarrow> \<not> by_less a c"
    using prefers_neg_trans by (auto simp: objectCmp_prefers)
qed

lemma mset_sortDeclared [simp]: "mset (sortDeclaredEntriesByPreference ds) = mset ds"
  by (simp add: sortDeclaredEntriesByPreference_def)

lemma set_sortDeclared [simp]: "set (sortDeclaredEntriesByPreference ds) = set ds"
  by (simp add: sortDeclaredEntriesByPreference_def)

lemma sortDeclared_Nil [simp]: "sortDeclaredEntriesByPreference ds = [] \<longleftrightarrow> ds = []"
  by (simp add: sortDeclaredEntriesByPreference_def)

lemma sortDeclared_empty [simp]: "sortDeclaredEntriesByPreference [] = []"
  by simp

abbreviation preferred :: "declaredEntry list \<Rightarrow> declaredEntry" where
  "preferred ds \<equiv> hd (sortDeclaredEntriesByPreference ds)"

lemma preferred_in: "ds \<noteq> [] \<Longrightarrow> preferred ds \<in> set ds"
  by (metis hd_in_set set_sortDeclared sortDeclared_Nil)

lemma preferred_least:
  assumes "\<forall>d\<in>set ds. sane_by (de_By d)" "d \<in> set ds"
  shows "\<not> prefers (by_Meta (de_By d)) (by_Meta (de_By (preferred ds)))"
proof -
  have "ds \<noteq> []" using assms(2) by auto
  then have "sane_by (de_By (preferred ds))" "sane_by (de_By d)" using assms preferred_in by auto
  moreover have "\<not> by_less d (preferred ds)"
    unfolding sortDeclaredEntriesByPreference_def
    using assms by (intro preference.sort_by_hd_least) auto
  ultimately show ?thesis by (simp add: objectCmp_prefers)
qed

section \<open>Comparison\<close>

text \<open>What go-spiffe documents of \<open>Compare\<close>: it orders trust domains by name.\<close>

definition compares_names :: "spiffeid_lib \<Rightarrow> bool" where
  "compares_names L \<longleftrightarrow> (\<forall>a b. td_Compare L a b < 0 \<longleftrightarrow> td_Name a < td_Name b)"

interpretation td_order: strict_total_order UNIV "\<lambda>a b. td_Name a < td_Name b"
  by unfold_locales (auto intro: TrustDomain.expand)

lemma trustDomainsMatch_iff:
  assumes "compares_names L"
  shows "trustDomainsMatch L as bs \<longleftrightarrow> mset as = mset bs"
proof -
  have eq: "(\<lambda>a b. td_Compare L a b < 0) = (\<lambda>a b. td_Name a < td_Name b)"
    using assms by (simp add: compares_names_def fun_eq_iff)
  show ?thesis
    unfolding trustDomainsMatch_def eq using td_order.sort_by_eq_iff_mset [of as bs] mset_eq_length [of as bs]
    by auto
qed

lemma stringsMatch_iff: "stringsMatch as bs \<longleftrightarrow> mset as = mset bs"
  unfolding stringsMatch_def using string_order.sort_by_eq_iff_mset [of as bs] mset_eq_length [of as bs]
  by auto

lemma trustDomainsMatch_refl [simp]: "trustDomainsMatch L as as"
  by (simp add: trustDomainsMatch_def)

lemma stringsMatch_refl [simp]: "stringsMatch as as"
  by (simp add: stringsMatch_def)

lemma getOutdatedEntryFields_refl [simp]: "getOutdatedEntryFields L e e U = []"
  by (simp add: getOutdatedEntryFields_def)

lemma getOutdatedEntryFields_Nil_iff:
  assumes "compares_names L"
  shows "getOutdatedEntryFields L n old U = [] \<longleftrightarrow>
    e_X509SVIDTTL old = e_X509SVIDTTL n \<and>
    (e_JWTSVIDTTL old = e_JWTSVIDTTL n \<or> JWTSVIDTTLField \<in> U) \<and>
    mset (e_FederatesWith old) = mset (e_FederatesWith n) \<and>
    e_Admin old = e_Admin n \<and> e_Downstream old = e_Downstream n \<and>
    mset (e_DNSNames old) = mset (e_DNSNames n) \<and>
    (e_Hint old = e_Hint n \<or> HintField \<in> U) \<and>
    (e_StoreSVID old = e_StoreSVID n \<or> StoreSVIDField \<in> U)"
  using assms by (auto simp: getOutdatedEntryFields_def trustDomainsMatch_iff stringsMatch_iff)

text \<open>An entry as a server keeps it, with the TTLs of the wire.\<close>

definition stored :: "Entry \<Rightarrow> Entry" where
  "stored e = e\<lparr>e_X509SVIDTTL := ttl_wire (e_X509SVIDTTL e), e_JWTSVIDTTL := ttl_wire (e_JWTSVIDTTL e)\<rparr>"

lemma stored_simps [simp]:
  "e_ID (stored e) = e_ID e" "makeEntryKey H (stored e) = makeEntryKey H e"
  "isJoinTokenEntry (stored e) = isJoinTokenEntry e" "e_Hint (stored e) = e_Hint e"
  by (simp_all add: stored_def)

definition ttls_ok :: "Entry \<Rightarrow> bool" where
  "ttls_ok e \<longleftrightarrow> ttl_ok (e_X509SVIDTTL e) \<and> ttl_ok (e_JWTSVIDTTL e)"

lemma stored_ttls_ok: "ttls_ok e \<Longrightarrow> stored e = e"
  by (simp add: stored_def ttls_ok_def ttl_wire_ok)

lemma getOutdatedEntryFields_stored:
  "getOutdatedEntryFields L e (stored e) U =
     (if ttl_ok (e_X509SVIDTTL e) then [] else [X509SVIDTTL]) @
     (if ttl_ok (e_JWTSVIDTTL e) \<or> JWTSVIDTTLField \<in> U then [] else [JWTSVIDTTLField])"
  by (auto simp: getOutdatedEntryFields_def stored_def ttl_wire_eq_iff)

section \<open>Building the state\<close>

lemma AddCurrent_lookup:
  "map_of (AddCurrent H es e) = (map_of es)(makeEntryKey H e \<mapsto>
     (stateFor H es e)\<lparr>es_Current := es_Current (stateFor H es e) @ [e]\<rparr>)"
  by (simp add: AddCurrent_def Let_def map_of_map_put)

lemma AddDeclared_lookup:
  "map_of (AddDeclared H es e by) = (map_of es)(makeEntryKey H e \<mapsto>
     (stateFor H es e)\<lparr>es_Declared := es_Declared (stateFor H es e) @ [\<lparr>de_Entry = e, de_By = by\<rparr>]\<rparr>)"
  by (simp add: AddDeclared_def Let_def map_of_map_put)

text \<open>The state that the current entries \<open>cs\<close> and the declared entries \<open>ds\<close> give.\<close>

definition buildState :: "entry_libs \<Rightarrow> Entry list \<Rightarrow> declaredEntry list \<Rightarrow> entriesState" where
  "buildState H cs ds =
     foldl (\<lambda>es d. AddDeclared H es (de_Entry d) (de_By d)) (foldl (AddCurrent H) [] cs) ds"

abbreviation current_at :: "entry_libs \<Rightarrow> entryKey \<Rightarrow> Entry list \<Rightarrow> Entry list" where
  "current_at H k \<equiv> filter (\<lambda>e. makeEntryKey H e = k)"

abbreviation declared_at :: "entry_libs \<Rightarrow> entryKey \<Rightarrow> declaredEntry list \<Rightarrow> declaredEntry list" where
  "declared_at H k \<equiv> filter (\<lambda>d. makeEntryKey H (de_Entry d) = k)"

definition state_matches :: "entry_libs \<Rightarrow> entriesState \<Rightarrow> Entry list \<Rightarrow> declaredEntry list \<Rightarrow> bool" where
  "state_matches H es cs ds \<longleftrightarrow> distinct (map fst es) \<and>
     (\<forall>k. map_of es k =
        (if current_at H k cs = [] \<and> declared_at H k ds = [] then None
         else Some \<lparr>es_Current = current_at H k cs, es_Declared = declared_at H k ds\<rparr>))"

lemma state_matches_stateFor:
  "state_matches H es cs ds \<Longrightarrow> stateFor H es e =
     \<lparr>es_Current = current_at H (makeEntryKey H e) cs, es_Declared = declared_at H (makeEntryKey H e) ds\<rparr>"
  unfolding state_matches_def stateFor_def by (auto split: option.splits)

lemma state_matches_AddCurrent:
  assumes "state_matches H es cs ds"
  shows "state_matches H (AddCurrent H es e) (cs @ [e]) ds"
proof -
  have "distinct (map fst (AddCurrent H es e))"
    using assms by (simp add: AddCurrent_def Let_def state_matches_def distinct_map_put)
  then show ?thesis
    using assms state_matches_stateFor [OF assms, of e]
    by (auto simp: state_matches_def AddCurrent_lookup)
qed

lemma state_matches_AddDeclared:
  assumes "state_matches H es cs ds"
  shows "state_matches H (AddDeclared H es e by) cs (ds @ [\<lparr>de_Entry = e, de_By = by\<rparr>])"
proof -
  have "distinct (map fst (AddDeclared H es e by))"
    using assms by (simp add: AddDeclared_def Let_def state_matches_def distinct_map_put)
  then show ?thesis
    using assms state_matches_stateFor [OF assms, of e]
    by (auto simp: state_matches_def AddDeclared_lookup)
qed

lemma state_matches_AddCurrents:
  "state_matches H es cs ds \<Longrightarrow> state_matches H (foldl (AddCurrent H) es xs) (cs @ xs) ds"
proof (induction xs arbitrary: es cs)
  case (Cons x xs)
  from Cons.IH [OF state_matches_AddCurrent [OF Cons.prems]] show ?case by simp
qed simp

lemma state_matches_AddDeclareds:
  "state_matches H es cs ds \<Longrightarrow>
     state_matches H (foldl (\<lambda>es d. AddDeclared H es (de_Entry d) (de_By d)) es xs) cs (ds @ xs)"
proof (induction xs arbitrary: es ds)
  case (Cons x xs)
  have "\<lparr>de_Entry = de_Entry x, de_By = de_By x\<rparr> = x" by simp
  with Cons.IH [OF state_matches_AddDeclared [OF Cons.prems, of "de_Entry x" "de_By x"]] show ?case
    by (simp only: foldl_Cons append.assoc append.simps)
qed simp

lemma state_matches_empty: "state_matches H [] [] []"
  by (simp add: state_matches_def)

lemma state_matches_buildState: "state_matches H (buildState H cs ds) cs ds"
  unfolding buildState_def
  using state_matches_AddDeclareds [OF state_matches_AddCurrents [OF state_matches_empty]] by simp

section \<open>Properties\<close>

text \<open>C8: the entry that is set for a key is one of those declared for it, and no resource that declares an
  entry for the key is preferred to the one that declares it: none is older, none of the same age is less
  doomed, and none of the same age and deletion has a smaller UID. Where UIDs identify resources, the
  resource does not depend on the order in which the entries were declared.\<close>

theorem sortDeclaredEntriesByPreference_first:
  assumes "ds \<noteq> []" "\<forall>d\<in>set ds. sane_by (de_By d)"
  shows "preferred ds \<in> set ds \<and>
    (\<forall>d\<in>set ds. \<not> prefers (by_Meta (de_By d)) (by_Meta (de_By (preferred ds)))) \<and>
    (\<forall>ds'. mset ds' = mset ds \<and> (\<forall>a\<in>set ds. \<forall>b\<in>set ds. om_UID (by_Meta (de_By a)) = om_UID (by_Meta (de_By b)) \<longrightarrow>
        de_By a = de_By b) \<longrightarrow> de_By (preferred ds') = de_By (preferred ds))"
proof (intro conjI allI impI ballI)
  show "preferred ds \<in> set ds" using assms(1) by (rule preferred_in)
  show "\<not> prefers (by_Meta (de_By d)) (by_Meta (de_By (preferred ds)))" if "d \<in> set ds" for d
    using assms(2) that by (rule preferred_least)
  fix ds'
  assume a: "mset ds' = mset ds \<and> (\<forall>a\<in>set ds. \<forall>b\<in>set ds.
      om_UID (by_Meta (de_By a)) = om_UID (by_Meta (de_By b)) \<longrightarrow> de_By a = de_By b)"
  then have s: "set ds' = set ds" by (metis set_mset_mset)
  have in_ds: "preferred ds \<in> set ds" "preferred ds' \<in> set ds"
    using assms(1) s preferred_in [of ds] preferred_in [of ds'] by (auto simp flip: set_empty)
  have "\<not> prefers (by_Meta (de_By (preferred ds))) (by_Meta (de_By (preferred ds')))"
    "\<not> prefers (by_Meta (de_By (preferred ds'))) (by_Meta (de_By (preferred ds)))"
    using in_ds assms(2) s by (simp_all add: preferred_least)
  then show "de_By (preferred ds') = de_By (preferred ds)" using a in_ds prefers_total by blast
qed

definition sample_by :: "string \<Rightarrow> Time \<Rightarrow> byObject" where
  "sample_by uid t = \<lparr>by_Ref = BySPIFFEID 0, by_Meta = \<lparr>om_Name = uid, om_Namespace = '''', om_UID = uid,
     om_ResourceVersion = '''', om_CreationTimestamp = t, om_DeletionTimestamp = None, om_Rest = ''''\<rparr>\<rparr>"

theorem sortDeclaredEntriesByPreference_first_witness:
  "let ds = [\<lparr>de_Entry = sample_entry, de_By = sample_by ''a'' 7\<rparr>, \<lparr>de_Entry = sample_entry, de_By = sample_by ''b'' 5\<rparr>]
   in preferred ds \<in> set ds"
proof -
  let ?ds = "[\<lparr>de_Entry = sample_entry, de_By = sample_by ''a'' 7\<rparr>, \<lparr>de_Entry = sample_entry, de_By = sample_by ''b'' 5\<rparr>]"
  have "\<forall>d\<in>set ?ds. sane_by (de_By d)" by code_simp
  with sortDeclaredEntriesByPreference_first [of ?ds] show ?thesis by simp
qed

text \<open>The printed form of a SPIFFE ID has the scheme and no further colon: go-spiffe accepts none in a trust domain
  name or a path. So in two printed IDs one after the other the end of the first can be found.\<close>

definition spiffe_uri :: "spiffeid_lib \<Rightarrow> ID \<Rightarrow> bool" where
  "spiffe_uri L i \<longleftrightarrow> take 7 (ID_String L i) = ''spiffe:'' \<and> CHR '':'' \<notin> set (drop 7 (ID_String L i))"

lemma uri_prefix:
  assumes "spiffe_uri L i" "spiffe_uri L j" "spiffe_uri L i'" "spiffe_uri L j'"
    and eq: "ID_String L i @ ID_String L j @ s = ID_String L i' @ ID_String L j' @ s'"
  shows "ID_String L i = ID_String L i'"
proof -
  have str: "ID_String L x = ''spiffe:'' @ drop 7 (ID_String L x)" "CHR '':'' \<notin> set (drop 7 (ID_String L x))"
    if "spiffe_uri L x" for x
    using that append_take_drop_id [of 7 "ID_String L x"] by (simp_all add: spiffe_uri_def)
  obtain r q r' q' where r: "ID_String L i = ''spiffe:'' @ r" "CHR '':'' \<notin> set r" "ID_String L j = ''spiffe:'' @ q"
    "ID_String L i' = ''spiffe:'' @ r'" "CHR '':'' \<notin> set r'" "ID_String L j' = ''spiffe:'' @ q'"
    using str [OF assms(1)] str [OF assms(2)] str [OF assms(3)] str [OF assms(4)] by metis
  let ?w = "takeWhile (\<lambda>c. c \<noteq> CHR '':'')"
  have first: "?w (x @ ''spiffe:'' @ y) = x @ ''spiffe''" if "CHR '':'' \<notin> set x" for x y
    using that by (induction x) auto
  have "r @ ''spiffe:'' @ q @ s = r' @ ''spiffe:'' @ q' @ s'" using eq unfolding r by simp
  from arg_cong [OF this, of ?w] have "r @ ''spiffe'' = r' @ ''spiffe''" unfolding first [OF r(2)] first [OF r(5)] .
  with r show ?thesis by simp
qed

lemma same_shape_selectors:
  fixes xs ys :: "Selector list"
  assumes "list_all2 (\<lambda>s t. length (s_Type s) = length (s_Type t) \<and> length (s_Value s) = length (s_Value t)) xs ys"
    and "concat (map (\<lambda>s. s_Type s @ s_Value s) xs) = concat (map (\<lambda>s. s_Type s @ s_Value s) ys)"
  shows "xs = ys"
  using assms by (induction rule: list_all2_induct) (auto intro: Selector.equality)

lemma sortSelectors_inj: "sortSelectors xs = sortSelectors ys \<Longrightarrow> mset xs = mset ys"
  unfolding sortSelectors_sort by (metis mset_sort)

text \<open>C11: what the key of an entry identifies. Entries that agree in SPIFFE ID, parent ID and selectors, in any
  order, have the same key, whatever their other fields are. Conversely, where the hash does not collide on the
  two, entries with the same key have the same SPIFFE ID; they have the same parent ID if they have the same
  selectors; and they have the same selectors, up to order, if they have the same parent ID and the sorted
  selectors have types and values of the same lengths. (IDs are valid and print as SPIFFE IDs do. Without the
  conditions on the selectors the parent ID and the selectors can run into one another.)\<close>

theorem makeEntryKey_identity:
  assumes "inj_on (el_sha256hex H) {entryKey_bytes (el_spiffeid H) a, entryKey_bytes (el_spiffeid H) b}"
    and "\<forall>i\<in>{e_SPIFFEID a, e_ParentID a, e_SPIFFEID b, e_ParentID b}. valid_ID (el_spiffeid H) i \<and> spiffe_uri (el_spiffeid H) i"
  shows "(same_identity a b \<longrightarrow> makeEntryKey H a = makeEntryKey H b) \<and>
    (makeEntryKey H a = makeEntryKey H b \<longrightarrow>
       e_SPIFFEID a = e_SPIFFEID b \<and>
       (mset (e_Selectors a) = mset (e_Selectors b) \<longrightarrow> e_ParentID a = e_ParentID b) \<and>
       (e_ParentID a = e_ParentID b \<and>
        list_all2 (\<lambda>s t. length (s_Type s) = length (s_Type t) \<and> length (s_Value s) = length (s_Value t))
          (sortSelectors (e_Selectors a)) (sortSelectors (e_Selectors b)) \<longrightarrow> mset (e_Selectors a) = mset (e_Selectors b)))"
proof -
  let ?L = "el_spiffeid H"
  have str: "i = j" if "ID_String ?L i = ID_String ?L j" "valid_ID ?L i" "valid_ID ?L j" for i j
    using that unfolding valid_ID_def by (metis sum.inject(2))
  have "e_SPIFFEID a = e_SPIFFEID b \<and>
      (mset (e_Selectors a) = mset (e_Selectors b) \<longrightarrow> e_ParentID a = e_ParentID b) \<and>
      (e_ParentID a = e_ParentID b \<and>
       list_all2 (\<lambda>s t. length (s_Type s) = length (s_Type t) \<and> length (s_Value s) = length (s_Value t))
         (sortSelectors (e_Selectors a)) (sortSelectors (e_Selectors b)) \<longrightarrow> mset (e_Selectors a) = mset (e_Selectors b))"
    if key: "makeEntryKey H a = makeEntryKey H b"
  proof -
    have eq: "entryKey_bytes ?L a = entryKey_bytes ?L b" using key inj_on_eq_iff [OF assms(1)] by (simp add: makeEntryKey_def)
    have ids: "ID_String ?L (e_SPIFFEID a) = ID_String ?L (e_SPIFFEID b)"
      by (rule uri_prefix [OF _ _ _ _ eq [unfolded entryKey_bytes_def]]) (use assms(2) in auto)
    then have rest: "ID_String ?L (e_ParentID a) @ concat (map (\<lambda>s. s_Type s @ s_Value s) (sortSelectors (e_Selectors a))) =
        ID_String ?L (e_ParentID b) @ concat (map (\<lambda>s. s_Type s @ s_Value s) (sortSelectors (e_Selectors b)))"
      using eq by (simp add: entryKey_bytes_def)
    show ?thesis
    proof (intro conjI impI)
      show "e_SPIFFEID a = e_SPIFFEID b" using str [OF ids] assms(2) by simp
      show "e_ParentID a = e_ParentID b" if "mset (e_Selectors a) = mset (e_Selectors b)"
        using rest sortSelectors_cong [OF that] str [of "e_ParentID a" "e_ParentID b"] assms(2) by simp
      show "mset (e_Selectors a) = mset (e_Selectors b)"
        if "e_ParentID a = e_ParentID b \<and> list_all2 (\<lambda>s t. length (s_Type s) = length (s_Type t) \<and>
          length (s_Value s) = length (s_Value t)) (sortSelectors (e_Selectors a)) (sortSelectors (e_Selectors b))"
        using that rest by (intro sortSelectors_inj same_shape_selectors) auto
    qed
  qed
  then show ?thesis using same_identity_key by blast
qed

text \<open>Two workloads of the same identity on two nodes.\<close>

theorem makeEntryKey_identity_witness:
  "makeEntryKey \<lparr>el_spiffeid = ref_spiffeid, el_sha256hex = (\<lambda>s. s)\<rparr> sample_entry \<noteq>
   makeEntryKey \<lparr>el_spiffeid = ref_spiffeid, el_sha256hex = (\<lambda>s. s)\<rparr>
     (sample_entry\<lparr>e_ParentID := ID (TrustDomain ''td'') ''/n2'', e_Hint := ''x''\<rparr>)"
proof
  let ?H = "\<lparr>el_spiffeid = ref_spiffeid, el_sha256hex = (\<lambda>s. s)\<rparr>"
  let ?b = "sample_entry\<lparr>e_ParentID := ID (TrustDomain ''td'') ''/n2'', e_Hint := ''x''\<rparr>"
  assume key: "makeEntryKey ?H sample_entry = makeEntryKey ?H ?b"
  have "inj_on (el_sha256hex ?H) {entryKey_bytes (el_spiffeid ?H) sample_entry, entryKey_bytes (el_spiffeid ?H) ?b}" by simp
  moreover have "\<forall>i\<in>{e_SPIFFEID sample_entry, e_ParentID sample_entry, e_SPIFFEID ?b, e_ParentID ?b}.
      valid_ID (el_spiffeid ?H) i \<and> spiffe_uri (el_spiffeid ?H) i"
    by (simp add: sample_entry_def spiffeid_sample_simps) (simp add: spiffe_uri_def ref_spiffeid_def)
  ultimately have "e_ParentID sample_entry = e_ParentID ?b" using makeEntryKey_identity [of ?H sample_entry ?b] key by simp
  then show False by (simp add: sample_entry_def)
qed

text \<open>C13: the fields of the key are hashed without separators, so entries of different identity can share a
  key: whatever the hash is, moving a letter from the end of the parent ID to the start of a selector type
  does not change it.\<close>

theorem makeEntryKey_ambiguous:
  "\<exists>a b. valid_entry ref_spiffeid a \<and> valid_entry ref_spiffeid b \<and> \<not> same_identity a b \<and>
     (\<forall>h. makeEntryKey \<lparr>el_spiffeid = ref_spiffeid, el_sha256hex = h\<rparr> a =
          makeEntryKey \<lparr>el_spiffeid = ref_spiffeid, el_sha256hex = h\<rparr> b)"
proof -
  let ?a = "sample_entry\<lparr>e_ParentID := ID (TrustDomain ''td'') ''/nx'', e_Selectors := [\<lparr>s_Type = ''k8s'', s_Value = ''v''\<rparr>]\<rparr>"
  let ?b = "sample_entry\<lparr>e_ParentID := ID (TrustDomain ''td'') ''/n'', e_Selectors := [\<lparr>s_Type = ''xk8s'', s_Value = ''v''\<rparr>]\<rparr>"
  have "valid_entry ref_spiffeid ?a" "valid_entry ref_spiffeid ?b"
    by (simp_all add: valid_entry_def sample_entry_def spiffeid_sample_simps valid_selector_def ContainsChar_def)
  moreover have "\<not> same_identity ?a ?b" by (simp add: same_identity_def)
  moreover have "entryKey_bytes ref_spiffeid ?a = entryKey_bytes ref_spiffeid ?b" by code_simp
  ultimately show ?thesis by (intro exI [of _ ?a] exI [of _ ?b]) (simp add: makeEntryKey_def)
qed

text \<open>C12: entries rendered for two pods whose UIDs have the same length but differ never share a key, when their
  ClusterSPIFFEIDs add no workload selectors and the hash does not collide on the two.\<close>

theorem pod_entries_distinct_keys:
  assumes "renderPodEntry L spec node pod eps td cn cd pt = Inr e"
    and "renderPodEntry L spec' node' pod' eps' td cn cd pt = Inr e'"
    and "ps_WorkloadSelectorTemplates spec = []" "ps_WorkloadSelectorTemplates spec' = []"
    and "length (om_UID (pod_Meta pod)) = length (om_UID (pod_Meta pod'))" "om_UID (pod_Meta pod) \<noteq> om_UID (pod_Meta pod')"
    and "inj_on (el_sha256hex H) {entryKey_bytes (el_spiffeid H) e, entryKey_bytes (el_spiffeid H) e'}"
  shows "makeEntryKey H e \<noteq> makeEntryKey H e'"
proof -
  have sel: "e_Selectors x = [pod_selector p]"
    if "renderPodEntry L s n p q td cn cd pt = Inr x" "ps_WorkloadSelectorTemplates s = []" for s n p q x
    using that by (auto elim: renderPodEntry_cases)
  have "\<exists>u. entryKey_bytes M x = u @ om_UID (pod_Meta p)" if "e_Selectors x = [pod_selector p]" for M x p
    using that by (intro exI [of _ "ID_String M (e_SPIFFEID x) @ ID_String M (e_ParentID x) @ ''k8spod-uid:''"])
      (simp add: entryKey_bytes_def sortSelectors_def pod_selector_def)
  then obtain u u' where "entryKey_bytes (el_spiffeid H) e = u @ om_UID (pod_Meta pod)"
    "entryKey_bytes (el_spiffeid H) e' = u' @ om_UID (pod_Meta pod')"
    using sel [OF assms(1,3)] sel [OF assms(2,4)] by blast
  then have "entryKey_bytes (el_spiffeid H) e \<noteq> entryKey_bytes (el_spiffeid H) e'" using assms(5,6) by simp
  then show ?thesis using assms(7) by (simp add: makeEntryKey_def inj_on_def)
qed

theorem pod_entries_distinct_keys_witness:
  "makeEntryKey \<lparr>el_spiffeid = ref_spiffeid, el_sha256hex = (\<lambda>s. s)\<rparr> sample_pod_entry \<noteq>
   makeEntryKey \<lparr>el_spiffeid = ref_spiffeid, el_sha256hex = (\<lambda>s. s)\<rparr>
     (sample_pod_entry\<lparr>e_Selectors := [\<lparr>s_Type = ''k8s'', s_Value = ''pod-uid:u2''\<rparr>]\<rparr>)"
proof (rule pod_entries_distinct_keys [OF sample_pod_rendered])
  let ?pod = "sample_pod\<lparr>pod_Meta := (pod_Meta sample_pod)\<lparr>om_UID := ''u2''\<rparr>\<rparr>"
  show "renderPodEntry ref_spiffeid sample_spec sample_node ?pod sample_endpoints (TrustDomain ''td'') ''c'' '''' None =
      Inr (sample_pod_entry\<lparr>e_Selectors := [\<lparr>s_Type = ''k8s'', s_Value = ''pod-uid:u2''\<rparr>]\<rparr>)" by code_simp
qed (simp_all add: sample_spec_def sample_pod_def)

text \<open>C10: no field of a current entry is outdated exactly when it agrees with the declared entry in both TTLs, the
  federated trust domains up to order, the admin, downstream and store flags, the DNS names up to order and
  the hint, where the JWT TTL, the hint and the store flag are not compared when the server does not support
  them.\<close>

theorem getOutdatedEntryFields_none_iff:
  assumes "compares_names L"
  shows "getOutdatedEntryFields L n old U = [] \<longleftrightarrow>
    e_X509SVIDTTL old = e_X509SVIDTTL n \<and>
    (e_JWTSVIDTTL old = e_JWTSVIDTTL n \<or> JWTSVIDTTLField \<in> U) \<and>
    mset (e_FederatesWith old) = mset (e_FederatesWith n) \<and>
    e_Admin old = e_Admin n \<and> e_Downstream old = e_Downstream n \<and>
    mset (e_DNSNames old) = mset (e_DNSNames n) \<and>
    (e_Hint old = e_Hint n \<or> HintField \<in> U) \<and> (e_StoreSVID old = e_StoreSVID n \<or> StoreSVIDField \<in> U)"
  by (rule getOutdatedEntryFields_Nil_iff [OF assms])

theorem getOutdatedEntryFields_none_iff_witness:
  "getOutdatedEntryFields ref_spiffeid (sample_entry\<lparr>e_DNSNames := [''a'', ''b''], e_Hint := ''x''\<rparr>)
     (sample_entry\<lparr>e_DNSNames := [''b'', ''a'']\<rparr>) {HintField} = []"
  using getOutdatedEntryFields_none_iff [of ref_spiffeid]
  by (simp add: compares_names_def ref_spiffeid_def)

text \<open>C14: an entry that the server has stored is found up to date exactly when its TTLs are whole numbers of
  seconds of 32 bits (the JWT TTL only where it is supported). With any other TTL the next reconcile sees the
  entry outdated again and updates it, every time.\<close>

theorem stored_entry_outdated:
  "getOutdatedEntryFields L e (e\<lparr>e_X509SVIDTTL := wrap32 (go_quot (e_X509SVIDTTL e) Second) * Second,
       e_JWTSVIDTTL := wrap32 (go_quot (e_JWTSVIDTTL e) Second) * Second\<rparr>) U = [] \<longleftrightarrow>
     ttl_ok (e_X509SVIDTTL e) \<and> (ttl_ok (e_JWTSVIDTTL e) \<or> JWTSVIDTTLField \<in> U)"
  using getOutdatedEntryFields_stored [of L e U] by (simp add: stored_def ttl_wire_def)

end
