(* ===== verification/Entry_Plan.thy ===== *)
theory Entry_Plan
  imports Entry_State
begin

section \<open>What the plan does\<close>

text \<open>
  The loop of \<open>reconcile\<close> over the entries state, read key by key: which entries of one key it
  deletes, creates and updates. From that follow when a plan is empty, and that a server which
  carries out a plan is in sync afterwards, so that the next plan is empty.
\<close>

subsection \<open>One key\<close>

definition adopt :: "declaredEntry \<Rightarrow> Entry \<Rightarrow> declaredEntry" where
  "adopt d c = d\<lparr>de_Entry := (de_Entry d)\<lparr>e_ID := e_ID c\<rparr>\<rparr>"

definition key_deletes :: "entryState \<Rightarrow> Entry list" where
  "key_deletes s = filterJoinTokenEntries (if es_Declared s = [] then es_Current s else tl (es_Current s))"

definition key_creates :: "entryState \<Rightarrow> declaredEntry list" where
  "key_creates s = (if es_Declared s \<noteq> [] \<and> es_Current s = [] then [preferred (es_Declared s)] else [])"

definition key_updates :: "spiffeid_lib \<Rightarrow> Field set \<Rightarrow> entryState \<Rightarrow> declaredEntry list" where
  "key_updates L U s =
     (if es_Declared s \<noteq> [] \<and> es_Current s \<noteq> [] \<and>
         getOutdatedEntryFields L (de_Entry (adopt (preferred (es_Declared s)) (hd (es_Current s))))
           (hd (es_Current s)) U \<noteq> []
      then [adopt (preferred (es_Declared s)) (hd (es_Current s))] else [])"

fun assign_ids :: "string \<Rightarrow> (nat \<Rightarrow> string) \<Rightarrow> nat \<Rightarrow> declaredEntry list \<Rightarrow> declaredEntry list" where
  "assign_ids pfx uuid n [] = []"
| "assign_ids pfx uuid n (d # ds) =
     (if e_ID (de_Entry d) = '''' \<and> pfx \<noteq> ''''
      then d\<lparr>de_Entry := (de_Entry d)\<lparr>e_ID := pfx @ uuid n\<rparr>\<rparr> # assign_ids pfx uuid (Suc n) ds
      else d # assign_ids pfx uuid n ds)"

definition draws :: "string \<Rightarrow> declaredEntry list \<Rightarrow> nat" where
  "draws pfx ds = length (filter (\<lambda>d. e_ID (de_Entry d) = '''' \<and> pfx \<noteq> '''') ds)"

lemma assign_ids_append:
  "assign_ids pfx uuid n (xs @ ys) = assign_ids pfx uuid n xs @ assign_ids pfx uuid (n + draws pfx xs) ys"
  by (induction xs arbitrary: n) (auto simp: draws_def)

lemma draws_append: "draws pfx (xs @ ys) = draws pfx xs + draws pfx ys"
  by (simp add: draws_def)

lemma filterJoin_Nil [simp]: "filterJoinTokenEntries [] = []"
  by (simp add: filterJoinTokenEntries_def)

lemma planStep_plan:
  "pl_toDelete (planStep L pfx uuid U p s) = pl_toDelete p @ key_deletes s"
  "pl_toUpdate (planStep L pfx uuid U p s) = pl_toUpdate p @ key_updates L U s"
  "pl_toCreate (planStep L pfx uuid U p s) =
     pl_toCreate p @ assign_ids pfx uuid (pl_UUIDs p) (key_creates s)"
  "pl_UUIDs (planStep L pfx uuid U p s) = pl_UUIDs p + draws pfx (key_creates s)"
proof -
  consider (none) "es_Declared s = []"
    | (some) d ds where "sortDeclaredEntriesByPreference (es_Declared s) = d # ds" "es_Declared s \<noteq> []"
    by (cases "sortDeclaredEntriesByPreference (es_Declared s)") auto
  then have "pl_toDelete (planStep L pfx uuid U p s) = pl_toDelete p @ key_deletes s \<and>
    pl_toUpdate (planStep L pfx uuid U p s) = pl_toUpdate p @ key_updates L U s \<and>
    pl_toCreate (planStep L pfx uuid U p s) =
      pl_toCreate p @ assign_ids pfx uuid (pl_UUIDs p) (key_creates s) \<and>
    pl_UUIDs (planStep L pfx uuid U p s) = pl_UUIDs p + draws pfx (key_creates s)"
  proof cases
    case none
    then show ?thesis
      by (simp add: planStep_def key_deletes_def key_updates_def key_creates_def draws_def)
  next
    case some
    then show ?thesis
      by (cases "es_Current s")
        (simp_all add: planStep_def key_deletes_def key_updates_def key_creates_def draws_def adopt_def Let_def)
  qed
  then show
    "pl_toDelete (planStep L pfx uuid U p s) = pl_toDelete p @ key_deletes s"
    "pl_toUpdate (planStep L pfx uuid U p s) = pl_toUpdate p @ key_updates L U s"
    "pl_toCreate (planStep L pfx uuid U p s) =
       pl_toCreate p @ assign_ids pfx uuid (pl_UUIDs p) (key_creates s)"
    "pl_UUIDs (planStep L pfx uuid U p s) = pl_UUIDs p + draws pfx (key_creates s)"
    by auto
qed

lemma foldl_planStep:
  "pl_toDelete (foldl (planStep L pfx uuid U) p ss) = pl_toDelete p @ concat (map key_deletes ss)"
  "pl_toUpdate (foldl (planStep L pfx uuid U) p ss) = pl_toUpdate p @ concat (map (key_updates L U) ss)"
  "pl_toCreate (foldl (planStep L pfx uuid U) p ss) =
     pl_toCreate p @ assign_ids pfx uuid (pl_UUIDs p) (concat (map key_creates ss))"
  "pl_UUIDs (foldl (planStep L pfx uuid U) p ss) = pl_UUIDs p + draws pfx (concat (map key_creates ss))"
  by (induction ss arbitrary: p) (simp_all add: planStep_plan assign_ids_append draws_append draws_def [of _ "[]"])

lemma makePlan_plan:
  "pl_toDelete (makePlan L pfx uuid U st n ss del) = concat (map key_deletes ss) @ del"
  "pl_toUpdate (makePlan L pfx uuid U st n ss del) = concat (map (key_updates L U) ss)"
  "pl_toCreate (makePlan L pfx uuid U st n ss del) = assign_ids pfx uuid n (concat (map key_creates ss))"
  by (simp_all add: makePlan_def Let_def foldl_planStep)

subsection \<open>All keys\<close>

text \<open>Of a list that is collected key by key, the part of one key comes from the state of that key.\<close>

lemma filter_concat_keys:
  assumes "distinct (map fst kvs)" "f s0 = []"
    and "\<And>k s x. (k, s) \<in> set kvs \<Longrightarrow> x \<in> set (f s) \<Longrightarrow> key x = k"
  shows "filter (\<lambda>x. key x = k) (concat (map f (map snd kvs))) =
    f (case map_of kvs k of None \<Rightarrow> s0 | Some s \<Rightarrow> s)"
  using assms(1,3)
proof (induction kvs)
  case (Cons kv kvs)
  obtain k' s where kv: "kv = (k', s)" by (cases kv)
  have IH: "filter (\<lambda>x. key x = k) (concat (map f (map snd kvs))) =
      f (case map_of kvs k of None \<Rightarrow> s0 | Some s \<Rightarrow> s)"
    using Cons.prems by (intro Cons.IH) auto
  have keys: "x \<in> set (f s) \<Longrightarrow> key x = k'" for x using Cons.prems(2) kv by auto
  show ?case
  proof (cases "k = k'")
    case True
    have "map_of kvs k = None" using Cons.prems(1) kv True by (auto simp: map_of_eq_None_iff)
    moreover have "filter (\<lambda>x. key x = k) (f s) = f s" using keys True by (simp add: filter_id_conv)
    ultimately show ?thesis using IH kv True assms(2) by simp
  next
    case False
    have "filter (\<lambda>x. key x = k) (f s) = []" using keys False by (auto simp: filter_empty_conv)
    then show ?thesis using IH kv False by simp
  qed
qed (simp add: assms(2))

text \<open>\<open>ranges_over\<close>: the keys and states of a Go map in some iteration order.\<close>

definition ranges_over :: "('k \<times> 'v) list \<Rightarrow> ('k \<times> 'v) list \<Rightarrow> bool" where
  "ranges_over kvs m \<longleftrightarrow> mset kvs = mset m"

lemma ranges_over_map_of:
  assumes "ranges_over kvs m" "distinct (map fst m)"
  shows "distinct (map fst kvs)" "map_of kvs = map_of m"
proof -
  have "mset (map fst kvs) = mset (map fst m)" using assms(1) by (simp add: ranges_over_def)
  then show d: "distinct (map fst kvs)" using assms(2) mset_eq_imp_distinct_iff by blast
  have "set kvs = set m" using assms(1) unfolding ranges_over_def by (metis set_mset_mset)
  with d assms(2) show "map_of kvs = map_of m" by (simp add: map_of_inject_set)
qed

abbreviation at_key :: "entry_libs \<Rightarrow> entryKey \<Rightarrow> Entry list \<Rightarrow> declaredEntry list \<Rightarrow> entryState" where
  "at_key H k cs ds \<equiv> \<lparr>es_Current = current_at H k cs, es_Declared = declared_at H k ds\<rparr>"

lemma state_of_key:
  assumes "state_matches H es cs ds" "ranges_over kvs es"
  shows "(case map_of kvs k of None \<Rightarrow> \<lparr>es_Current = [], es_Declared = []\<rparr> | Some s \<Rightarrow> s) = at_key H k cs ds"
proof -
  have "map_of kvs = map_of es" using assms ranges_over_map_of by (auto simp: state_matches_def)
  then show ?thesis using assms(1) by (auto simp: state_matches_def)
qed

lemma state_in:
  assumes "state_matches H es cs ds" "ranges_over kvs es" "(k, s) \<in> set kvs"
  shows "s = at_key H k cs ds"
proof -
  have "distinct (map fst kvs)" using assms ranges_over_map_of by (auto simp: state_matches_def)
  then have "map_of kvs k = Some s" using assms(3) by simp
  then show ?thesis using state_of_key [OF assms(1,2), of k] by simp
qed

lemma preferred_at:
  "declared_at H k ds \<noteq> [] \<Longrightarrow>
     preferred (declared_at H k ds) \<in> set ds \<and> makeEntryKey H (de_Entry (preferred (declared_at H k ds))) = k"
  using preferred_in [of "declared_at H k ds"] by auto

lemma set_tl_filter: "x \<in> set (tl (filter P xs)) \<Longrightarrow> x \<in> set xs \<and> P x"
  by (metis (mono_tags, lifting) filter_set list.set_sel(2) mem_Collect_eq Set.filter_eq tl_Nil)

lemma key_deletes_at: "e \<in> set (key_deletes (at_key H k cs ds)) \<Longrightarrow>
    e \<in> set cs \<and> makeEntryKey H e = k \<and> \<not> isJoinTokenEntry e"
  by (auto simp: key_deletes_def filterJoinTokenEntries_def dest: set_tl_filter split: if_splits)

lemma key_creates_at: "d \<in> set (key_creates (at_key H k cs ds)) \<Longrightarrow>
    d \<in> set ds \<and> makeEntryKey H (de_Entry d) = k"
  using preferred_at [of H k ds] by (auto simp: key_creates_def split: if_splits)

lemma hd_current: "current_at H k cs \<noteq> [] \<Longrightarrow>
    hd (current_at H k cs) \<in> set cs \<and> makeEntryKey H (hd (current_at H k cs)) = k"
  using hd_in_set [of "current_at H k cs"] by auto

lemma key_updates_at: "d \<in> set (key_updates L U (at_key H k cs ds)) \<Longrightarrow>
    makeEntryKey H (de_Entry d) = k \<and>
    (\<exists>c\<in>set cs. makeEntryKey H c = k \<and> c = hd (current_at H k cs) \<and>
       declared_at H k ds \<noteq> [] \<and> d = adopt (preferred (declared_at H k ds)) c)"
  using preferred_at [of H k ds] hd_current [of H k cs]
  by (auto simp: key_updates_def adopt_def split: if_splits)

text \<open>The plan restricted to one key.\<close>

lemma plan_at_key:
  assumes "state_matches H es cs ds" "ranges_over kvs es"
  shows "filter (\<lambda>e. makeEntryKey H e = k) (concat (map key_deletes (map snd kvs))) =
      key_deletes (at_key H k cs ds)"
    and "filter (\<lambda>d. makeEntryKey H (de_Entry d) = k) (concat (map key_creates (map snd kvs))) =
      key_creates (at_key H k cs ds)"
    and "filter (\<lambda>d. makeEntryKey H (de_Entry d) = k) (concat (map (key_updates L U) (map snd kvs))) =
      key_updates L U (at_key H k cs ds)"
proof -
  let ?s0 = "\<lparr>es_Current = [], es_Declared = []\<rparr>"
  have d: "distinct (map fst kvs)"
    using assms ranges_over_map_of(1) [OF assms(2)] by (simp add: state_matches_def)
  note st = state_in [OF assms] and sk = state_of_key [OF assms]
  have del: "makeEntryKey H x = k" if "(k, s) \<in> set kvs" "x \<in> set (key_deletes s)" for k s x
    using st [OF that(1)] that(2) key_deletes_at [of x H k cs ds] by simp
  have cre: "makeEntryKey H (de_Entry x) = k" if "(k, s) \<in> set kvs" "x \<in> set (key_creates s)" for k s x
    using st [OF that(1)] that(2) key_creates_at [of x H k cs ds] by simp
  have upd: "makeEntryKey H (de_Entry x) = k" if "(k, s) \<in> set kvs" "x \<in> set (key_updates L U s)" for k s x
    using that(2) key_updates_at [of x L U H k cs ds] unfolding st [OF that(1)] by blast
  show "filter (\<lambda>e. makeEntryKey H e = k) (concat (map key_deletes (map snd kvs))) =
      key_deletes (at_key H k cs ds)"
    unfolding sk [symmetric]
    by (rule filter_concat_keys [OF d]) (simp_all add: key_deletes_def [of ?s0] del)
  show "filter (\<lambda>d. makeEntryKey H (de_Entry d) = k) (concat (map key_creates (map snd kvs))) =
      key_creates (at_key H k cs ds)"
    unfolding sk [symmetric]
    by (rule filter_concat_keys [OF d]) (simp_all add: key_creates_def [of ?s0] cre)
  show "filter (\<lambda>d. makeEntryKey H (de_Entry d) = k) (concat (map (key_updates L U) (map snd kvs))) =
      key_updates L U (at_key H k cs ds)"
    unfolding sk [symmetric]
    by (rule filter_concat_keys [OF d]) (simp_all add: key_updates_def [of _ _ ?s0] upd)
qed

section \<open>When there is nothing to do\<close>

text \<open>The abstract specification of the reconciler. The current entries are in sync with the declared
  ones when every key that nothing declares has join token entries only, and every declared key has
  a first entry that does not differ from the preferred declaration, and beside it join token
  entries only.\<close>

definition key_synced :: "spiffeid_lib \<Rightarrow> Field set \<Rightarrow> entryState \<Rightarrow> bool" where
  "key_synced L U s \<longleftrightarrow>
     (if es_Declared s = [] then list_all isJoinTokenEntry (es_Current s)
      else case es_Current s of
        [] \<Rightarrow> False
      | c # rest \<Rightarrow> list_all isJoinTokenEntry rest \<and>
          getOutdatedEntryFields L (de_Entry (adopt (preferred (es_Declared s)) c)) c U = [])"

definition synced :: "spiffeid_lib \<Rightarrow> entry_libs \<Rightarrow> Field set \<Rightarrow> Entry list \<Rightarrow> declaredEntry list \<Rightarrow> bool" where
  "synced L H U cs ds \<longleftrightarrow> (\<forall>k. key_synced L U (at_key H k cs ds))"

lemma filterJoin_eq_Nil: "filterJoinTokenEntries es = [] \<longleftrightarrow> list_all isJoinTokenEntry es"
  by (auto simp: filterJoinTokenEntries_def filter_empty_conv list_all_iff)

lemma key_synced_iff:
  "key_synced L U s \<longleftrightarrow> key_deletes s = [] \<and> key_creates s = [] \<and> key_updates L U s = []"
  by (cases "es_Current s")
    (simp_all add: key_synced_def key_deletes_def key_creates_def key_updates_def filterJoin_eq_Nil)

lemma assign_ids_eq_Nil [simp]: "assign_ids pfx uuid n ds = [] \<longleftrightarrow> ds = []"
  by (cases ds) auto

lemma concat_keys_Nil:
  assumes "state_matches H es cs ds" "ranges_over kvs es" "f \<lparr>es_Current = [], es_Declared = []\<rparr> = []"
  shows "concat (map f (map snd kvs)) = [] \<longleftrightarrow> (\<forall>k. f (at_key H k cs ds) = [])"
proof
  assume l: "concat (map f (map snd kvs)) = []"
  show "\<forall>k. f (at_key H k cs ds) = []"
  proof
    fix k
    show "f (at_key H k cs ds) = []"
    proof (cases "map_of kvs k")
      case None
      then show ?thesis using state_of_key [OF assms(1,2), of k] assms(3) by simp
    next
      case (Some s)
      then have "(k, s) \<in> set kvs" by (rule map_of_SomeD)
      then have "f s = []" using l by force
      then show ?thesis using Some state_of_key [OF assms(1,2), of k] by simp
    qed
  qed
next
  assume r: "\<forall>k. f (at_key H k cs ds) = []"
  have "f s = []" if "(k, s) \<in> set kvs" for k s
    using r unfolding state_in [OF assms(1,2) that] by blast
  then show "concat (map f (map snd kvs)) = []" by auto
qed

lemma plan_empty_iff_synced:
  assumes "state_matches H es cs ds" "ranges_over kvs es"
  shows "pl_toDelete (makePlan L pfx uuid U st n (map snd kvs) []) = [] \<and>
      pl_toCreate (makePlan L pfx uuid U st n (map snd kvs) []) = [] \<and>
      pl_toUpdate (makePlan L pfx uuid U st n (map snd kvs) []) = [] \<longleftrightarrow> synced L H U cs ds"
proof -
  note nil = concat_keys_Nil [OF assms]
  have n: "concat (map key_deletes (map snd kvs)) = [] \<longleftrightarrow> (\<forall>k. key_deletes (at_key H k cs ds) = [])"
    "concat (map key_creates (map snd kvs)) = [] \<longleftrightarrow> (\<forall>k. key_creates (at_key H k cs ds) = [])"
    "concat (map (key_updates L U) (map snd kvs)) = [] \<longleftrightarrow> (\<forall>k. key_updates L U (at_key H k cs ds) = [])"
    by (rule nil, simp add: key_deletes_def key_creates_def key_updates_def)+
  show ?thesis
    unfolding makePlan_plan append_Nil2 assign_ids_eq_Nil n synced_def key_synced_iff by blast
qed

section \<open>A server that carries out the plan\<close>

text \<open>The effect of successful calls on the entries of the server: deletions by ID, creations, for
  which the server chooses the ID of an entry that comes without one, and updates by ID.\<close>

definition created_as :: "Entry \<Rightarrow> Entry \<Rightarrow> bool" where
  "created_as e c \<longleftrightarrow> c = (stored e)\<lparr>e_ID := e_ID c\<rparr> \<and> (e_ID e \<noteq> '''' \<longrightarrow> e_ID c = e_ID e)"

definition apply_deletes :: "string list \<Rightarrow> Entry list \<Rightarrow> Entry list" where
  "apply_deletes ids cs = filter (\<lambda>c. e_ID c \<notin> set ids) cs"

definition apply_update :: "Entry list \<Rightarrow> Entry \<Rightarrow> Entry" where
  "apply_update us c = (case find (\<lambda>u. e_ID u = e_ID c) us of None \<Rightarrow> c | Some u \<Rightarrow> stored u)"

definition server_applies :: "plan \<Rightarrow> Entry list \<Rightarrow> Entry list \<Rightarrow> bool" where
  "server_applies p cs cs' \<longleftrightarrow>
     (\<exists>created. list_all2 created_as (entriesFromDeclaredEntries (pl_toCreate p)) created \<and>
        e_ID ` set created \<inter> e_ID ` set (apply_deletes (idsFromEntries (pl_toDelete p)) cs) = {} \<and>
        mset cs' = mset (map (apply_update (entriesFromDeclaredEntries (pl_toUpdate p)))
          (apply_deletes (idsFromEntries (pl_toDelete p)) cs @ created)))"

lemma list_all2_filter2:
  "list_all2 P xs ys \<Longrightarrow> (\<And>x y. P x y \<Longrightarrow> f x \<longleftrightarrow> g y) \<Longrightarrow> list_all2 P (filter f xs) (filter g ys)"
  by (induction rule: list_all2_induct) auto

lemma assign_ids_rel:
  "list_all2 (\<lambda>d d'. \<exists>i. d' = d\<lparr>de_Entry := (de_Entry d)\<lparr>e_ID := i\<rparr>\<rparr>) ds (assign_ids pfx uuid n ds)"
proof (induction ds arbitrary: n)
  case (Cons d ds)
  have "d = d\<lparr>de_Entry := (de_Entry d)\<lparr>e_ID := e_ID (de_Entry d)\<rparr>\<rparr>" by simp
  then have "\<exists>i. d = d\<lparr>de_Entry := (de_Entry d)\<lparr>e_ID := i\<rparr>\<rparr>" ..
  with Cons show ?case by auto
qed simp

lemma created_from_declared:
  assumes "list_all2 created_as (entriesFromDeclaredEntries (assign_ids pfx uuid n ds)) created"
  shows "list_all2 (\<lambda>d c. \<exists>i. c = (stored (de_Entry d))\<lparr>e_ID := i\<rparr>) ds created"
proof -
  have "list_all2 (\<lambda>d c. created_as (de_Entry d) c) (assign_ids pfx uuid n ds) created"
    using assms by (simp add: entriesFromDeclaredEntries_def list_all2_map1)
  then show ?thesis
    by (rule list_all2_trans [OF _ assign_ids_rel, rotated]) (auto simp: created_as_def stored_def)
qed

text \<open>Which entries a plan removes and changes, for a plan made from the entries \<open>cs\<close>, whose IDs
  are distinct.\<close>

definition plan_from ::
  "spiffeid_lib \<Rightarrow> entry_libs \<Rightarrow> Field set \<Rightarrow> Entry list \<Rightarrow> declaredEntry list \<Rightarrow> Entry list \<Rightarrow> plan \<Rightarrow> bool" where
  "plan_from L H U cs ds del p \<longleftrightarrow>
     (\<exists>es kvs pfx uuid st n. state_matches H es cs ds \<and> ranges_over kvs es \<and>
        p = makePlan L pfx uuid U st n (map snd kvs) del)"

lemma plan_from_deletes:
  assumes "plan_from L H U cs ds del p" "distinct (map e_ID cs)" "e_ID ` set del \<inter> e_ID ` set cs = {}"
    and "c \<in> set cs" "makeEntryKey H c = k"
  shows "e_ID c \<in> set (idsFromEntries (pl_toDelete p)) \<longleftrightarrow> c \<in> set (key_deletes (at_key H k cs ds))"
proof -
  obtain es kvs where s: "state_matches H es cs ds" "ranges_over kvs es"
    and p: "pl_toDelete p = concat (map key_deletes (map snd kvs)) @ del"
    using assms(1) by (auto simp: plan_from_def makePlan_plan)
  have mem: "e \<in> set (concat (map key_deletes (map snd kvs))) \<longleftrightarrow>
      e \<in> set (key_deletes (at_key H (makeEntryKey H e) cs ds))" for e
    unfolding plan_at_key(1) [OF s, symmetric] by simp
  have inj: "e = c" if "e \<in> set cs" "e_ID e = e_ID c" for e
    using that assms(2,4) by (auto simp: distinct_map inj_on_def)
  show ?thesis
  proof
    assume "e_ID c \<in> set (idsFromEntries (pl_toDelete p))"
    then obtain e where e: "e_ID e = e_ID c" "e \<in> set (concat (map key_deletes (map snd kvs))) \<or> e \<in> set del"
      unfolding p idsFromEntries_def set_map set_append by force
    then have k: "e \<in> set (key_deletes (at_key H (makeEntryKey H e) cs ds))" using assms(3,4) mem by blast
    then have "e = c" using inj e(1) key_deletes_at by blast
    with k assms(5) show "c \<in> set (key_deletes (at_key H k cs ds))" by simp
  next
    assume "c \<in> set (key_deletes (at_key H k cs ds))"
    then have "c \<in> set (pl_toDelete p)" using mem assms(5) by (simp only: p set_append) simp
    then show "e_ID c \<in> set (idsFromEntries (pl_toDelete p))" by (simp add: idsFromEntries_def)
  qed
qed

lemma plan_from_update:
  assumes "plan_from L H U cs ds del p" "u \<in> set (entriesFromDeclaredEntries (pl_toUpdate p))"
  obtains c k where "c \<in> set cs" "makeEntryKey H c = k" "e_ID u = e_ID c" "c = hd (current_at H k cs)"
    "declared_at H k ds \<noteq> []" "u = de_Entry (adopt (preferred (declared_at H k ds)) c)"
proof -
  obtain es kvs where s: "state_matches H es cs ds" "ranges_over kvs es"
    and p: "pl_toUpdate p = concat (map (key_updates L U) (map snd kvs))"
    using assms(1) by (auto simp: plan_from_def makePlan_plan)
  obtain d where d: "d \<in> set (concat (map (key_updates L U) (map snd kvs)))" "u = de_Entry d"
    using assms(2) unfolding p entriesFromDeclaredEntries_def set_map by blast
  let ?k = "makeEntryKey H (de_Entry d)"
  have "d \<in> set (key_updates L U (at_key H ?k cs ds))"
    unfolding plan_at_key(3) [OF s, symmetric] using d(1) by simp
  then obtain c where c: "c \<in> set cs" "makeEntryKey H c = ?k" "c = hd (current_at H ?k cs)"
    "declared_at H ?k ds \<noteq> []" "d = adopt (preferred (declared_at H ?k ds)) c"
    using key_updates_at by blast
  have "e_ID u = e_ID c"
    using arg_cong [OF c(5), of "\<lambda>d. e_ID (de_Entry d)"] d(2) by (simp add: adopt_def)
  moreover have "u = de_Entry (adopt (preferred (declared_at H ?k ds)) c)" using c(5) d(2) by simp
  ultimately show thesis using c by (intro that [of c ?k]) auto
qed

lemma plan_from_update_mem:
  assumes "plan_from L H U cs ds del p" "d \<in> set (key_updates L U (at_key H k cs ds))"
  shows "de_Entry d \<in> set (entriesFromDeclaredEntries (pl_toUpdate p))"
proof -
  obtain es kvs where s: "state_matches H es cs ds" "ranges_over kvs es"
    and p: "pl_toUpdate p = concat (map (key_updates L U) (map snd kvs))"
    using assms(1) by (auto simp: plan_from_def makePlan_plan)
  have "d \<in> set (pl_toUpdate p)"
    using assms(2) unfolding plan_at_key(3) [OF s, symmetric] p by (meson filter_is_subset subsetD)
  then show ?thesis by (simp add: entriesFromDeclaredEntries_def)
qed

lemma apply_update_other: "e_ID c \<notin> e_ID ` set us \<Longrightarrow> apply_update us c = c"
proof -
  assume "e_ID c \<notin> e_ID ` set us"
  then have "find (\<lambda>u. e_ID u = e_ID c) us = None" unfolding find_None_iff by (metis image_eqI)
  then show ?thesis by (simp add: apply_update_def)
qed

lemma apply_update_hit:
  assumes "u \<in> set us" "e_ID u = e_ID c" "\<And>v. v \<in> set us \<Longrightarrow> e_ID v = e_ID c \<Longrightarrow> v = u"
  shows "apply_update us c = stored u"
proof -
  obtain v where v: "find (\<lambda>u. e_ID u = e_ID c) us = Some v"
    using assms(1,2) by (cases "find (\<lambda>u. e_ID u = e_ID c) us") (auto simp: find_None_iff)
  then have "v \<in> set us" "e_ID v = e_ID c" by (auto simp: find_Some_iff)
  with v assms(3) show ?thesis by (simp add: apply_update_def)
qed

text \<open>What an update makes of a current entry of its key.\<close>

lemma plan_from_apply_update:
  assumes "plan_from L H U cs ds del p" "distinct (map e_ID cs)" "c \<in> set cs" "makeEntryKey H c = k"
  shows "apply_update (entriesFromDeclaredEntries (pl_toUpdate p)) c =
    (if c = hd (current_at H k cs) \<and> key_updates L U (at_key H k cs ds) \<noteq> []
     then stored (de_Entry (adopt (preferred (declared_at H k ds)) c)) else c)"
proof -
  let ?us = "entriesFromDeclaredEntries (pl_toUpdate p)"
  have inj: "e = c" if "e \<in> set cs" "e_ID e = e_ID c" for e
    using that assms(2,3) by (auto simp: distinct_map inj_on_def)
  have u: "c = hd (current_at H k cs) \<and> declared_at H k ds \<noteq> [] \<and>
      u = de_Entry (adopt (preferred (declared_at H k ds)) c)" if "u \<in> set ?us" "e_ID u = e_ID c" for u
    using plan_from_update [OF assms(1) that(1)] inj that(2) assms(4) by metis
  show ?thesis
  proof (cases "c = hd (current_at H k cs) \<and> key_updates L U (at_key H k cs ds) \<noteq> []")
    case True
    then have "adopt (preferred (declared_at H k ds)) c \<in> set (key_updates L U (at_key H k cs ds))"
      by (auto simp: key_updates_def split: if_splits)
    then have m: "de_Entry (adopt (preferred (declared_at H k ds)) c) \<in> set ?us"
      by (rule plan_from_update_mem [OF assms(1)])
    have "apply_update ?us c = stored (de_Entry (adopt (preferred (declared_at H k ds)) c))"
      by (rule apply_update_hit [OF m]) (simp add: adopt_def, use u in blast)
    with True show ?thesis by simp
  next
    case False
    have "e_ID c \<notin> e_ID ` set ?us"
    proof
      assume "e_ID c \<in> e_ID ` set ?us"
      then obtain v where v: "v \<in> set ?us" "e_ID v = e_ID c" by auto
      obtain es kvs where s: "state_matches H es cs ds" "ranges_over kvs es"
        and p: "pl_toUpdate p = concat (map (key_updates L U) (map snd kvs))"
        using assms(1) by (auto simp: plan_from_def makePlan_plan)
      obtain d where d: "d \<in> set (concat (map (key_updates L U) (map snd kvs)))" "v = de_Entry d"
        using v(1) unfolding p entriesFromDeclaredEntries_def set_map by blast
      have "makeEntryKey H v = k" using u [OF v] preferred_at [of H k ds] by (simp add: adopt_def)
      with d have "d \<in> set (key_updates L U (at_key H k cs ds))"
        unfolding plan_at_key(3) [OF s, symmetric] by simp
      with u [OF v] False show False by auto
    qed
    with False show ?thesis by (auto simp: apply_update_other)
  qed
qed

text \<open>The entries of one key after the deletions, and the entries created for it.\<close>

lemma survivors_at:
  assumes "plan_from L H U cs ds del p" "distinct (map e_ID cs)" "e_ID ` set del \<inter> e_ID ` set cs = {}"
  shows "current_at H k (apply_deletes (idsFromEntries (pl_toDelete p)) cs) =
    filter (\<lambda>c. c \<notin> set (key_deletes (at_key H k cs ds))) (current_at H k cs)"
  unfolding apply_deletes_def filter_filter
  using plan_from_deletes [OF assms] by (intro filter_cong) auto

lemma survivors_undeclared:
  assumes "declared_at H k ds = []"
  shows "filter (\<lambda>c. c \<notin> set (key_deletes (at_key H k cs ds))) (current_at H k cs) =
    filter isJoinTokenEntry (current_at H k cs)"
  using assms by (intro filter_cong) (auto simp: key_deletes_def filterJoinTokenEntries_def)

lemma survivors_declared:
  assumes "declared_at H k ds \<noteq> []" "distinct cs" "\<forall>c\<in>set (current_at H k cs). \<not> isJoinTokenEntry c"
  shows "filter (\<lambda>c. c \<notin> set (key_deletes (at_key H k cs ds))) (current_at H k cs) = take 1 (current_at H k cs)"
proof (cases "current_at H k cs")
  case (Cons c rest)
  have "distinct (c # rest)" using assms(2) Cons by (metis distinct_filter)
  moreover have "set (key_deletes (at_key H k cs ds)) = set rest"
    using assms(1,3) Cons by (auto simp: key_deletes_def filterJoinTokenEntries_def)
  ultimately show ?thesis unfolding Cons by (auto simp: filter_empty_conv)
qed (metis filter.simps(1) take_Nil)

lemma created_at_key:
  assumes "plan_from L H U cs ds del p"
    and "list_all2 created_as (entriesFromDeclaredEntries (pl_toCreate p)) created"
  shows "list_all2 (\<lambda>d c. \<exists>i. c = (stored (de_Entry d))\<lparr>e_ID := i\<rparr>)
    (key_creates (at_key H k cs ds)) (current_at H k created)"
proof -
  obtain es kvs pfx uuid n where s: "state_matches H es cs ds" "ranges_over kvs es"
    and p: "pl_toCreate p = assign_ids pfx uuid n (concat (map key_creates (map snd kvs)))"
    using assms(1) by (auto simp: plan_from_def makePlan_plan)
  have "list_all2 (\<lambda>d c. \<exists>i. c = (stored (de_Entry d))\<lparr>e_ID := i\<rparr>)
      (concat (map key_creates (map snd kvs))) created"
    using assms(2) unfolding p by (rule created_from_declared)
  then show ?thesis
    unfolding plan_at_key(2) [OF s, symmetric] by (rule list_all2_filter2) auto
qed

text \<open>An entry that is updated is not deleted.\<close>

lemma plan_from_update_kept:
  assumes "plan_from L H U cs ds del p" "distinct (map e_ID cs)" "e_ID ` set del \<inter> e_ID ` set cs = {}"
    and "u \<in> set (entriesFromDeclaredEntries (pl_toUpdate p))"
  shows "e_ID u \<in> e_ID ` set (apply_deletes (idsFromEntries (pl_toDelete p)) cs)"
proof -
  obtain c k where c: "c \<in> set cs" "makeEntryKey H c = k" "e_ID u = e_ID c" "c = hd (current_at H k cs)"
    "declared_at H k ds \<noteq> []" by (rule plan_from_update [OF assms(1,4)])
  have "c \<notin> set (tl (current_at H k cs))"
  proof (cases "current_at H k cs")
    case (Cons x xs)
    moreover have "distinct (current_at H k cs)" using assms(2) by (simp add: distinct_map)
    ultimately show ?thesis using c(4) by simp
  qed simp
  then have "c \<notin> set (key_deletes (at_key H k cs ds))"
    using c(5) by (simp add: key_deletes_def filterJoinTokenEntries_def)
  then have "e_ID c \<notin> set (idsFromEntries (pl_toDelete p))"
    using plan_from_deletes [OF assms(1-3) c(1,2)] by simp
  with c(1,3) show ?thesis by (auto simp: apply_deletes_def)
qed

lemma current_at_apply:
  assumes "plan_from L H U cs ds del p" "distinct (map e_ID cs)" "e_ID ` set del \<inter> e_ID ` set cs = {}"
    and "e_ID ` set created \<inter> e_ID ` set (apply_deletes (idsFromEntries (pl_toDelete p)) cs) = {}"
  shows "current_at H k (map (apply_update (entriesFromDeclaredEntries (pl_toUpdate p)))
      (apply_deletes (idsFromEntries (pl_toDelete p)) cs @ created)) =
    map (apply_update (entriesFromDeclaredEntries (pl_toUpdate p)))
      (filter (\<lambda>c. c \<notin> set (key_deletes (at_key H k cs ds))) (current_at H k cs)) @ current_at H k created"
proof -
  let ?us = "entriesFromDeclaredEntries (pl_toUpdate p)"
  have new: "apply_update ?us c = c" if "c \<in> set created" for c
  proof (rule apply_update_other, rule notI)
    assume "e_ID c \<in> e_ID ` set ?us"
    then obtain u where u: "u \<in> set ?us" "e_ID u = e_ID c" by auto
    from plan_from_update_kept [OF assms(1-3) u(1)] u(2) that assms(4) show False by (metis disjoint_iff image_eqI)
  qed
  have key: "makeEntryKey H (apply_update ?us c) = makeEntryKey H c" if "c \<in> set cs" for c
    using plan_from_apply_update [OF assms(1,2) that refl] preferred_at [of H "makeEntryKey H c" ds]
    by (auto simp: adopt_def key_updates_def split: if_splits)
  have "current_at H k (map (apply_update ?us) (apply_deletes (idsFromEntries (pl_toDelete p)) cs)) =
      map (apply_update ?us) (current_at H k (apply_deletes (idsFromEntries (pl_toDelete p)) cs))"
    unfolding filter_map
    by (intro arg_cong [where f = "map _"] filter_cong) (auto simp: apply_deletes_def key)
  moreover have "map (apply_update ?us) created = created" using new by (simp add: map_idI)
  ultimately show ?thesis by (simp add: survivors_at [OF assms(1-3)])
qed

lemma mset_single: "mset xs = mset [y] \<Longrightarrow> xs = [y]"
  by (cases xs) auto

lemma server_applies_current:
  assumes "plan_from L H U cs ds del p" "distinct (map e_ID cs)" "e_ID ` set del \<inter> e_ID ` set cs = {}"
    and "server_applies p cs cs'"
  obtains new where "list_all2 (\<lambda>d c. \<exists>i. c = (stored (de_Entry d))\<lparr>e_ID := i\<rparr>) (key_creates (at_key H k cs ds)) new"
    and "mset (current_at H k cs') = mset (map (apply_update (entriesFromDeclaredEntries (pl_toUpdate p)))
      (filter (\<lambda>c. c \<notin> set (key_deletes (at_key H k cs ds))) (current_at H k cs)) @ new)"
proof -
  obtain created where cr: "list_all2 created_as (entriesFromDeclaredEntries (pl_toCreate p)) created"
    and fresh: "e_ID ` set created \<inter> e_ID ` set (apply_deletes (idsFromEntries (pl_toDelete p)) cs) = {}"
    and mset: "mset cs' = mset (map (apply_update (entriesFromDeclaredEntries (pl_toUpdate p)))
      (apply_deletes (idsFromEntries (pl_toDelete p)) cs @ created))"
    using assms(4) by (auto simp: server_applies_def)
  show thesis
    by (rule that [OF created_at_key [OF assms(1) cr]])
      (unfold current_at_apply [OF assms(1-3) fresh, symmetric] mset_filter mset, rule refl)
qed

lemma updated_in_sync:
  assumes "plan_from L H U cs ds del p" "distinct (map e_ID cs)"
    and "declared_at H k ds \<noteq> []" "current_at H k cs = c # rest"
    and "ttls_ok (de_Entry (preferred (declared_at H k ds)))"
    and c': "c' = apply_update (entriesFromDeclaredEntries (pl_toUpdate p)) c"
  shows "getOutdatedEntryFields L (de_Entry (adopt (preferred (declared_at H k ds)) c')) c' U = []"
proof -
  have "c \<in> set cs \<and> makeEntryKey H c = k" using hd_current [of H k cs] assms(4) by simp
  then have "c' = (if key_updates L U (at_key H k cs ds) \<noteq> []
      then stored (de_Entry (adopt (preferred (declared_at H k ds)) c)) else c)"
    using plan_from_apply_update [OF assms(1,2), of c k] assms(4) c' by simp
  moreover have "stored (de_Entry (adopt (preferred (declared_at H k ds)) c)) =
      de_Entry (adopt (preferred (declared_at H k ds)) c)"
    using assms(5) by (intro stored_ttls_ok) (simp add: adopt_def ttls_ok_def)
  ultimately show ?thesis
    using assms(3,4) by (auto simp: key_updates_def adopt_def split: if_splits)
qed

text \<open>Where nothing is declared, exactly the join token entries of the key survive, as they are.\<close>

lemma only_tokens_left:
  assumes "plan_from L H U cs ds del p" "distinct (map e_ID cs)" "declared_at H k ds = []"
    and "mset (current_at H k cs') = mset (map (apply_update (entriesFromDeclaredEntries (pl_toUpdate p)))
      (filter (\<lambda>c. c \<notin> set (key_deletes (at_key H k cs ds))) (current_at H k cs)))"
  shows "set (current_at H k cs') = set (filter isJoinTokenEntry (current_at H k cs))"
proof -
  have "apply_update (entriesFromDeclaredEntries (pl_toUpdate p)) c = c" if "c \<in> set (current_at H k cs)" for c
    using plan_from_apply_update [OF assms(1,2), of c k] that assms(3) by (simp add: key_updates_def)
  then have "map (apply_update (entriesFromDeclaredEntries (pl_toUpdate p))) (filter isJoinTokenEntry (current_at H k cs)) =
      filter isJoinTokenEntry (current_at H k cs)"
    by (intro map_idI) auto
  with assms(4) have "mset (current_at H k cs') = mset (filter isJoinTokenEntry (current_at H k cs))"
    by (simp only: survivors_undeclared [OF assms(3), of cs])
  then show ?thesis by (metis set_mset_mset)
qed

lemma server_applies_synced:
  assumes plan: "plan_from L H U cs ds del p" and ids: "distinct (map e_ID cs)"
    and del: "e_ID ` set del \<inter> e_ID ` set cs = {}"
    and ttl: "\<forall>d\<in>set ds. ttls_ok (de_Entry d)"
    and tok: "\<forall>c\<in>set cs. isJoinTokenEntry c \<longrightarrow> declared_at H (makeEntryKey H c) ds = []"
    and app: "server_applies p cs cs'"
  shows "synced L H U cs' ds"
  unfolding synced_def
proof
  fix k
  let ?us = "entriesFromDeclaredEntries (pl_toUpdate p)"
  let ?C = "current_at H k cs" and ?D = "declared_at H k ds"
  obtain new where new: "list_all2 (\<lambda>d c. \<exists>i. c = (stored (de_Entry d))\<lparr>e_ID := i\<rparr>) (key_creates (at_key H k cs ds)) new"
    and C': "mset (current_at H k cs') = mset (map (apply_update ?us)
      (filter (\<lambda>c. c \<notin> set (key_deletes (at_key H k cs ds))) ?C) @ new)"
    by (rule server_applies_current [OF plan ids del app])
  have pref: "?D \<noteq> [] \<Longrightarrow> ttls_ok (de_Entry (preferred ?D))" using preferred_at [of H k ds] ttl by auto
  consider (undeclared) "?D = []" | (missing) "?D \<noteq> []" "?C = []" | (present) c rest where "?D \<noteq> []" "?C = c # rest"
    by (cases ?C) auto
  then show "key_synced L U (at_key H k cs' ds)"
  proof cases
    case undeclared
    moreover have "new = []" using new undeclared by (simp add: key_creates_def)
    ultimately show ?thesis using only_tokens_left [OF plan ids] C' by (simp add: key_synced_def list_all_iff)
  next
    case missing
    then obtain i where "new = [(stored (de_Entry (preferred ?D)))\<lparr>e_ID := i\<rparr>]"
      using new by (auto simp: key_creates_def list_all2_Cons1)
    then have "current_at H k cs' = [(de_Entry (preferred ?D))\<lparr>e_ID := i\<rparr>]"
      using C' missing pref by (intro mset_single) (simp add: stored_ttls_ok)
    then show ?thesis using missing by (simp add: key_synced_def adopt_def)
  next
    case present
    have tokens: "\<forall>c\<in>set ?C. \<not> isJoinTokenEntry c" using tok present(1) by auto
    have "distinct cs" using ids by (simp add: distinct_map)
    from survivors_declared [OF present(1) this tokens]
    have "filter (\<lambda>c. c \<notin> set (key_deletes (at_key H k cs ds))) ?C = [c]"
      by (rule trans) (simp add: present(2))
    moreover have "new = []" using new present by (simp add: key_creates_def)
    ultimately have "current_at H k cs' = [apply_update ?us c]" using C' by (intro mset_single) simp
    then show ?thesis
      using updated_in_sync [OF plan ids present pref [OF present(1)] refl] present(1)
      by (simp add: key_synced_def)
  qed
qed

end
