(* ===== verification/Entry_List_Cache.thy ===== *)
theory Entry_List_Cache
  imports Spire_Types
begin

section \<open>The entry list cache (pkg/spireentry/entry_list_cache.go)\<close>

text \<open>
  The in-memory mirror of the SPIRE entries the reconciler tracks, keyed by entry ID. A nil map
  (never loaded) is \<open>None\<close>. The methods that read the clock take its value. The cache is a keyed
  store; the reconciler relies on that contract only.
\<close>

subsection \<open>Definitions\<close>

record entryListCache =
  lc_reloadAfter :: Duration
  lc_entries :: "(string \<times> Entry) list option"
  lc_nextReload :: Time
  lc_filterKey :: string

definition cache_fresh :: "entryListCache \<Rightarrow> Time \<Rightarrow> string \<Rightarrow> bool" where
  "cache_fresh c now filterKey \<longleftrightarrow>
     lc_entries c \<noteq> None \<and> lc_filterKey c = filterKey \<and> now < lc_nextReload c"

text \<open>\<open>rng\<close> is the order in which a range statement visits the map.\<close>

definition cache_snapshot :: "((string \<times> Entry) list \<Rightarrow> (string \<times> Entry) list) \<Rightarrow> entryListCache \<Rightarrow> Entry list" where
  "cache_snapshot rng c = (case lc_entries c of None \<Rightarrow> [] | Some m \<Rightarrow> map snd (rng m))"

definition cache_replace :: "entryListCache \<Rightarrow> Time \<Rightarrow> string \<Rightarrow> Entry list \<Rightarrow> entryListCache" where
  "cache_replace c now filterKey entries =
     c\<lparr>lc_entries := Some (foldl (\<lambda>m e. map_put (e_ID e) e m) [] entries),
       lc_filterKey := filterKey,
       lc_nextReload := now + lc_reloadAfter c\<rparr>"

definition cache_upsert :: "entryListCache \<Rightarrow> Entry \<Rightarrow> entryListCache" where
  "cache_upsert c e =
     (case lc_entries c of None \<Rightarrow> c | Some m \<Rightarrow> c\<lparr>lc_entries := Some (map_put (e_ID e) e m)\<rparr>)"

definition cache_drop :: "entryListCache \<Rightarrow> string \<Rightarrow> entryListCache" where
  "cache_drop c i =
     (case lc_entries c of None \<Rightarrow> c | Some m \<Rightarrow> c\<lparr>lc_entries := Some (map_delete i m)\<rparr>)"

definition cache_invalidate :: "entryListCache \<Rightarrow> entryListCache" where
  "cache_invalidate c = c\<lparr>lc_nextReload := time_zero\<rparr>"

subsection \<open>The cache as a keyed store\<close>

definition cache_lookup :: "entryListCache \<Rightarrow> string \<Rightarrow> Entry option" where
  "cache_lookup c i = (case lc_entries c of None \<Rightarrow> None | Some m \<Rightarrow> map_of m i)"

text \<open>Every entry is stored under its own ID, once.\<close>

definition cache_wf :: "entryListCache \<Rightarrow> bool" where
  "cache_wf c \<longleftrightarrow> (case lc_entries c of None \<Rightarrow> True
     | Some m \<Rightarrow> distinct (map fst m) \<and> (\<forall>(k, e)\<in>set m. k = e_ID e))"

definition cache_loaded :: "entryListCache \<Rightarrow> bool" where
  "cache_loaded c \<longleftrightarrow> cache_wf c \<and> lc_entries c \<noteq> None"

lemma map_put_wf:
  "\<forall>(k, e)\<in>set m. k = e_ID e \<Longrightarrow> \<forall>(k, e')\<in>set (map_put (e_ID e) e m). k = e_ID e'"
  using set_map_put [of "e_ID e" e m] by auto

lemma cache_upsert_wf: "cache_wf c \<Longrightarrow> cache_wf (cache_upsert c e)"
  using map_put_wf [of "the (lc_entries c)" e]
  by (cases "lc_entries c") (simp_all add: cache_wf_def cache_upsert_def distinct_map_put)

lemma cache_drop_wf: "cache_wf c \<Longrightarrow> cache_wf (cache_drop c i)"
  by (auto simp: cache_wf_def cache_drop_def distinct_map_delete split: option.splits)
    (auto simp: map_delete_def)

lemma cache_invalidate_wf: "cache_wf c \<Longrightarrow> cache_wf (cache_invalidate c)"
  by (simp add: cache_wf_def cache_invalidate_def)

lemma foldl_put_wf:
  "distinct (map fst m) \<Longrightarrow> \<forall>(k, e)\<in>set m. k = e_ID e \<Longrightarrow>
     distinct (map fst (foldl (\<lambda>m e. map_put (e_ID e) e m) m es)) \<and>
     (\<forall>(k, e)\<in>set (foldl (\<lambda>m e. map_put (e_ID e) e m) m es). k = e_ID e)"
proof (induction es arbitrary: m)
  case (Cons e es)
  show ?case
    using Cons.IH [of "map_put (e_ID e) e m"] Cons.prems by (simp add: distinct_map_put map_put_wf)
qed simp

lemma cache_replace_wf: "cache_wf (cache_replace c now k es)"
  using foldl_put_wf [of "[]" es] by (simp add: cache_wf_def cache_replace_def)

lemma cache_replace_loaded: "cache_loaded (cache_replace c now k es)"
  using cache_replace_wf by (auto simp: cache_loaded_def cache_replace_def)

lemmas cache_wf_ops =
  cache_upsert_wf cache_drop_wf cache_invalidate_wf cache_replace_wf

interpretation list_cache: keyed_store cache_lookup cache_upsert cache_drop e_ID cache_loaded
  by unfold_locales
    (auto simp: cache_lookup_def cache_upsert_def cache_drop_def cache_loaded_def fun_eq_iff
      map_of_map_put map_of_map_delete cache_upsert_wf cache_drop_wf
      dest: cache_upsert_wf cache_drop_wf split: option.splits)

lemma snapshot_iff_lookup:
  assumes "\<And>m. mset (rng m) = mset m" "cache_wf c"
  shows "e \<in> set (cache_snapshot rng c) \<longleftrightarrow> cache_lookup c (e_ID e) = Some e"
proof (cases "lc_entries c")
  case (Some m)
  have "set (rng m) = set m" using assms(1) by (metis set_mset_mset)
  moreover have d: "distinct (map fst m)" "\<And>k e. (k, e) \<in> set m \<Longrightarrow> k = e_ID e" using Some assms(2) by (auto simp: cache_wf_def)
  moreover have "map_of m (e_ID e) = Some e \<longleftrightarrow> (e_ID e, e) \<in> set m" using d(1) by simp
  moreover have "e \<in> snd ` set m \<longleftrightarrow> (e_ID e, e) \<in> set m"
  proof
    assume "e \<in> snd ` set m"
    then obtain k where k: "(k, e) \<in> set m" by auto
    with d(2) [OF k] show "(e_ID e, e) \<in> set m" by simp
  qed (metis imageI snd_conv)
  ultimately show ?thesis using Some by (simp add: cache_snapshot_def cache_lookup_def)
qed (simp add: cache_snapshot_def cache_lookup_def)

lemma snapshot_distinct:
  assumes "\<And>m. mset (rng m) = mset m" "cache_wf c"
  shows "distinct (map e_ID (cache_snapshot rng c))"
proof (cases "lc_entries c")
  case (Some m)
  have "mset (map e_ID (map snd (rng m))) = mset (map e_ID (map snd m))" using assms(1) by (metis mset_map)
  moreover have "map e_ID (map snd m) = map fst m" using Some assms(2) by (auto simp: cache_wf_def)
  moreover have "distinct (map fst m)" using Some assms(2) by (simp add: cache_wf_def)
  ultimately have "distinct (map e_ID (map snd (rng m)))" by (metis mset_eq_imp_distinct_iff)
  then show ?thesis using Some by (simp add: cache_snapshot_def del: map_map)
qed (simp add: cache_snapshot_def)

lemma snapshot_replace:
  assumes "distinct (map e_ID es)"
  shows "cache_snapshot (\<lambda>m. m) (cache_replace c now k es) = es"
proof -
  have "foldl (\<lambda>m e. map_put (e_ID e) e m) m xs = m @ map (\<lambda>e. (e_ID e, e)) xs"
    if "distinct (map e_ID xs)" "e_ID ` set xs \<inter> fst ` set m = {}" for xs m
    using that
  proof (induction xs arbitrary: m)
    case (Cons x xs)
    then have "map_put (e_ID x) x m = m @ [(e_ID x, x)]" by (intro map_put_fresh) auto
    moreover have "foldl (\<lambda>m e. map_put (e_ID e) e m) (m @ [(e_ID x, x)]) xs =
        (m @ [(e_ID x, x)]) @ map (\<lambda>e. (e_ID e, e)) xs"
      using Cons.prems by (intro Cons.IH) auto
    ultimately show ?case by simp
  qed simp
  from this [of es "[]"] assms show ?thesis
    by (simp add: cache_snapshot_def cache_replace_def comp_def)
qed

lemma invalidate_not_fresh: "time_zero \<le> now \<Longrightarrow> \<not> cache_fresh (cache_invalidate c) now k"
  by (simp add: cache_fresh_def cache_invalidate_def)

lemma replace_fresh_iff:
  "cache_fresh (cache_replace c now k es) now' k' \<longleftrightarrow> k' = k \<and> now' < now + lc_reloadAfter c"
  by (auto simp: cache_fresh_def cache_replace_def)

text \<open>Changes never make a cache fresh that was not.\<close>

lemma upsert_fresh [simp]: "cache_fresh (cache_upsert c e) now k = cache_fresh c now k"
  by (auto simp: cache_fresh_def cache_upsert_def split: option.splits)

lemma drop_fresh [simp]: "cache_fresh (cache_drop c i) now k = cache_fresh c now k"
  by (auto simp: cache_fresh_def cache_drop_def split: option.splits)

end
