(* ===== verification/Entry_Reconciler.thy ===== *)
theory Entry_Reconciler
  imports Entry_Plan Entry_List_Cache
begin

section \<open>The entry reconciler (pkg/spireentry/reconciler.go)\<close>

text \<open>
  The reconciler's configuration and state, the listing of resources and entries, the collection
  of declared entries, the calls that carry out the plan, and \<open>reconcile\<close> itself, composed of them
  in the order of the source. SPIRE calls thread the world \<open>'w\<close>; reads of Kubernetes objects are
  functions of it; status updates change it. A reconcile that does not return (a page loop that
  never ends, or the dereference of a nil client or path) has the value \<open>None\<close>.

  Parameters, bundled in \<open>entry_env\<close>: the library functions of the custom resources, SHA-256, the
  clock, the manifest loader, the LRU cache of golang-lru, \<open>json.Marshal\<close> of a parsed spec, the
  stream of UUIDs and the iteration orders of the two Go maps that are ranged over.
\<close>

subsection \<open>Configuration and state\<close>

record ReconcileConfig =
  rk_ClusterSPIFFEIDs :: bool
  rk_ClusterFederatedTrustDomains :: bool
  rk_ClusterStaticEntries :: bool

text \<open>A compiled regular expression is its \<open>MatchString\<close>.\<close>

type_synonym Regexp = "string \<Rightarrow> bool"

record 'w ReconcilerConfig =
  rc_TrustDomain :: TrustDomain
  rc_ClusterName :: string
  rc_ClusterDomain :: string
  rc_EntryClient :: "'w EntryClient"
  rc_K8sClient :: "'w K8sClient option"
  rc_IgnoreNamespaces :: "Regexp list"
  rc_ClassName :: string
  rc_WatchClassless :: bool
  rc_ParentIDTemplate :: "Template option"
  rc_Reconcile :: ReconcileConfig
  rc_EntryIDPrefix :: string
  rc_EntryIDPrefixCleanup :: "string option"
  rc_StaticManifestPath :: "string option"
  rc_ExpandEnvStaticManifests :: bool
  rc_EnableEntryRenderCache :: bool
  rc_EntryRenderCacheSize :: int
  rc_EnableEntryListCache :: bool
  rc_EntryListCacheReloadInterval :: Duration
  rc_EnableEntryListHintFilter :: bool

record cachedEntry =
  ce_entry :: Entry
  ce_podRV :: string
  ce_nodeRV :: string
  ce_specHash :: string
  ce_endpointsRV :: string

record 'c lru_lib =
  lru_New :: "int \<Rightarrow> 'c result"
  lru_Get :: "'c \<Rightarrow> string \<Rightarrow> 'c \<times> cachedEntry option"
  lru_Add :: "'c \<Rightarrow> string \<Rightarrow> cachedEntry \<Rightarrow> 'c"

record ('w, 'c) entry_env =
  ee_crd :: crd_libs
  ee_sha256hex :: "string \<Rightarrow> string"
  ee_Now :: "'w \<Rightarrow> Time"
  ee_loader :: "'w \<Rightarrow> crd_ClusterStaticEntry loader"
  ee_lru :: "'c lru_lib"
  ee_json_Marshal :: "ParsedClusterSPIFFEIDSpec \<Rightarrow> string result"
  ee_uuid :: "nat \<Rightarrow> string"
  ee_range :: "entriesState \<Rightarrow> entriesState"
  ee_rangeEntries :: "(string \<times> Entry) list \<Rightarrow> (string \<times> Entry) list"

text \<open>The state of the reconciler, with the three Prometheus counters and the number of UUIDs drawn.\<close>

record 'c entryReconciler =
  er_unsupportedFields :: "Field set"
  er_nextGetUnsupportedFields :: Time
  er_renderCache :: "'c option"
  er_entryCache :: "entryListCache option"
  er_EntryListCacheHits :: nat
  er_EntryListServerCalls :: nat
  er_StaticEntryFailures :: nat
  er_UUIDs :: nat

definition env_spiffeid :: "('w, 'c) entry_env \<Rightarrow> spiffeid_lib" where
  "env_spiffeid E = cl_spiffeid (ee_crd E)"

definition env_libs :: "('w, 'c) entry_env \<Rightarrow> entry_libs" where
  "env_libs E = \<lparr>el_spiffeid = env_spiffeid E, el_sha256hex = ee_sha256hex E\<rparr>"

definition defaultEntryRenderCacheSize :: int where "defaultEntryRenderCacheSize = 300000"
definition defaultEntryListCacheReloadInterval :: Duration where "defaultEntryListCacheReloadInterval = Hour"

definition Reconciler :: "('w, 'c) entry_env \<Rightarrow> 'w ReconcilerConfig \<Rightarrow> 'c entryReconciler" where
  "Reconciler E cfg =
     \<lparr>er_unsupportedFields = {},
      er_nextGetUnsupportedFields = time_zero,
      er_renderCache =
        (if rc_EnableEntryRenderCache cfg then
           (case lru_New (ee_lru E) (if rc_EntryRenderCacheSize cfg \<le> 0 then defaultEntryRenderCacheSize
                                     else rc_EntryRenderCacheSize cfg) of
              Inl _ \<Rightarrow> None | Inr c \<Rightarrow> Some c)
         else None),
      er_entryCache =
        (if rc_EnableEntryListCache cfg then
           Some \<lparr>lc_reloadAfter = (if rc_EntryListCacheReloadInterval cfg \<le> 0
                                   then defaultEntryListCacheReloadInterval
                                   else rc_EntryListCacheReloadInterval cfg),
                 lc_entries = None, lc_nextReload = time_zero, lc_filterKey = ''''\<rparr>
         else None),
      er_EntryListCacheHits = 0, er_EntryListServerCalls = 0, er_StaticEntryFailures = 0, er_UUIDs = 0\<rparr>"

subsection \<open>Classes, ownership and listing of entries\<close>

definition reconcileClass :: "'w ReconcilerConfig \<Rightarrow> string \<Rightarrow> bool" where
  "reconcileClass cfg className \<longleftrightarrow>
     (className = '''' \<and> rc_WatchClassless cfg) \<or> className = rc_ClassName cfg"

text \<open>Process the entry, or delete it without further processing.\<close>

definition shouldProcessOrDeleteEntryID :: "'w ReconcilerConfig \<Rightarrow> Entry \<Rightarrow> bool \<times> bool" where
  "shouldProcessOrDeleteEntryID cfg entry =
     (if rc_EntryIDPrefix cfg = '''' then (True, False)
      else if HasPrefix (e_ID entry) (rc_EntryIDPrefix cfg) then (True, False)
      else case rc_EntryIDPrefixCleanup cfg of
        Some cleanupPrefix \<Rightarrow>
          (if cleanupPrefix = '''' then (False, \<not> ContainsChar (e_ID entry) CHR ''.'')
           else if HasPrefix (e_ID entry) cleanupPrefix then (False, True)
           else (False, False))
      | None \<Rightarrow> (False, False))"

definition splitEntries :: "'w ReconcilerConfig \<Rightarrow> Entry list \<Rightarrow> Entry list \<times> Entry list" where
  "splitEntries cfg entries =
     (filter (\<lambda>e. fst (shouldProcessOrDeleteEntryID cfg e)) entries,
      filter (\<lambda>e. snd (shouldProcessOrDeleteEntryID cfg e)) entries)"

definition entryListHints ::
  "'w ReconcilerConfig \<Rightarrow> ClusterSPIFFEID list \<Rightarrow> ClusterStaticEntry list \<Rightarrow> string list" where
  "entryListHints cfg clusterSPIFFEIDs clusterStaticEntries =
     (if \<not> rc_EnableEntryListHintFilter cfg then []
      else
        (let hints = map (\<lambda>c. cs_Hint (csid_Spec (bsi_Resource c))) clusterSPIFFEIDs @
                     map (\<lambda>c. se_Hint (cse_Spec (bse_Resource c))) clusterStaticEntries
         in if '''' \<in> set hints then [] else sort_Strings (lo_Uniq hints)))"

definition filter_key :: "string list \<Rightarrow> string" where
  "filter_key hints = Join hints [CHR 0x00]"

definition er_listEntries ::
  "('w, 'c) entry_env \<Rightarrow> 'w ReconcilerConfig \<Rightarrow> 'c entryReconciler \<Rightarrow> string list \<Rightarrow> 'w
     \<Rightarrow> ('w \<times> 'c entryReconciler \<times> (Entry list \<times> Entry list) result) option" where
  "er_listEntries E cfg r hints w =
     (let filterKey = filter_key hints;
          fresh = (case er_entryCache r of None \<Rightarrow> None
                   | Some c \<Rightarrow> if cache_fresh c (ee_Now E w) filterKey then Some c else None)
      in case fresh of
        Some c \<Rightarrow>
          Some (w, r\<lparr>er_EntryListCacheHits := er_EntryListCacheHits r + 1\<rparr>,
                Inr (splitEntries cfg (cache_snapshot (ee_rangeEntries E) c)))
      | None \<Rightarrow>
          (let r = r\<lparr>er_EntryListServerCalls := er_EntryListServerCalls r + 1\<rparr> in
           case ec_ListEntries (rc_EntryClient cfg) w hints of
             None \<Rightarrow> None
           | Some (w', Inl e) \<Rightarrow> Some (w', r, Inl e)
           | Some (w', Inr entries) \<Rightarrow>
               (let (currentEntries, deleteOnlyEntries) = splitEntries cfg entries;
                    r = (case er_entryCache r of None \<Rightarrow> r
                         | Some c \<Rightarrow> r\<lparr>er_entryCache :=
                             Some (cache_replace c (ee_Now E w') filterKey (currentEntries @ deleteOnlyEntries))\<rparr>)
                in Some (w', r, Inr (currentEntries, deleteOnlyEntries)))))"

subsection \<open>Unsupported fields\<close>

definition recalculateUnsupportFields ::
  "('w, 'c) entry_env \<Rightarrow> 'w ReconcilerConfig \<Rightarrow> 'c entryReconciler \<Rightarrow> 'w \<Rightarrow> ('w \<times> 'c entryReconciler) option" where
  "recalculateUnsupportFields E cfg r w =
     (case ec_GetUnsupportedFields (rc_EntryClient cfg) w (td_Name (rc_TrustDomain cfg)) (rc_EntryIDPrefix cfg) of
        None \<Rightarrow> None
      | Some (w', Inl e) \<Rightarrow> Some (w', r)
      | Some (w', Inr unsupportedFields) \<Rightarrow>
          Some (w', r\<lparr>er_unsupportedFields := unsupportedFields,
                      er_nextGetUnsupportedFields := ee_Now E w' + 10 * Minute\<rparr>))"

subsection \<open>Listing resources\<close>

definition initStaticStatus :: ClusterStaticEntryStatus where
  "initStaticStatus = \<lparr>ses_Rendered = False, ses_Masked = False, ses_Set = False\<rparr>"

definition initSPIFFEIDStatus :: ClusterSPIFFEIDStatus where
  "initSPIFFEIDStatus =
     \<lparr>st_NamespacesSelected = 0, st_NamespacesIgnored = 0, st_PodsSelected = 0, st_PodEntryRenderFailures = 0,
      st_EntriesMasked = 0, st_EntriesToSet = 0, st_EntryFailures = 0\<rparr>"

definition listClusterStaticEntries ::
  "('w, 'c) entry_env \<Rightarrow> 'w ReconcilerConfig \<Rightarrow> 'w \<Rightarrow> ClusterStaticEntry list result option" where
  "listClusterStaticEntries E cfg w =
     (case (case rc_K8sClient cfg of
              Some K \<Rightarrow> Some (ListClusterStaticEntries K w)
            | None \<Rightarrow>
                (case rc_StaticManifestPath cfg of
                   None \<Rightarrow> None
                 | Some path \<Rightarrow>
                     Some (static_ListClusterStaticEntries (ee_loader E w) path (rc_ExpandEnvStaticManifests cfg))))
      of None \<Rightarrow> None
      | Some res \<Rightarrow>
          Some (bindE res (\<lambda>clusterStaticEntries.
            Inr (map (\<lambda>c. \<lparr>bse_Resource = c, bse_NextStatus = initStaticStatus\<rparr>)
                   (filter (\<lambda>c. reconcileClass cfg (se_ClassName (cse_Spec c))) clusterStaticEntries)))))"

definition listClusterSPIFFEIDs :: "'w ReconcilerConfig \<Rightarrow> 'w \<Rightarrow> ClusterSPIFFEID list result option" where
  "listClusterSPIFFEIDs cfg w =
     (case rc_K8sClient cfg of
        None \<Rightarrow> None
      | Some K \<Rightarrow>
          Some (bindE (ListClusterSPIFFEIDs K w) (\<lambda>clusterSPIFFEIDs.
            Inr (map (\<lambda>c. \<lparr>bsi_Resource = c, bsi_NextStatus = initSPIFFEIDStatus\<rparr>)
                   (filter (\<lambda>c. reconcileClass cfg (cs_ClassName (csid_Spec c))) clusterSPIFFEIDs)))))"

type_synonym nodeMap = "(string \<times> Node) list"

definition buildNodeMap :: "'w K8sClient \<Rightarrow> 'w \<Rightarrow> nodeMap result" where
  "buildNodeMap K w =
     bindE (ListNodes K w) (\<lambda>nodes. Inr (foldl (\<lambda>m n. map_put (om_Name (node_Meta n)) n m) [] nodes))"

text \<open>\<open>namespace.IsIgnored\<close> (pkg/namespace).\<close>

definition IsIgnored :: "Regexp list \<Rightarrow> string \<Rightarrow> bool" where
  "IsIgnored ignoredNamespaces namespace \<longleftrightarrow> list_ex (\<lambda>regex. regex namespace) ignoredNamespaces"

subsection \<open>Declared entries of static entries\<close>

text \<open>The loops over the wrappers run over their indices; \<open>state\<close> and \<open>store\<close> are the entries state
  and the wrappers they change. The first component counts the render failures.\<close>

definition addStaticEntry ::
  "('w, 'c) entry_env \<Rightarrow> nat \<times> entriesState \<times> byStore \<Rightarrow> nat \<times> ClusterStaticEntry \<Rightarrow> nat \<times> entriesState \<times> byStore" where
  "addStaticEntry E acc ic =
     (case (acc, ic) of ((failures, state, store), (i, c)) \<Rightarrow>
        (case renderStaticEntry (env_spiffeid E) (cse_Spec (bse_Resource c)) of
           Inl _ \<Rightarrow> (failures + 1, state, modify_static i (\<lambda>s. s\<lparr>ses_Rendered := False\<rparr>) store)
         | Inr entry \<Rightarrow>
             (failures,
              AddDeclared (env_libs E) state entry
                \<lparr>by_Ref = ByStaticEntry i, by_Meta = cse_Meta (bse_Resource c)\<rparr>,
              modify_static i (\<lambda>s. s\<lparr>ses_Rendered := True\<rparr>) store)))"

definition addClusterStaticEntryEntriesState ::
  "('w, 'c) entry_env \<Rightarrow> entriesState \<Rightarrow> byStore \<Rightarrow> nat \<times> entriesState \<times> byStore" where
  "addClusterStaticEntryEntriesState E state store =
     foldl (addStaticEntry E) (0, state, store) (enumerate 0 (bs_StaticEntries store))"

subsection \<open>Rendering pod entries through the render cache\<close>

definition isValid :: "cachedEntry \<Rightarrow> string \<Rightarrow> string \<Rightarrow> string \<Rightarrow> string \<Rightarrow> bool" where
  "isValid c podRV nodeRV specHash endpointsRV \<longleftrightarrow>
     ce_podRV c = podRV \<and> ce_nodeRV c = nodeRV \<and> ce_specHash c = specHash \<and> ce_endpointsRV c = endpointsRV"

definition podEntryCacheKey :: "string \<Rightarrow> string" where
  "podEntryCacheKey podUID = podUID"

text \<open>\<open>ee_sha256hex\<close> is SHA-256 with the hexadecimal encoding of its result.\<close>

definition computeObjectHash :: "('w, 'c) entry_env \<Rightarrow> ParsedClusterSPIFFEIDSpec \<Rightarrow> string result" where
  "computeObjectHash E obj = bindE (ee_json_Marshal E obj) (\<lambda>data. Inr (ee_sha256hex E data))"

fun computeEndpointsRV_from :: "nat \<Rightarrow> Endpoints list \<Rightarrow> string" where
  "computeEndpointsRV_from i [] = ''''"
| "computeEndpointsRV_from i (item # items) =
     (if i > 0 then '','' else '''') @ om_ResourceVersion (ep_Meta item) @ computeEndpointsRV_from (i + 1) items"

definition computeEndpointsRV :: "Endpoints list \<Rightarrow> string" where
  "computeEndpointsRV items = computeEndpointsRV_from 0 items"

definition EndpointUID :: string where
  "EndpointUID = ''subsets.addresses.targetRef.uid''"

definition render ::
  "('w, 'c) entry_env \<Rightarrow> 'w ReconcilerConfig \<Rightarrow> ParsedClusterSPIFFEIDSpec \<Rightarrow> Node \<Rightarrow> Pod \<Rightarrow> Endpoints list \<Rightarrow> Entry result" where
  "render E cfg spec node pod endpointsList =
     renderPodEntry (env_spiffeid E) spec node pod endpointsList (rc_TrustDomain cfg) (rc_ClusterName cfg)
       (rc_ClusterDomain cfg) (rc_ParentIDTemplate cfg)"

definition podEndpoints ::
  "'w K8sClient \<Rightarrow> 'w \<Rightarrow> ParsedClusterSPIFFEIDSpec \<Rightarrow> Pod \<Rightarrow> Endpoints list result" where
  "podEndpoints K w spec pod =
     (if ps_AutoPopulateDNSNames spec then
        (case k8s_ListEndpoints K w
                [InNamespace (om_Namespace (pod_Meta pod)), MatchingFields EndpointUID (om_UID (pod_Meta pod))] of
           Inl ApiNotFound \<Rightarrow> Inr []
         | res \<Rightarrow> res)
      else Inr [])"

definition er_renderPodEntry ::
  "('w, 'c) entry_env \<Rightarrow> 'w ReconcilerConfig \<Rightarrow> 'w K8sClient \<Rightarrow> 'w \<Rightarrow> 'c option \<Rightarrow> ParsedClusterSPIFFEIDSpec \<Rightarrow> Pod
     \<Rightarrow> string \<Rightarrow> nodeMap \<Rightarrow> 'c option \<times> Entry result" where
  "er_renderPodEntry E cfg K w renderCache spec pod specHash nodeMap =
     (case map_of nodeMap (ps_NodeName (pod_Spec pod)) of
        None \<Rightarrow> (renderCache, Inl (Err ''node not found in cache''))
      | Some node \<Rightarrow>
          (case podEndpoints K w spec pod of
             Inl e \<Rightarrow> (renderCache, Inl e)
           | Inr endpointsList \<Rightarrow>
               (case renderCache of
                  None \<Rightarrow> (None, render E cfg spec node pod endpointsList)
                | Some c \<Rightarrow>
                    (let endpointsRV = computeEndpointsRV endpointsList;
                         podRV = om_ResourceVersion (pod_Meta pod);
                         nodeRV = om_ResourceVersion (node_Meta node);
                         key = podEntryCacheKey (om_UID (pod_Meta pod));
                         (c, cached) = lru_Get (ee_lru E) c key;
                         hit = (case cached of None \<Rightarrow> None
                                | Some ce \<Rightarrow> if isValid ce podRV nodeRV specHash endpointsRV then Some ce else None)
                     in case hit of
                       Some ce \<Rightarrow> (Some c, Inr (ce_entry ce))
                     | None \<Rightarrow>
                         (case render E cfg spec node pod endpointsList of
                            Inl e \<Rightarrow> (Some c, Inl e)
                          | Inr entry \<Rightarrow>
                              (Some (lru_Add (ee_lru E) c key
                                 \<lparr>ce_entry = entry, ce_podRV = podRV, ce_nodeRV = nodeRV,
                                  ce_specHash = specHash, ce_endpointsRV = endpointsRV\<rparr>),
                               Inr entry))))))"

subsection \<open>Declared entries of ClusterSPIFFEIDs\<close>

record 'c sid_acc =
  sa_renderCache :: "'c option"
  sa_State :: entriesState
  sa_Store :: byStore
  sa_NonFallbackApplied :: "string set"

definition sid_stat :: "nat \<Rightarrow> (ClusterSPIFFEIDStats \<Rightarrow> ClusterSPIFFEIDStats) \<Rightarrow> 'c sid_acc \<Rightarrow> 'c sid_acc" where
  "sid_stat i f a = a\<lparr>sa_Store := modify_spiffeid i f (sa_Store a)\<rparr>"

definition addPod ::
  "('w, 'c) entry_env \<Rightarrow> 'w ReconcilerConfig \<Rightarrow> 'w K8sClient \<Rightarrow> 'w \<Rightarrow> nodeMap \<Rightarrow> nat \<Rightarrow> crd_ClusterSPIFFEID
     \<Rightarrow> ParsedClusterSPIFFEIDSpec \<Rightarrow> string \<Rightarrow> 'c sid_acc \<Rightarrow> Pod \<Rightarrow> 'c sid_acc" where
  "addPod E cfg K w nodeMap i c spec specHash a pod =
     (if om_UID (pod_Meta pod) \<in> sa_NonFallbackApplied a \<and> cs_Fallback (csid_Spec c) then a
      else
        (let (renderCache, res) = er_renderPodEntry E cfg K w (sa_renderCache a) spec pod specHash nodeMap;
             a = a\<lparr>sa_renderCache := renderCache\<rparr>
         in case res of
           Inl _ \<Rightarrow> sid_stat i (\<lambda>s. s\<lparr>st_PodEntryRenderFailures := st_PodEntryRenderFailures s + 1\<rparr>) a
         | Inr entry \<Rightarrow>
             (let a = a\<lparr>sa_State := AddDeclared (env_libs E) (sa_State a) entry
                          \<lparr>by_Ref = BySPIFFEID i, by_Meta = csid_Meta c\<rparr>\<rparr>
              in if \<not> cs_Fallback (csid_Spec c)
                 then a\<lparr>sa_NonFallbackApplied := insert (om_UID (pod_Meta pod)) (sa_NonFallbackApplied a)\<rparr>
                 else a)))"

definition addNamespace ::
  "('w, 'c) entry_env \<Rightarrow> 'w ReconcilerConfig \<Rightarrow> 'w K8sClient \<Rightarrow> 'w \<Rightarrow> nodeMap \<Rightarrow> nat \<Rightarrow> crd_ClusterSPIFFEID
     \<Rightarrow> ParsedClusterSPIFFEIDSpec \<Rightarrow> string \<Rightarrow> 'c sid_acc \<Rightarrow> Namespace \<Rightarrow> 'c sid_acc" where
  "addNamespace E cfg K w nodeMap i c spec specHash a ns =
     (if IsIgnored (rc_IgnoreNamespaces cfg) (om_Name (ns_Meta ns))
      then sid_stat i (\<lambda>s. s\<lparr>st_NamespacesIgnored := st_NamespacesIgnored s + 1\<rparr>) a
      else case ListNamespacePods K w (om_Name (ns_Meta ns)) (ps_PodSelector spec) of
        Inl _ \<Rightarrow> a
      | Inr pods \<Rightarrow>
          foldl (addPod E cfg K w nodeMap i c spec specHash)
            (sid_stat i (\<lambda>s. s\<lparr>st_PodsSelected := st_PodsSelected s + length pods\<rparr>) a) pods)"

definition addClusterSPIFFEID ::
  "('w, 'c) entry_env \<Rightarrow> 'w ReconcilerConfig \<Rightarrow> 'w K8sClient \<Rightarrow> 'w \<Rightarrow> nodeMap \<Rightarrow> 'c sid_acc \<Rightarrow> nat \<times> ClusterSPIFFEID \<Rightarrow> 'c sid_acc" where
  "addClusterSPIFFEID E cfg K w nodeMap a ic =
     (let i = fst ic; c = bsi_Resource (snd ic) in
      case ParseClusterSPIFFEIDSpec (ee_crd E) (csid_Spec c) of
        Inl _ \<Rightarrow> a
      | Inr spec \<Rightarrow>
          (case (if sa_renderCache a \<noteq> None then computeObjectHash E spec else Inr '''') of
             Inl _ \<Rightarrow> a
           | Inr specHash \<Rightarrow>
               (case ListNamespaces K w (ps_NamespaceSelector spec) of
                  Inl _ \<Rightarrow> a
                | Inr namespaces \<Rightarrow>
                    foldl (addNamespace E cfg K w nodeMap i c spec specHash)
                      (sid_stat i (\<lambda>s. s\<lparr>st_NamespacesSelected := st_NamespacesSelected s + length namespaces\<rparr>) a)
                      namespaces)))"

abbreviation is_fallback :: "ClusterSPIFFEID \<Rightarrow> bool" where
  "is_fallback c \<equiv> cs_Fallback (csid_Spec (bsi_Resource c))"

text \<open>The slice is sorted in place, so the caller sees the sorted order as well: fallbacks last.\<close>

definition addClusterSPIFFEIDEntriesState ::
  "('w, 'c) entry_env \<Rightarrow> 'w ReconcilerConfig \<Rightarrow> 'w K8sClient \<Rightarrow> 'w \<Rightarrow> 'c option \<Rightarrow> entriesState \<Rightarrow> byStore \<Rightarrow> nodeMap \<Rightarrow> 'c sid_acc" where
  "addClusterSPIFFEIDEntriesState E cfg K w renderCache state store nodeMap =
     (let sorted = sort_by (\<lambda>x y. \<not> is_fallback x \<and> is_fallback y) (bs_SPIFFEIDs store) in
      foldl (addClusterSPIFFEID E cfg K w nodeMap)
        \<lparr>sa_renderCache = renderCache, sa_State = state, sa_Store = store\<lparr>bs_SPIFFEIDs := sorted\<rparr>,
         sa_NonFallbackApplied = {}\<rparr>
        (enumerate 0 sorted))"

subsection \<open>Carrying out the plan\<close>

definition on_cache :: "(entryListCache \<Rightarrow> entryListCache) \<Rightarrow> 'c entryReconciler \<Rightarrow> 'c entryReconciler" where
  "on_cache f r = (case er_entryCache r of None \<Rightarrow> r | Some c \<Rightarrow> r\<lparr>er_entryCache := Some (f c)\<rparr>)"

definition create_status :: "'c entryReconciler \<times> byStore \<Rightarrow> declaredEntry \<times> Status \<Rightarrow> 'c entryReconciler \<times> byStore" where
  "create_status rs ds =
     (let (r, store) = rs; (d, status) = ds; by = by_Ref (de_By d) in
      if st_Code status = codes_OK
      then (on_cache (\<lambda>c. cache_upsert c (de_Entry d)) r, IncrementEntrySuccess by store)
      else (if st_Code status = codes_AlreadyExists then on_cache cache_invalidate r else r,
            IncrementEntryFailures by store))"

definition createEntries ::
  "'w ReconcilerConfig \<Rightarrow> 'c entryReconciler \<Rightarrow> byStore \<Rightarrow> 'w \<Rightarrow> declaredEntry list \<Rightarrow> 'w \<times> 'c entryReconciler \<times> byStore" where
  "createEntries cfg r store w declaredEntries =
     (case ec_CreateEntries (rc_EntryClient cfg) w (entriesFromDeclaredEntries declaredEntries) of
        (w', statuses, Some e) \<Rightarrow>
          (w', on_cache cache_invalidate r,
           foldl (\<lambda>st d. IncrementEntryFailures (by_Ref (de_By d)) st) store declaredEntries)
      | (w', statuses, None) \<Rightarrow> (w', foldl create_status (r, store) (zip declaredEntries statuses)))"

definition update_status :: "'c entryReconciler \<times> byStore \<Rightarrow> declaredEntry \<times> Status \<Rightarrow> 'c entryReconciler \<times> byStore" where
  "update_status rs ds =
     (let (r, store) = rs; (d, status) = ds in
      if st_Code status = codes_OK
      then (on_cache (\<lambda>c. cache_upsert c (de_Entry d)) r, store)
      else (if st_Code status = codes_NotFound
            then on_cache (\<lambda>c. cache_invalidate (cache_drop c (e_ID (de_Entry d)))) r else r,
            IncrementEntryFailures (by_Ref (de_By d)) store))"

definition updateEntries ::
  "'w ReconcilerConfig \<Rightarrow> 'c entryReconciler \<Rightarrow> byStore \<Rightarrow> 'w \<Rightarrow> declaredEntry list \<Rightarrow> 'w \<times> 'c entryReconciler \<times> byStore" where
  "updateEntries cfg r store w declaredEntries =
     (case ec_UpdateEntries (rc_EntryClient cfg) w (entriesFromDeclaredEntries declaredEntries) of
        (w', statuses, Some e) \<Rightarrow>
          (w', on_cache cache_invalidate r,
           foldl (\<lambda>st d. IncrementEntryFailures (by_Ref (de_By d)) st) store declaredEntries)
      | (w', statuses, None) \<Rightarrow> (w', foldl update_status (r, store) (zip declaredEntries statuses)))"

definition delete_status :: "'c entryReconciler \<Rightarrow> Entry \<times> Status \<Rightarrow> 'c entryReconciler" where
  "delete_status r es =
     (let (entry, status) = es in
      if st_Code status = codes_OK then on_cache (\<lambda>c. cache_drop c (e_ID entry)) r
      else if st_Code status = codes_NotFound
      then on_cache (\<lambda>c. cache_invalidate (cache_drop c (e_ID entry))) r else r)"

definition deleteEntries ::
  "'w ReconcilerConfig \<Rightarrow> 'c entryReconciler \<Rightarrow> 'w \<Rightarrow> Entry list \<Rightarrow> 'w \<times> 'c entryReconciler" where
  "deleteEntries cfg r w entries =
     (case ec_DeleteEntries (rc_EntryClient cfg) w (idsFromEntries entries) of
        (w', statuses, Some e) \<Rightarrow> (w', on_cache cache_invalidate r)
      | (w', statuses, None) \<Rightarrow> (w', foldl delete_status r (zip entries statuses)))"

subsection \<open>Status updates\<close>

definition updateStaticStatus :: "'w K8sClient option \<Rightarrow> 'w \<Rightarrow> ClusterStaticEntry \<Rightarrow> 'w" where
  "updateStaticStatus K w c =
     (if cse_Status (bse_Resource c) = bse_NextStatus c then w
      else case K of
        None \<Rightarrow> w
      | Some k \<Rightarrow> fst (k8s_UpdateStaticEntryStatus k w ((bse_Resource c)\<lparr>cse_Status := bse_NextStatus c\<rparr>)))"

text \<open>Without a client the update of a ClusterSPIFFEID is a nil dereference, but no ClusterSPIFFEID is
  listed without one.\<close>

definition updateSPIFFEIDStatus :: "'w K8sClient option \<Rightarrow> 'w option \<Rightarrow> ClusterSPIFFEID \<Rightarrow> 'w option" where
  "updateSPIFFEIDStatus K ow c =
     (case ow of
        None \<Rightarrow> None
      | Some w \<Rightarrow>
          (if csid_Status (bsi_Resource c) = bsi_NextStatus c then Some w
           else case K of
             None \<Rightarrow> None
           | Some k \<Rightarrow>
               Some (fst (k8s_UpdateSPIFFEIDStatus k w ((bsi_Resource c)\<lparr>csid_Status := bsi_NextStatus c\<rparr>)))))"

subsection \<open>The reconcile function\<close>

text \<open>Populating the entries state (the middle of \<open>reconcile\<close>): the current entries, then the declared
  entries of static entries, then those of ClusterSPIFFEIDs, unless the nodes cannot be listed.\<close>

definition collect ::
  "('w, 'c) entry_env \<Rightarrow> 'w ReconcilerConfig \<Rightarrow> 'c entryReconciler \<Rightarrow> 'w \<Rightarrow> Entry list \<Rightarrow> byStore
     \<Rightarrow> ('c entryReconciler \<times> (entriesState \<times> byStore) result) option" where
  "collect E cfg r w currentEntries store =
     (let state = foldl (AddCurrent (env_libs E)) [] currentEntries;
          (failures, state, store) =
            (if rk_ClusterStaticEntries (rc_Reconcile cfg)
             then addClusterStaticEntryEntriesState E state store else (0, state, store));
          r = r\<lparr>er_StaticEntryFailures := er_StaticEntryFailures r + failures\<rparr>
      in if rk_ClusterSPIFFEIDs (rc_Reconcile cfg) then
           (case rc_K8sClient cfg of
              None \<Rightarrow> None
            | Some K \<Rightarrow>
                (case buildNodeMap K w of
                   Inl e \<Rightarrow> Some (r, Inl e)
                 | Inr nodeMap \<Rightarrow>
                     (let a = addClusterSPIFFEIDEntriesState E cfg K w (er_renderCache r) state store nodeMap
                      in Some (r\<lparr>er_renderCache := sa_renderCache a\<rparr>, Inr (sa_State a, sa_Store a)))))
         else Some (r, Inr (state, store)))"

text \<open>Carrying out the plan: deletions, creations, updates, then the statuses.\<close>

definition carryOut ::
  "'w ReconcilerConfig \<Rightarrow> 'c entryReconciler \<Rightarrow> 'w \<Rightarrow> plan \<Rightarrow> 'w \<times> 'c entryReconciler \<times> byStore" where
  "carryOut cfg r w p =
     (let (w, r) = (if pl_toDelete p \<noteq> [] then deleteEntries cfg r w (pl_toDelete p) else (w, r));
          (w, r, store) = (if pl_toCreate p \<noteq> [] then createEntries cfg r (pl_Store p) w (pl_toCreate p)
                           else (w, r, pl_Store p))
      in if pl_toUpdate p \<noteq> [] then updateEntries cfg r store w (pl_toUpdate p) else (w, r, store))"

definition updateStatuses :: "'w ReconcilerConfig \<Rightarrow> 'w \<Rightarrow> byStore \<Rightarrow> 'w option" where
  "updateStatuses cfg w store =
     foldl (updateSPIFFEIDStatus (rc_K8sClient cfg))
       (Some (foldl (updateStaticStatus (rc_K8sClient cfg)) w (bs_StaticEntries store))) (bs_SPIFFEIDs store)"

definition reconcile_entries ::
  "('w, 'c) entry_env \<Rightarrow> 'w ReconcilerConfig \<Rightarrow> 'c entryReconciler \<Rightarrow> 'w \<Rightarrow> byStore \<Rightarrow> Entry list \<Rightarrow> Entry list
     \<Rightarrow> ('w \<times> 'c entryReconciler) option" where
  "reconcile_entries E cfg r w store currentEntries deleteOnlyEntries =
     (case collect E cfg r w currentEntries store of
        None \<Rightarrow> None
      | Some (r, Inl e) \<Rightarrow> Some (w, r)
      | Some (r, Inr (state, store)) \<Rightarrow>
          (let p = makePlan (env_spiffeid E) (rc_EntryIDPrefix cfg) (ee_uuid E) (er_unsupportedFields r) store
                     (er_UUIDs r) (map snd (ee_range E state)) deleteOnlyEntries;
               (w, r, store) = carryOut cfg (r\<lparr>er_UUIDs := pl_UUIDs p\<rparr>) w p
           in case updateStatuses cfg w store of None \<Rightarrow> None | Some w \<Rightarrow> Some (w, r)))"

definition reconcile ::
  "('w, 'c) entry_env \<Rightarrow> 'w ReconcilerConfig \<Rightarrow> 'c entryReconciler \<Rightarrow> 'w \<Rightarrow> ('w \<times> 'c entryReconciler) option" where
  "reconcile E cfg r w =
     (case (if er_nextGetUnsupportedFields r < ee_Now E w then recalculateUnsupportFields E cfg r w else Some (w, r)) of
        None \<Rightarrow> None
      | Some (w, r) \<Rightarrow>
     (case (if rk_ClusterStaticEntries (rc_Reconcile cfg) then listClusterStaticEntries E cfg w else Some (Inr [])) of
        None \<Rightarrow> None
      | Some (Inl e) \<Rightarrow> Some (w, r)
      | Some (Inr clusterStaticEntries) \<Rightarrow>
     (case (if rk_ClusterSPIFFEIDs (rc_Reconcile cfg) then listClusterSPIFFEIDs cfg w else Some (Inr [])) of
        None \<Rightarrow> None
      | Some (Inl e) \<Rightarrow> Some (w, r)
      | Some (Inr clusterSPIFFEIDs) \<Rightarrow>
     (case er_listEntries E cfg r (entryListHints cfg clusterSPIFFEIDs clusterStaticEntries) w of
        None \<Rightarrow> None
      | Some (w, r, Inl e) \<Rightarrow> Some (w, r)
      | Some (w, r, Inr (currentEntries, deleteOnlyEntries)) \<Rightarrow>
          reconcile_entries E cfg r w
            \<lparr>bs_StaticEntries = clusterStaticEntries, bs_SPIFFEIDs = clusterSPIFFEIDs\<rparr>
            currentEntries deleteOnlyEntries))))"

end
