(* ===== verification/Reference_World.thy ===== *)
theory Reference_World
  imports Entry_Reconciler
begin

section \<open>A reference world\<close>

text \<open>
  A SPIRE server and a Kubernetes API held in memory, as one instance of the parameters of the
  reconciler. It is used where a statement assumes something of these parties, to show that the
  assumption can hold.
\<close>

record mem_world =
  m_entries :: "Entry list"
  m_static :: "crd_ClusterStaticEntry list"
  m_spiffeids :: "crd_ClusterSPIFFEID list"
  m_namespaces :: "Namespace list"
  m_nodes :: "Node list"
  m_pods :: "Pod list"
  m_now :: Time

definition status_of :: "bool \<Rightarrow> Status" where
  "status_of ok = (if ok then \<lparr>st_Code = codes_OK, st_Message = ''''\<rparr>
     else \<lparr>st_Code = codes_NotFound, st_Message = ''not found''\<rparr>)"

text \<open>The items of a call are treated one by one; an item that is not accepted has no effect.\<close>

fun mem_run :: "('x \<Rightarrow> Entry list \<Rightarrow> bool) \<Rightarrow> ('x \<Rightarrow> Entry list \<Rightarrow> Entry list) \<Rightarrow> Entry list \<Rightarrow> 'x list
    \<Rightarrow> Entry list \<times> Status list" where
  "mem_run accept step es [] = (es, [])"
| "mem_run accept step es (x # xs) =
     (case mem_run accept step (if accept x es then step x es else es) xs of
        (es', sts) \<Rightarrow> (es', status_of (accept x es) # sts))"

fun mem_put :: "Entry \<Rightarrow> Entry list \<Rightarrow> Entry list" where
  "mem_put e [] = [stored e]"
| "mem_put e (x # xs) = (if e_ID x = e_ID e then stored e # xs else x # mem_put e xs)"

definition mem_remove :: "string \<Rightarrow> Entry list \<Rightarrow> Entry list" where
  "mem_remove i es = filter (\<lambda>e. e_ID e \<noteq> i) es"

definition mem_has :: "string \<Rightarrow> Entry list \<Rightarrow> bool" where
  "mem_has i es \<longleftrightarrow> list_ex (\<lambda>e. e_ID e = i) es"

definition mem_call :: "('x \<Rightarrow> Entry list \<Rightarrow> bool) \<Rightarrow> ('x \<Rightarrow> Entry list \<Rightarrow> Entry list) \<Rightarrow> mem_world \<Rightarrow> 'x list
    \<Rightarrow> mem_world \<times> Status list \<times> err option" where
  "mem_call accept step w xs =
     (case mem_run accept step (m_entries w) xs of (es, sts) \<Rightarrow> (w\<lparr>m_entries := es\<rparr>, sts, None))"

definition mem_client :: "mem_world EntryClient" where
  "mem_client =
     \<lparr>ec_ListEntries = (\<lambda>w hints. Some (w, Inr (filter (\<lambda>e. hints = [] \<or> e_Hint e \<in> set hints)
        (lo_UniqBy e_ID (m_entries w))))),
      ec_CreateEntries = mem_call (\<lambda>e es. \<not> mem_has (e_ID e) es) mem_put,
      ec_UpdateEntries = mem_call (\<lambda>e es. mem_has (e_ID e) es) mem_put,
      ec_DeleteEntries = mem_call mem_has mem_remove,
      ec_GetUnsupportedFields = (\<lambda>w td p. Some (w, Inr {}))\<rparr>"

text \<open>A label selector of pods is the name of a pod.\<close>

definition mem_k8s :: "mem_world K8sClient" where
  "mem_k8s =
     \<lparr>k8s_ListClusterStaticEntry = (\<lambda>w. Inr (m_static w)),
      k8s_ListClusterSPIFFEID = (\<lambda>w. Inr (m_spiffeids w)),
      k8s_ListClusterFederatedTrustDomain = (\<lambda>w. Inr []),
      k8s_ListNamespace = (\<lambda>w opts. Inr (m_namespaces w)),
      k8s_ListNode = (\<lambda>w opts. Inr (m_nodes w)),
      k8s_ListPod = (\<lambda>w opts. Inr (filter (\<lambda>p. InNamespace (om_Namespace (pod_Meta p)) \<in> set opts \<and>
        list_all (\<lambda>opt. case opt of MatchingLabelsSelector s \<Rightarrow> om_Name (pod_Meta p) = s | _ \<Rightarrow> True) opts) (m_pods w))),
      k8s_ListEndpoints = (\<lambda>w opts. Inr []),
      k8s_UpdateStaticEntryStatus = (\<lambda>w c. (w, None)),
      k8s_UpdateSPIFFEIDStatus = (\<lambda>w c. (w, None))\<rparr>"

text \<open>Templates are taken literally; a lossy map that keeps every added value is the LRU cache.\<close>

definition mem_crd :: crd_libs where
  "mem_crd =
     \<lparr>cl_spiffeid = ref_spiffeid, cl_url = ref_url,
      cl_template_Parse = (\<lambda>s. Inr (\<lambda>d. Inr s)),
      cl_LabelSelectorAsSelector = Inr,
      cl_spiffebundle_Read = (\<lambda>td s. Inl (Err ''not a bundle''))\<rparr>"

definition mem_lru :: "(string \<times> cachedEntry) list lru_lib" where
  "mem_lru = \<lparr>lru_New = (\<lambda>n. Inr []), lru_Get = (\<lambda>c k. (c, map_of c k)), lru_Add = (\<lambda>c k v. map_put k v c)\<rparr>"

definition mem_env :: "(mem_world, (string \<times> cachedEntry) list) entry_env" where
  "mem_env =
     \<lparr>ee_crd = mem_crd, ee_sha256hex = (\<lambda>s. s), ee_Now = m_now,
      ee_loader = (\<lambda>w. \<lparr>ld_ReadDir = (\<lambda>_. Inr []), ld_Join = (@), ld_ReadFile = (\<lambda>_. Inl (Err ''no file'')),
                       ld_ExpandEnv = (\<lambda>s. s), ld_Decode = (\<lambda>_. Inl (Err ''no object''))\<rparr>),
      ee_lru = mem_lru, ee_json_Marshal = (\<lambda>spec. Inr (ps_Hint spec)),
      ee_uuid = (\<lambda>n. replicate (Suc n) CHR ''u''), ee_range = (\<lambda>m. m), ee_rangeEntries = rev\<rparr>"

definition mem_cfg :: "mem_world ReconcilerConfig" where
  "mem_cfg =
     \<lparr>rc_TrustDomain = TrustDomain ''td'', rc_ClusterName = ''c'', rc_ClusterDomain = '''',
      rc_EntryClient = mem_client, rc_K8sClient = Some mem_k8s, rc_IgnoreNamespaces = [],
      rc_ClassName = '''', rc_WatchClassless = False, rc_ParentIDTemplate = None,
      rc_Reconcile = \<lparr>rk_ClusterSPIFFEIDs = True, rk_ClusterFederatedTrustDomains = True,
                      rk_ClusterStaticEntries = True\<rparr>,
      rc_EntryIDPrefix = ''scm.'', rc_EntryIDPrefixCleanup = Some '''', rc_StaticManifestPath = None,
      rc_ExpandEnvStaticManifests = False, rc_EnableEntryRenderCache = True, rc_EntryRenderCacheSize = 0,
      rc_EnableEntryListCache = True, rc_EntryListCacheReloadInterval = 0,
      rc_EnableEntryListHintFilter = False\<rparr>"

definition sample_meta :: "string \<Rightarrow> ObjectMeta" where
  "sample_meta n = \<lparr>om_Name = n, om_Namespace = ''ns'', om_UID = n @ ''-uid'', om_ResourceVersion = ''1'',
     om_CreationTimestamp = 10, om_DeletionTimestamp = None, om_Rest = ''''\<rparr>"

definition sample_declared :: declaredEntry where
  "sample_declared = \<lparr>de_Entry = sample_entry\<lparr>e_ID := '''', e_X509SVIDTTL := 0\<rparr>,
     de_By = \<lparr>by_Ref = ByStaticEntry 0, by_Meta = sample_meta ''se''\<rparr>\<rparr>"

definition sample_static :: ClusterStaticEntrySpec where
  "sample_static =
     \<lparr>se_SPIFFEID = ''spiffe://td/w'', se_ParentID = ''spiffe://td/n'', se_Selectors = [''k8s:pod-uid:1''],
      se_FederatesWith = [], se_X509SVIDTTL = 0, se_JWTSVIDTTL = 0, se_DNSNames = [], se_Hint = '''',
      se_Admin = False, se_Downstream = False, se_StoreSVID = False, se_ClassName = ''''\<rparr>"

definition sample_world :: mem_world where
  "sample_world =
     \<lparr>m_entries = [sample_entry\<lparr>e_ID := ''scm.1''\<rparr>, sample_entry\<lparr>e_ID := ''old''\<rparr>],
      m_static = [\<lparr>cse_Meta = sample_meta ''se'', cse_Spec = sample_static, cse_Status = initStaticStatus\<rparr>],
      m_spiffeids = [], m_namespaces = [], m_nodes = [], m_pods = [], m_now = 1000\<rparr>"

end
