(* ===== verification/Reconciler_Plan.thy ===== *)
theory Reconciler_Plan
  imports Reference_World
begin

section \<open>Ownership, convergence and status accounting of the reconciler's plan\<close>

text \<open>
  What the plan of a reconcile means for the entries of the server: it touches only entries the
  configuration owns or marks for cleanup, it leaves join token entries of processed keys alone,
  carrying it out brings the server in sync, and it accounts for every declared entry in the
  statuses.
\<close>

subsection \<open>Ownership\<close>

abbreviation processed :: "'w ReconcilerConfig \<Rightarrow> Entry \<Rightarrow> bool" where
  "processed cfg e \<equiv> fst (shouldProcessOrDeleteEntryID cfg e)"

abbreviation cleaned_up :: "'w ReconcilerConfig \<Rightarrow> Entry \<Rightarrow> bool" where
  "cleaned_up cfg e \<equiv> snd (shouldProcessOrDeleteEntryID cfg e)"

lemma processed_iff:
  "processed cfg e \<longleftrightarrow> rc_EntryIDPrefix cfg = '''' \<or> HasPrefix (e_ID e) (rc_EntryIDPrefix cfg)"
  by (auto simp: shouldProcessOrDeleteEntryID_def split: option.splits)

lemma cleaned_up_iff:
  "cleaned_up cfg e \<longleftrightarrow> \<not> processed cfg e \<and>
     (\<exists>p. rc_EntryIDPrefixCleanup cfg = Some p \<and>
       (if p = '''' then \<not> ContainsChar (e_ID e) CHR ''.'' else HasPrefix (e_ID e) p))"
  by (auto simp: shouldProcessOrDeleteEntryID_def split: option.splits)

lemma ownership_reads_ID:
  "e_ID e = e_ID e' \<Longrightarrow> shouldProcessOrDeleteEntryID cfg e = shouldProcessOrDeleteEntryID cfg e'"
  by (simp add: shouldProcessOrDeleteEntryID_def split: option.split)

lemma splitEntries_simps [simp]:
  "fst (splitEntries cfg es) = filter (processed cfg) es"
  "snd (splitEntries cfg es) = filter (cleaned_up cfg) es"
  by (simp_all add: splitEntries_def)

lemma split_ids_disjoint:
  "e_ID ` set (filter (cleaned_up cfg) es) \<inter> e_ID ` set (filter (processed cfg) es) = {}"
proof -
  have False if "cleaned_up cfg e" "processed cfg e'" "e_ID e = e_ID e'" for e e'
    using that ownership_reads_ID [OF that(3), of cfg] by (simp add: cleaned_up_iff)
  then show ?thesis by auto
qed

lemma distinct_map_filter_ids: "distinct (map e_ID es) \<Longrightarrow> distinct (map e_ID (filter P es))"
  by (induction es) auto

text \<open>Where the entries of a plan come from.\<close>

lemma plan_from_toDelete:
  assumes "plan_from L H U cs ds del p" "e \<in> set (pl_toDelete p)"
  shows "e \<in> set cs \<and> \<not> isJoinTokenEntry e \<or> e \<in> set del"
proof -
  obtain es kvs where s: "state_matches H es cs ds" "ranges_over kvs es"
    and p: "pl_toDelete p = concat (map key_deletes (map snd kvs)) @ del"
    using assms(1) by (auto simp: plan_from_def makePlan_plan)
  show ?thesis
  proof (cases "e \<in> set (concat (map key_deletes (map snd kvs)))")
    case True
    then have "e \<in> set (key_deletes (at_key H (makeEntryKey H e) cs ds))"
      unfolding plan_at_key(1) [OF s, symmetric] by simp
    then show ?thesis using key_deletes_at by blast
  next
    case False
    then show ?thesis using assms(2) by (simp only: p set_append) blast
  qed
qed

lemma assign_ids_mem:
  "d \<in> set (assign_ids pfx uuid n ds) \<Longrightarrow>
     \<exists>d0\<in>set ds. d = d0 \<or> (e_ID (de_Entry d0) = '''' \<and> pfx \<noteq> '''' \<and>
       (\<exists>m. d = d0\<lparr>de_Entry := (de_Entry d0)\<lparr>e_ID := pfx @ uuid m\<rparr>\<rparr>))"
  by (induction ds arbitrary: n) (auto split: if_splits)

lemma plan_toCreate_mem:
  assumes "state_matches H es cs ds" "ranges_over kvs es"
    and "d \<in> set (pl_toCreate (makePlan L pfx uuid U st n (map snd kvs) del))"
  shows "\<exists>d0\<in>set ds. current_at H (makeEntryKey H (de_Entry d0)) cs = [] \<and>
    (d = d0 \<or> (e_ID (de_Entry d0) = '''' \<and> pfx \<noteq> '''' \<and>
       (\<exists>m. d = d0\<lparr>de_Entry := (de_Entry d0)\<lparr>e_ID := pfx @ uuid m\<rparr>\<rparr>)))"
proof -
  obtain d0 where d0: "d0 \<in> set (concat (map key_creates (map snd kvs)))"
    "d = d0 \<or> (e_ID (de_Entry d0) = '''' \<and> pfx \<noteq> '''' \<and>
       (\<exists>m. d = d0\<lparr>de_Entry := (de_Entry d0)\<lparr>e_ID := pfx @ uuid m\<rparr>\<rparr>))"
    using assign_ids_mem assms(3) unfolding makePlan_plan by blast
  let ?k = "makeEntryKey H (de_Entry d0)"
  have k: "d0 \<in> set (key_creates (at_key H ?k cs ds))"
    unfolding plan_at_key(2) [OF assms(1,2), symmetric] using d0(1) by simp
  then have "current_at H ?k cs = []" by (auto simp: key_creates_def split: if_splits)
  with key_creates_at [OF k] d0(2) show ?thesis by blast
qed

subsection \<open>Convergence on the whole server\<close>

text \<open>The calls of one plan, seen on all entries of the server.\<close>

lemma filter_map_keep: "(\<And>x. x \<in> set xs \<Longrightarrow> P (f x) = P x) \<Longrightarrow> filter P (map f xs) = map f (filter P xs)"
  by (induction xs) auto

lemma apply_update_ID: "e_ID (apply_update us e) = e_ID e"
  by (auto simp: apply_update_def find_Some_iff split: option.splits)

lemma processed_apply_update: "processed cfg (apply_update us e) = processed cfg e"
  by (metis apply_update_ID ownership_reads_ID)

lemma cleaned_up_apply_update: "cleaned_up cfg (apply_update us e) = cleaned_up cfg e"
  by (metis apply_update_ID ownership_reads_ID)

definition creations_owned :: "'w ReconcilerConfig \<Rightarrow> plan \<Rightarrow> bool" where
  "creations_owned cfg p \<longleftrightarrow> rc_EntryIDPrefix cfg = '''' \<or>
     (\<forall>d\<in>set (pl_toCreate p). HasPrefix (e_ID (de_Entry d)) (rc_EntryIDPrefix cfg))"

lemma created_processed:
  assumes "creations_owned cfg p"
    and "list_all2 created_as (entriesFromDeclaredEntries (pl_toCreate p)) created" "c \<in> set created"
  shows "processed cfg c"
proof -
  obtain e where e: "e \<in> set (entriesFromDeclaredEntries (pl_toCreate p))" "created_as e c"
    using list_all2_right_elem [OF assms(2,3)] by blast
  show ?thesis
  proof (cases "rc_EntryIDPrefix cfg = ''''")
    case False
    then have pre: "HasPrefix (e_ID e) (rc_EntryIDPrefix cfg)"
      using e(1) assms(1) by (auto simp: creations_owned_def entriesFromDeclaredEntries_def)
    then have "e_ID e \<noteq> ''''" using False by (auto simp: HasPrefix_iff)
    then have "e_ID c = e_ID e" using e(2) by (auto simp: created_as_def)
    with pre show ?thesis by (simp add: processed_iff)
  qed (simp add: processed_iff)
qed

lemma server_applies_processed:
  assumes "server_applies p es es'" "creations_owned cfg p"
    and "cs = filter (processed cfg) es"
  shows "server_applies p cs (filter (processed cfg) es')"
proof -
  let ?us = "entriesFromDeclaredEntries (pl_toUpdate p)" and ?ids = "idsFromEntries (pl_toDelete p)"
  obtain created where cr: "list_all2 created_as (entriesFromDeclaredEntries (pl_toCreate p)) created"
    and fresh: "e_ID ` set created \<inter> e_ID ` set (apply_deletes ?ids es) = {}"
    and m: "mset es' = mset (map (apply_update ?us) (apply_deletes ?ids es @ created))"
    using assms(1) by (auto simp: server_applies_def)
  have "filter (processed cfg) created = created"
    using created_processed [OF assms(2) cr] by (simp add: filter_id_conv)
  moreover have "filter (processed cfg) (apply_deletes ?ids es) = apply_deletes ?ids cs"
    by (simp add: apply_deletes_def assms(3) conj_commute)
  ultimately have "filter (processed cfg) (map (apply_update ?us) (apply_deletes ?ids es @ created)) =
      map (apply_update ?us) (apply_deletes ?ids cs @ created)"
    by (subst filter_map_keep) (simp_all add: processed_apply_update)
  then have "mset (filter (processed cfg) es') = mset (map (apply_update ?us) (apply_deletes ?ids cs @ created))"
    by (metis m mset_filter)
  moreover have "set (apply_deletes ?ids cs) \<subseteq> set (apply_deletes ?ids es)" using assms(3) by (auto simp: apply_deletes_def)
  then have "e_ID ` set created \<inter> e_ID ` set (apply_deletes ?ids cs) = {}" using fresh by blast
  ultimately show ?thesis using cr unfolding server_applies_def by blast
qed

lemma server_applies_cleanup:
  assumes "server_applies p es es'" "creations_owned cfg p"
    and "set (filter (cleaned_up cfg) es) \<subseteq> set (pl_toDelete p)"
  shows "filter (cleaned_up cfg) es' = []"
proof -
  let ?us = "entriesFromDeclaredEntries (pl_toUpdate p)" and ?ids = "idsFromEntries (pl_toDelete p)"
  obtain created where cr: "list_all2 created_as (entriesFromDeclaredEntries (pl_toCreate p)) created"
    and m: "mset es' = mset (map (apply_update ?us) (apply_deletes ?ids es @ created))"
    using assms(1) by (auto simp: server_applies_def)
  have "set es' = apply_update ?us ` set (apply_deletes ?ids es @ created)"
    using m by (metis set_map set_mset_mset)
  moreover have "\<not> cleaned_up cfg e" if "e \<in> set (apply_deletes ?ids es)" for e
    using that assms(3) by (auto simp: apply_deletes_def idsFromEntries_def)
  moreover have "\<not> cleaned_up cfg e" if "e \<in> set created" for e
    using created_processed [OF assms(2) cr that] by (simp add: cleaned_up_iff)
  ultimately show ?thesis by (auto simp: filter_empty_conv cleaned_up_apply_update)
qed

text \<open>Entries that are neither processed nor cleaned up stay as they are.\<close>

lemma server_applies_foreign:
  assumes "server_applies p es es'" "creations_owned cfg p"
    and "\<forall>e\<in>set (pl_toDelete p). processed cfg e \<or> cleaned_up cfg e"
    and "\<forall>d\<in>set (pl_toUpdate p). processed cfg (de_Entry d)"
  defines "foreign \<equiv> \<lambda>e. \<not> processed cfg e \<and> \<not> cleaned_up cfg e"
  shows "mset (filter foreign es') = mset (filter foreign es)"
proof -
  let ?us = "entriesFromDeclaredEntries (pl_toUpdate p)" and ?ids = "idsFromEntries (pl_toDelete p)"
  obtain created where cr: "list_all2 created_as (entriesFromDeclaredEntries (pl_toCreate p)) created"
    and m: "mset es' = mset (map (apply_update ?us) (apply_deletes ?ids es @ created))"
    using assms(1) by (auto simp: server_applies_def)
  have "filter foreign created = []"
    using created_processed [OF assms(2) cr] by (simp add: foreign_def filter_empty_conv)
  moreover have "e_ID e \<notin> set ?ids" if "foreign e" for e
  proof
    assume "e_ID e \<in> set ?ids"
    then obtain x where "x \<in> set (pl_toDelete p)" "e_ID e = e_ID x" by (auto simp: idsFromEntries_def)
    then show False using that assms(3) ownership_reads_ID [of e x cfg] by (auto simp: foreign_def)
  qed
  then have "filter foreign (apply_deletes ?ids es) = filter foreign es"
    unfolding apply_deletes_def filter_filter by (intro filter_cong) auto
  moreover have "apply_update ?us e = e" if "foreign e" for e
  proof (rule apply_update_other, rule notI)
    assume "e_ID e \<in> e_ID ` set ?us"
    then obtain d where "d \<in> set (pl_toUpdate p)" "e_ID (de_Entry d) = e_ID e"
      by (auto simp: entriesFromDeclaredEntries_def)
    then show False using assms(4) that ownership_reads_ID [of "de_Entry d" e cfg] by (auto simp: foreign_def)
  qed
  then have "map (apply_update ?us) (filter foreign xs) = filter foreign xs" for xs
    by (intro map_idI) auto
  ultimately have "filter foreign (map (apply_update ?us) (apply_deletes ?ids es @ created)) = filter foreign es"
    by (subst filter_map_keep) (simp_all add: foreign_def processed_apply_update cleaned_up_apply_update)
  then show ?thesis by (metis m mset_filter)
qed

subsection \<open>Accounting in the statuses\<close>

definition spiffeid_stats :: "byStore \<Rightarrow> nat \<Rightarrow> ClusterSPIFFEIDStats" where
  "spiffeid_stats st i = bsi_NextStatus (bs_SPIFFEIDs st ! i)"

abbreviation accounted :: "byStore \<Rightarrow> nat \<Rightarrow> nat" where
  "accounted st i \<equiv> st_EntriesToSet (spiffeid_stats st i) + st_EntriesMasked (spiffeid_stats st i)"

abbreviation declared_by :: "nat \<Rightarrow> declaredEntry list \<Rightarrow> nat" where
  "declared_by i ds \<equiv> length (filter (\<lambda>d. by_Ref (de_By d) = BySPIFFEID i) ds)"

lemma modify_spiffeid_lengths [simp]:
  "length (bs_SPIFFEIDs (modify_spiffeid i f st)) = length (bs_SPIFFEIDs st)"
  "bs_StaticEntries (modify_spiffeid i f st) = bs_StaticEntries st"
  by (simp_all add: modify_spiffeid_def list_modify_def)

lemma modify_static_spiffeids [simp]:
  "bs_SPIFFEIDs (modify_static i f st) = bs_SPIFFEIDs st"
  by (simp add: modify_static_def)

lemma spiffeid_stats_modify:
  "i < length (bs_SPIFFEIDs st) \<Longrightarrow>
     spiffeid_stats (modify_spiffeid j f st) i = (if i = j then f (spiffeid_stats st i) else spiffeid_stats st i)"
  by (auto simp: spiffeid_stats_def modify_spiffeid_def list_modify_def)

lemma spiffeid_stats_static [simp]: "spiffeid_stats (modify_static j f st) i = spiffeid_stats st i"
  by (simp add: spiffeid_stats_def)

lemma accounted_toSet:
  assumes "i < length (bs_SPIFFEIDs st)"
  shows "accounted (IncrementEntriesToSet r st) i = accounted st i + (if r = BySPIFFEID i then 1 else 0)"
    and "length (bs_SPIFFEIDs (IncrementEntriesToSet r st)) = length (bs_SPIFFEIDs st)"
  using assms by (cases r; simp add: spiffeid_stats_modify)+

lemma accounted_masked:
  assumes "i < length (bs_SPIFFEIDs st)"
  shows "accounted (IncrementEntriesMasked r st) i = accounted st i + (if r = BySPIFFEID i then 1 else 0)"
    and "length (bs_SPIFFEIDs (IncrementEntriesMasked r st)) = length (bs_SPIFFEIDs st)"
  using assms by (cases r; simp add: spiffeid_stats_modify)+

lemma accounted_masked_all:
  assumes "i < length (bs_SPIFFEIDs st)"
  shows "accounted (foldl (\<lambda>st d. IncrementEntriesMasked (by_Ref (de_By d)) st) st ds) i =
      accounted st i + declared_by i ds \<and>
    length (bs_SPIFFEIDs (foldl (\<lambda>st d. IncrementEntriesMasked (by_Ref (de_By d)) st) st ds)) =
      length (bs_SPIFFEIDs st)"
  using assms
proof (induction ds arbitrary: st)
  case (Cons d ds)
  let ?st = "IncrementEntriesMasked (by_Ref (de_By d)) st"
  have "i < length (bs_SPIFFEIDs ?st)" using Cons.prems accounted_masked(2) by metis
  from Cons.IH [OF this] show ?case
    using accounted_masked [OF Cons.prems, of "by_Ref (de_By d)"] by auto
qed simp

lemma declared_by_sort: "declared_by i (sortDeclaredEntriesByPreference ds) = declared_by i ds"
  by (metis mset_filter mset_sortDeclared size_mset)

lemma planStep_store:
  "pl_Store (planStep L pfx uuid U p s) =
     (case sortDeclaredEntriesByPreference (es_Declared s) of
        [] \<Rightarrow> pl_Store p
      | d # ds \<Rightarrow> foldl (\<lambda>st d. IncrementEntriesMasked (by_Ref (de_By d)) st)
          (IncrementEntriesToSet (by_Ref (de_By d)) (pl_Store p)) ds)"
  by (auto simp: planStep_def Let_def split: list.split)

lemma planStep_accounted:
  assumes "i < length (bs_SPIFFEIDs (pl_Store p))"
  shows "accounted (pl_Store (planStep L pfx uuid U p s)) i =
      accounted (pl_Store p) i + declared_by i (es_Declared s) \<and>
    length (bs_SPIFFEIDs (pl_Store (planStep L pfx uuid U p s))) = length (bs_SPIFFEIDs (pl_Store p))"
proof (cases "sortDeclaredEntriesByPreference (es_Declared s)")
  case Nil
  then show ?thesis by (simp add: planStep_store)
next
  case (Cons d ds)
  let ?st = "IncrementEntriesToSet (by_Ref (de_By d)) (pl_Store p)"
  have "i < length (bs_SPIFFEIDs ?st)" using assms accounted_toSet(2) by metis
  from accounted_masked_all [OF this, of ds] accounted_toSet [OF assms, of "by_Ref (de_By d)"] show ?thesis
    unfolding planStep_store Cons declared_by_sort [of i "es_Declared s", symmetric] by auto
qed

lemma foldl_planStep_accounted:
  assumes "i < length (bs_SPIFFEIDs (pl_Store p))"
  shows "accounted (pl_Store (foldl (planStep L pfx uuid U) p ss)) i =
    accounted (pl_Store p) i + declared_by i (concat (map es_Declared ss))"
  using assms
proof (induction ss arbitrary: p)
  case (Cons s ss)
  let ?p = "planStep L pfx uuid U p s"
  have "i < length (bs_SPIFFEIDs (pl_Store ?p))" using Cons.prems planStep_accounted by metis
  from Cons.IH [OF this] planStep_accounted [OF Cons.prems, of L pfx uuid U s] show ?case by auto
qed simp

text \<open>The declared entries of all keys together are the declared entries.\<close>

lemma declared_all_keys:
  assumes "state_matches H es cs ds" "ranges_over kvs es"
  shows "mset (concat (map es_Declared (map snd kvs))) = mset ds"
proof (rule multiset_eqI)
  fix d :: declaredEntry
  let ?k = "makeEntryKey H (de_Entry d)"
  have dk: "distinct (map fst kvs)" using ranges_over_map_of [OF assms(2)] assms(1) by (simp add: state_matches_def)
  have "filter (\<lambda>d. makeEntryKey H (de_Entry d) = ?k) (concat (map es_Declared (map snd kvs))) =
      es_Declared (case map_of kvs ?k of None \<Rightarrow> \<lparr>es_Current = [], es_Declared = []\<rparr> | Some s \<Rightarrow> s)"
  proof (rule filter_concat_keys [OF dk])
    fix k s x
    assume "(k, s) \<in> set kvs" "x \<in> set (es_Declared s)"
    then show "makeEntryKey H (de_Entry x) = k" using state_in [OF assms, of k s] by simp
  qed simp
  also have "\<dots> = declared_at H ?k ds" using state_of_key [OF assms, of ?k] by simp
  finally have "count (mset (filter (\<lambda>d. makeEntryKey H (de_Entry d) = ?k)
      (concat (map es_Declared (map snd kvs))))) d = count (mset (declared_at H ?k ds)) d" by simp
  then show "count (mset (concat (map es_Declared (map snd kvs)))) d = count (mset ds) d" by simp
qed

subsection \<open>Properties\<close>

lemma plan_from_buildState:
  "ranges_over kvs (buildState H cs ds) \<Longrightarrow> plan_from L H U cs ds del (makePlan L pfx uuid U st n (map snd kvs) del)"
  unfolding plan_from_def using state_matches_buildState by blast

lemma plan_creations_owned:
  assumes "state_matches H es cs ds" "ranges_over kvs es" "\<forall>d\<in>set ds. e_ID (de_Entry d) = ''''"
  shows "creations_owned cfg (makePlan L (rc_EntryIDPrefix cfg) uuid U st n (map snd kvs) del)"
proof (cases "rc_EntryIDPrefix cfg = ''''")
  case False
  have "HasPrefix (e_ID (de_Entry d)) (rc_EntryIDPrefix cfg)"
    if "d \<in> set (assign_ids (rc_EntryIDPrefix cfg) uuid n (concat (map key_creates (map snd kvs))))" for d
  proof -
    have ids: "\<forall>d\<in>set ds'. e_ID (de_Entry d) = '''' \<Longrightarrow> d \<in> set (assign_ids pfx uuid n ds') \<Longrightarrow> pfx \<noteq> '''' \<Longrightarrow>
        HasPrefix (e_ID (de_Entry d)) pfx" for ds' n pfx
      by (induction ds' arbitrary: n) auto
    have "e_ID (de_Entry d) = ''''" if d: "d \<in> set (concat (map key_creates (map snd kvs)))" for d
    proof -
      have "d \<in> set (key_creates (at_key H (makeEntryKey H (de_Entry d)) cs ds))"
        unfolding plan_at_key(2) [OF assms(1,2), symmetric] using d by simp
      then show ?thesis using key_creates_at assms(3) by blast
    qed
    then show ?thesis using ids that False by blast
  qed
  then show ?thesis by (simp add: creations_owned_def makePlan_plan)
qed (simp add: creations_owned_def)

text \<open>What a server that carries out the plan is left with, for the plan of any state that holds the processed
  entries and the declared ones.\<close>

lemma plan_converges:
  assumes st: "state_matches H st (filter (processed cfg) es) ds" "ranges_over kvs st"
    and p: "p = makePlan L (rc_EntryIDPrefix cfg) uuid U store n (map snd kvs) (filter (cleaned_up cfg) es)"
    and ids: "distinct (map e_ID es)"
    and decl: "\<forall>d\<in>set ds. e_ID (de_Entry d) = '''' \<and> ttls_ok (de_Entry d)"
    and tok: "\<forall>e\<in>set es. isJoinTokenEntry e \<longrightarrow> declared_at H (makeEntryKey H e) ds = []"
    and applied: "server_applies p es es'"
  shows "synced L H U (filter (processed cfg) es') ds" "filter (cleaned_up cfg) es' = []"
    and "mset (filter (\<lambda>e. \<not> processed cfg e \<and> \<not> cleaned_up cfg e) es') =
      mset (filter (\<lambda>e. \<not> processed cfg e \<and> \<not> cleaned_up cfg e) es)"
proof -
  let ?cs = "filter (processed cfg) es" and ?del = "filter (cleaned_up cfg) es"
  have from_: "plan_from L H U ?cs ds ?del p" using st unfolding p plan_from_def by blast
  have own: "creations_owned cfg p" using plan_creations_owned [OF st] decl by (simp add: p)
  have "server_applies p ?cs (filter (processed cfg) es')"
    by (rule server_applies_processed [OF applied own refl])
  then show "synced L H U (filter (processed cfg) es') ds"
    using decl tok by (intro server_applies_synced [OF from_ distinct_map_filter_ids [OF ids] split_ids_disjoint]) auto
  show "filter (cleaned_up cfg) es' = []"
    by (rule server_applies_cleanup [OF applied own]) (simp add: p makePlan_plan)
  have "\<forall>e\<in>set (pl_toDelete p). processed cfg e \<or> cleaned_up cfg e"
    using plan_from_toDelete [OF from_] by auto
  moreover have "\<forall>d\<in>set (pl_toUpdate p). processed cfg (de_Entry d)"
  proof
    fix d
    assume "d \<in> set (pl_toUpdate p)"
    then have "de_Entry d \<in> set (entriesFromDeclaredEntries (pl_toUpdate p))"
      by (simp add: entriesFromDeclaredEntries_def)
    then obtain c k where "c \<in> set ?cs" "e_ID (de_Entry d) = e_ID c" by (rule plan_from_update [OF from_])
    then show "processed cfg (de_Entry d)" by (auto simp: processed_iff)
  qed
  ultimately show "mset (filter (\<lambda>e. \<not> processed cfg e \<and> \<not> cleaned_up cfg e) es') =
      mset (filter (\<lambda>e. \<not> processed cfg e \<and> \<not> cleaned_up cfg e) es)"
    by (rule server_applies_foreign [OF applied own])
qed

lemma foreign_iff: "shouldProcessOrDeleteEntryID cfg e = (False, False) \<longleftrightarrow> \<not> processed cfg e \<and> \<not> cleaned_up cfg e"
  by (auto simp: prod_eq_iff)

definition sample_kvs :: entriesState where
  "sample_kvs = buildState (env_libs mem_env) (fst (splitEntries mem_cfg (m_entries sample_world))) [sample_declared]"

definition sample_plan :: plan where
  "sample_plan = makePlan ref_spiffeid (rc_EntryIDPrefix mem_cfg) (ee_uuid mem_env) {}
     \<lparr>bs_StaticEntries = [], bs_SPIFFEIDs = []\<rparr> 0 (map snd sample_kvs)
     (snd (splitEntries mem_cfg (m_entries sample_world)))"

lemma sample_plan_eval:
  "pl_toDelete sample_plan = [sample_entry\<lparr>e_ID := ''old''\<rparr>]"
  "pl_toCreate sample_plan = []"
  "pl_toUpdate sample_plan = [adopt sample_declared (sample_entry\<lparr>e_ID := ''scm.1''\<rparr>)]"
  by code_simp+

text \<open>C4: the plan of a reconcile is empty exactly when the current entries are in sync with the declared
  ones: no deletion, creation or update is made without need, and none that is needed is left out.\<close>

theorem plan_empty_iff:
  assumes "ranges_over kvs (buildState H cs ds)"
    and "p = makePlan L pfx uuid U st n (map snd kvs) []"
  shows "pl_toDelete p = [] \<and> pl_toCreate p = [] \<and> pl_toUpdate p = [] \<longleftrightarrow> synced L H U cs ds"
  unfolding assms(2) by (rule plan_empty_iff_synced [OF state_matches_buildState assms(1)])

theorem plan_empty_iff_witness:
  "\<not> synced ref_spiffeid (env_libs mem_env) {} (fst (splitEntries mem_cfg (m_entries sample_world))) [sample_declared]"
proof -
  have "pl_toUpdate (makePlan ref_spiffeid ''scm.'' (ee_uuid mem_env) {} \<lparr>bs_StaticEntries = [], bs_SPIFFEIDs = []\<rparr> 0
      (map snd sample_kvs) []) \<noteq> []" by code_simp
  moreover have "ranges_over sample_kvs sample_kvs" by (simp add: ranges_over_def)
  ultimately show ?thesis using plan_empty_iff [OF _ refl] unfolding sample_kvs_def by blast
qed

text \<open>C3: a plan touches only what the configuration owns. Every deleted entry is a listed entry that is
  either processed and not a join token entry, or matches the cleanup prefix and is not processed; every
  update goes to the ID of a processed entry of the same key; and, when an ID prefix is configured, every
  created entry has an ID with that prefix.\<close>

theorem plan_touches_owned:
  assumes "ranges_over kvs (buildState H (fst (splitEntries cfg es)) ds)"
    and "p = makePlan L (rc_EntryIDPrefix cfg) uuid U st n (map snd kvs) (snd (splitEntries cfg es))"
    and "\<forall>d\<in>set ds. e_ID (de_Entry d) = ''''"
  shows "(\<forall>e\<in>set (pl_toDelete p). e \<in> set es \<and>
        (shouldProcessOrDeleteEntryID cfg e = (True, False) \<and> \<not> isJoinTokenEntry e \<or>
         shouldProcessOrDeleteEntryID cfg e = (False, True))) \<and>
    (\<forall>d\<in>set (pl_toUpdate p). \<exists>e\<in>set es. shouldProcessOrDeleteEntryID cfg e = (True, False) \<and>
        e_ID (de_Entry d) = e_ID e \<and> makeEntryKey H (de_Entry d) = makeEntryKey H e) \<and>
    (\<forall>d\<in>set (pl_toCreate p). rc_EntryIDPrefix cfg \<noteq> '''' \<longrightarrow>
        HasPrefix (e_ID (de_Entry d)) (rc_EntryIDPrefix cfg))"
proof -
  let ?cs = "filter (processed cfg) es" and ?del = "filter (cleaned_up cfg) es"
  have from_: "plan_from L H U ?cs ds ?del p" using plan_from_buildState assms(1) by (simp add: assms(2))
  have pair: "shouldProcessOrDeleteEntryID cfg e = (True, False)" if "processed cfg e" for e
    using that by (simp add: prod_eq_iff cleaned_up_iff)
  have pair': "shouldProcessOrDeleteEntryID cfg e = (False, True)" if "cleaned_up cfg e" for e
    using that by (simp add: prod_eq_iff cleaned_up_iff)
  have "\<exists>e\<in>set es. shouldProcessOrDeleteEntryID cfg e = (True, False) \<and>
      e_ID (de_Entry d) = e_ID e \<and> makeEntryKey H (de_Entry d) = makeEntryKey H e" if "d \<in> set (pl_toUpdate p)" for d
  proof -
    have "de_Entry d \<in> set (entriesFromDeclaredEntries (pl_toUpdate p))"
      using that by (simp add: entriesFromDeclaredEntries_def)
    then obtain c k where c: "c \<in> set ?cs" "makeEntryKey H c = k" "e_ID (de_Entry d) = e_ID c"
      "declared_at H k ds \<noteq> []" "de_Entry d = de_Entry (adopt (preferred (declared_at H k ds)) c)"
      by (rule plan_from_update [OF from_]) 
    have "makeEntryKey H (de_Entry d) = k" unfolding c(5) using preferred_at [OF c(4)] by (simp add: adopt_def)
    with c(1-3) pair show ?thesis by (intro bexI [of _ c]) auto
  qed
  moreover have "creations_owned cfg p"
    using plan_creations_owned [OF state_matches_buildState] assms by simp
  ultimately show ?thesis
    using plan_from_toDelete [OF from_] pair pair' by (auto simp: creations_owned_def)
qed

theorem plan_touches_owned_witness:
  "list_all (\<lambda>e. e \<in> set (m_entries sample_world)) (pl_toDelete sample_plan)"
proof -
  have ids: "\<forall>d\<in>set [sample_declared]. e_ID (de_Entry d) = ''''" by code_simp
  have order: "ranges_over sample_kvs sample_kvs" by (simp add: ranges_over_def)
  from plan_touches_owned [OF order [unfolded sample_kvs_def] sample_plan_def [unfolded sample_kvs_def] ids]
  show ?thesis by (simp add: list_all_iff)
qed

text \<open>C9: the statuses account for every declared entry. After a plan, the entries to set and the masked
  entries of a ClusterSPIFFEID have together grown by the number of entries it declares.\<close>

theorem plan_accounts_declared:
  assumes "ranges_over kvs (buildState H cs ds)" "i < length (bs_SPIFFEIDs st)"
    and "st' = pl_Store (makePlan L pfx uuid U st n (map snd kvs) del)"
  shows "st_EntriesToSet (spiffeid_stats st' i) + st_EntriesMasked (spiffeid_stats st' i) =
    st_EntriesToSet (spiffeid_stats st i) + st_EntriesMasked (spiffeid_stats st i) +
    length (filter (\<lambda>d. by_Ref (de_By d) = BySPIFFEID i) ds)"
proof -
  have "declared_by i (concat (map es_Declared (map snd kvs))) = declared_by i ds"
    using declared_all_keys [OF state_matches_buildState assms(1)] by (metis mset_filter size_mset)
  then show ?thesis
    using assms(2) by (simp add: assms(3) makePlan_def Let_def foldl_planStep_accounted)
qed

definition sample_store :: byStore where
  "sample_store = \<lparr>bs_StaticEntries = [], bs_SPIFFEIDs = [\<lparr>bsi_Resource =
     \<lparr>csid_Meta = sample_meta ''c'', csid_Spec =
       \<lparr>cs_SPIFFEIDTemplate = ''spiffe://td/w'', cs_TTL = 0, cs_JWTTTL = 0, cs_DNSNameTemplates = [],
        cs_WorkloadSelectorTemplates = [], cs_FederatesWith = [], cs_NamespaceSelector = None, cs_PodSelector = None,
        cs_Admin = False, cs_Downstream = False, cs_AutoPopulateDNSNames = False, cs_ClassName = '''',
        cs_Fallback = False, cs_Hint = ''''\<rparr>, csid_Status = initSPIFFEIDStatus\<rparr>,
     bsi_NextStatus = initSPIFFEIDStatus\<rparr>]\<rparr>"

definition sample_pair :: "declaredEntry list" where
  "sample_pair = [sample_declared\<lparr>de_By := \<lparr>by_Ref = BySPIFFEID 0, by_Meta = sample_meta ''a''\<rparr>\<rparr>,
     sample_declared\<lparr>de_By := \<lparr>by_Ref = BySPIFFEID 0, by_Meta = sample_meta ''b''\<rparr>\<rparr>]"

theorem plan_accounts_declared_witness:
  "let st' = pl_Store (makePlan ref_spiffeid '''' (ee_uuid mem_env) {} sample_store 0
       (map snd (buildState (env_libs mem_env) [] sample_pair)) [])
   in st_EntriesToSet (spiffeid_stats st' 0) + st_EntriesMasked (spiffeid_stats st' 0) = 2"
  using plan_accounts_declared [OF _ _ refl, of "buildState (env_libs mem_env) [] sample_pair" "env_libs mem_env" "[]"
      sample_pair 0 sample_store ref_spiffeid "''''" "ee_uuid mem_env" "{}" 0 "[]"]
  by (simp add: ranges_over_def sample_store_def sample_pair_def Let_def spiffeid_stats_def [of "sample_store"]
      spiffeid_stats_def [of "\<lparr>bs_StaticEntries = _, bs_SPIFFEIDs = _\<rparr>"] initSPIFFEIDStatus_def)

end
