(* ===== verification/Reconciler_Cache.thy ===== *)
theory Reconciler_Cache
  imports Reconciler_Plan
begin

section \<open>The entry list cache of the reconciler\<close>

text \<open>
  How the reconciler keeps its entry list cache in step with the server: which calls it answers
  from the cache, that the changes it makes to the cache mirror the changes of the server, and
  that every outcome which leaves the server in doubt forces a reload.

  The server is seen through \<open>view\<close>, the entries by ID. What the SPIRE API documents of the batch
  calls is stated as hypotheses: a call that returns no error has one status for every item, the
  items with status OK took effect in order, and the others had no effect.
\<close>

subsection \<open>Contracts of the calls\<close>

definition ok_items :: "('v \<Rightarrow> 'i \<Rightarrow> 'v) \<Rightarrow> 'v \<Rightarrow> ('i \<times> Status) list \<Rightarrow> 'v" where
  "ok_items step v xs = foldl (\<lambda>v (x, st). if st_Code st = codes_OK then step v x else v) v xs"

definition put_entry :: "(string \<Rightarrow> Entry option) \<Rightarrow> Entry \<Rightarrow> string \<Rightarrow> Entry option" where
  "put_entry v e = v(e_ID e \<mapsto> stored e)"

definition remove_entry :: "(string \<Rightarrow> Entry option) \<Rightarrow> string \<Rightarrow> string \<Rightarrow> Entry option" where
  "remove_entry v i = v(i := None)"

definition conforming_client :: "('w \<Rightarrow> string \<Rightarrow> Entry option) \<Rightarrow> 'w EntryClient \<Rightarrow> bool" where
  "conforming_client view C \<longleftrightarrow>
     (\<forall>w es w' sts. list_all (\<lambda>e. e_ID e \<noteq> '''') es \<and> ec_CreateEntries C w es = (w', sts, None) \<longrightarrow>
        length sts = length es \<and> view w' = ok_items put_entry (view w) (zip es sts)) \<and>
     (\<forall>w es w' sts. ec_UpdateEntries C w es = (w', sts, None) \<longrightarrow>
        length sts = length es \<and> view w' = ok_items put_entry (view w) (zip es sts)) \<and>
     (\<forall>w is w' sts. ec_DeleteEntries C w is = (w', sts, None) \<longrightarrow>
        length sts = length is \<and> view w' = ok_items remove_entry (view w) (zip is sts))"

subsection \<open>Coherence\<close>

text \<open>The cache agrees with the server: what it holds is what the server has, and it holds every tracked
  entry of the server. A cache that will be reloaded need not agree.\<close>

definition cache_ok :: "(Entry \<Rightarrow> bool) \<Rightarrow> (string \<Rightarrow> Entry option) \<Rightarrow> entryListCache \<Rightarrow> bool" where
  "cache_ok tracked v c \<longleftrightarrow>
     cache_loaded c \<and>
     (lc_nextReload c = time_zero \<or>
      (\<forall>i e. cache_lookup c i = Some e \<longrightarrow> v i = Some e) \<and>
      (\<forall>i e. v i = Some e \<and> tracked e \<longrightarrow> cache_lookup c i = Some e))"

lemma cache_ops_reload [simp]:
  "lc_nextReload (cache_upsert c e) = lc_nextReload c"
  "lc_nextReload (cache_drop c i) = lc_nextReload c"
  "lc_nextReload (cache_invalidate c) = time_zero"
  by (auto simp: cache_upsert_def cache_drop_def cache_invalidate_def split: option.splits)

lemma cache_loaded_invalidate: "cache_loaded c \<Longrightarrow> cache_loaded (cache_invalidate c)"
  by (simp add: cache_loaded_def cache_invalidate_wf) (simp add: cache_invalidate_def)

lemma cache_ok_invalidate: "cache_ok tracked v c \<Longrightarrow> cache_ok tracked v' (cache_invalidate c)"
  by (simp add: cache_ok_def cache_loaded_invalidate)

lemma cache_ok_upsert:
  assumes "cache_ok tracked v c" "ttls_ok e"
  shows "cache_ok tracked (put_entry v e) (cache_upsert c e)"
  using assms list_cache.lookup_put [of c e] list_cache.inv_put [of c e]
  by (auto simp: cache_ok_def put_entry_def stored_ttls_ok)

lemma cache_ok_drop:
  assumes "cache_ok tracked v c"
  shows "cache_ok tracked (remove_entry v i) (cache_drop c i)"
  using assms list_cache.lookup_del [of c i] list_cache.inv_del [of c i]
  by (auto simp: cache_ok_def remove_entry_def)

definition rec_ok :: "(Entry \<Rightarrow> bool) \<Rightarrow> (string \<Rightarrow> Entry option) \<Rightarrow> 'c entryReconciler \<Rightarrow> bool" where
  "rec_ok tracked v r \<longleftrightarrow> (case er_entryCache r of None \<Rightarrow> True | Some c \<Rightarrow> cache_ok tracked v c)"

lemma rec_ok_on_cache:
  "rec_ok tracked v r \<Longrightarrow> (\<And>c. cache_ok tracked v c \<Longrightarrow> cache_ok tracked v' (f c)) \<Longrightarrow> rec_ok tracked v' (on_cache f r)"
  by (auto simp: rec_ok_def on_cache_def split: option.splits)

lemma rec_ok_update_other [simp]: "rec_ok tracked v (r\<lparr>er_UUIDs := n\<rparr>) = rec_ok tracked v r"
  by (simp add: rec_ok_def)

lemma rec_ok_on_upsert: "rec_ok tracked v r \<Longrightarrow> ttls_ok e \<Longrightarrow>
    rec_ok tracked (put_entry v e) (on_cache (\<lambda>c. cache_upsert c e) r)"
  by (rule rec_ok_on_cache) (auto intro: cache_ok_upsert)

lemma rec_ok_on_drop: "rec_ok tracked v r \<Longrightarrow> rec_ok tracked (remove_entry v i) (on_cache (\<lambda>c. cache_drop c i) r)"
  by (rule rec_ok_on_cache) (auto intro: cache_ok_drop)

lemma rec_ok_on_invalidate: "rec_ok tracked v r \<Longrightarrow> rec_ok tracked v' (on_cache cache_invalidate r)"
  by (rule rec_ok_on_cache) (auto intro: cache_ok_invalidate)

lemma rec_ok_on_drop_invalidate:
  "rec_ok tracked v r \<Longrightarrow> rec_ok tracked v' (on_cache (\<lambda>c. cache_invalidate (cache_drop c i)) r)"
  by (rule rec_ok_on_cache) (auto intro: cache_ok_invalidate cache_ok_drop)

lemmas rec_ok_steps = rec_ok_on_upsert rec_ok_on_drop rec_ok_on_invalidate rec_ok_on_drop_invalidate

text \<open>One status of each call.\<close>

lemma create_status_ok:
  assumes "rec_ok tracked v r" "ttls_ok (de_Entry d)"
  shows "rec_ok tracked (if st_Code st = codes_OK then put_entry v (de_Entry d) else v)
    (fst (create_status (r, store) (d, st)))"
  using assms by (simp add: create_status_def Let_def rec_ok_steps)

lemma update_status_ok:
  assumes "rec_ok tracked v r" "ttls_ok (de_Entry d)"
  shows "rec_ok tracked (if st_Code st = codes_OK then put_entry v (de_Entry d) else v)
    (fst (update_status (r, store) (d, st)))"
  using assms by (simp add: update_status_def Let_def rec_ok_steps)

lemma delete_status_ok:
  assumes "rec_ok tracked v r"
  shows "rec_ok tracked (if st_Code st = codes_OK then remove_entry v (e_ID e) else v) (delete_status r (e, st))"
  using assms by (simp add: delete_status_def Let_def rec_ok_steps)

text \<open>All statuses of a call.\<close>

lemma foldl_status_ok:
  assumes "\<And>v r store d st. d \<in> D \<Longrightarrow> rec_ok tracked v r \<Longrightarrow>
      rec_ok tracked (if st_Code st = codes_OK then step v (f d) else v) (fst (g (r, store) (d, st)))"
    and "rec_ok tracked v r" "set ds \<subseteq> D"
  shows "rec_ok tracked (ok_items step v (zip (map f ds) sts)) (fst (foldl g (r, store) (zip ds sts)))"
  using assms(2,3)
proof (induction ds arbitrary: v r store sts)
  case (Cons d ds)
  show ?case
  proof (cases sts)
    case (Cons st sts')
    obtain r' store' where g: "g (r, store) (d, st) = (r', store')" by (cases "g (r, store) (d, st)")
    have "rec_ok tracked (if st_Code st = codes_OK then step v (f d) else v) r'"
      using assms(1) [of d v r st store] Cons.prems g by simp
    from Cons.IH [OF this] Cons.prems show ?thesis using Cons g by (auto simp: ok_items_def)
  qed (use Cons.prems in \<open>simp add: ok_items_def\<close>)
qed (simp add: ok_items_def)

lemma foldl_delete_ok:
  assumes "rec_ok tracked v r"
  shows "rec_ok tracked (ok_items remove_entry v (zip (map e_ID es) sts)) (foldl delete_status r (zip es sts))"
  using assms
proof (induction es arbitrary: v r sts)
  case (Cons e es)
  show ?case
  proof (cases sts)
    case (Cons st sts')
    from Cons.IH [OF delete_status_ok [OF Cons.prems, of st e]] show ?thesis
      using Cons by (auto simp: ok_items_def split: if_splits)
  qed (use Cons.prems in \<open>simp add: ok_items_def\<close>)
qed (simp add: ok_items_def)

lemma deleteEntries_ok:
  assumes "\<And>w' sts. ec_DeleteEntries (rc_EntryClient cfg) w (idsFromEntries es) = (w', sts, None) \<Longrightarrow>
      view w' = ok_items remove_entry (view w) (zip (idsFromEntries es) sts)"
    and "rec_ok tracked (view w) r" "deleteEntries cfg r w es = (w', r')"
  shows "rec_ok tracked (view w') r'"
proof -
  obtain w1 sts oe where c: "ec_DeleteEntries (rc_EntryClient cfg) w (idsFromEntries es) = (w1, sts, oe)"
    by (cases "ec_DeleteEntries (rc_EntryClient cfg) w (idsFromEntries es)") auto
  show ?thesis
  proof (cases oe)
    case None
    then have "view w1 = ok_items remove_entry (view w) (zip (idsFromEntries es) sts)"
      using assms(1) c by blast
    then show ?thesis
      using assms(3) c None foldl_delete_ok [OF assms(2), of es sts] by (simp add: deleteEntries_def idsFromEntries_def)
  next
    case (Some e)
    then show ?thesis using assms(2,3) c by (auto simp: deleteEntries_def rec_ok_on_invalidate)
  qed
qed

lemma createEntries_ok:
  assumes "\<And>w' sts. ec_CreateEntries (rc_EntryClient cfg) w (entriesFromDeclaredEntries ds) = (w', sts, None) \<Longrightarrow>
      view w' = ok_items put_entry (view w) (zip (entriesFromDeclaredEntries ds) sts)"
    and "rec_ok tracked (view w) r" "\<forall>d\<in>set ds. ttls_ok (de_Entry d)"
    and "createEntries cfg r store w ds = (w', r', store')"
  shows "rec_ok tracked (view w') r'"
proof -
  obtain w1 sts oe where c: "ec_CreateEntries (rc_EntryClient cfg) w (entriesFromDeclaredEntries ds) = (w1, sts, oe)"
    by (cases "ec_CreateEntries (rc_EntryClient cfg) w (entriesFromDeclaredEntries ds)") auto
  show ?thesis
  proof (cases oe)
    case None
    then have "view w1 = ok_items put_entry (view w) (zip (entriesFromDeclaredEntries ds) sts)"
      using assms(1) c by blast
    moreover have "rec_ok tracked (ok_items put_entry (view w) (zip (map de_Entry ds) sts))
        (fst (foldl create_status (r, store) (zip ds sts)))"
      using assms(2,3) create_status_ok by (intro foldl_status_ok [where D = "set ds"]) blast+
    ultimately show ?thesis
      using assms(4) c None by (simp add: createEntries_def entriesFromDeclaredEntries_def)
  next
    case (Some e)
    then show ?thesis using assms(2,4) c by (auto simp: createEntries_def rec_ok_on_invalidate)
  qed
qed

lemma updateEntries_ok:
  assumes "\<And>w' sts. ec_UpdateEntries (rc_EntryClient cfg) w (entriesFromDeclaredEntries ds) = (w', sts, None) \<Longrightarrow>
      view w' = ok_items put_entry (view w) (zip (entriesFromDeclaredEntries ds) sts)"
    and "rec_ok tracked (view w) r" "\<forall>d\<in>set ds. ttls_ok (de_Entry d)"
    and "updateEntries cfg r store w ds = (w', r', store')"
  shows "rec_ok tracked (view w') r'"
proof -
  obtain w1 sts oe where c: "ec_UpdateEntries (rc_EntryClient cfg) w (entriesFromDeclaredEntries ds) = (w1, sts, oe)"
    by (cases "ec_UpdateEntries (rc_EntryClient cfg) w (entriesFromDeclaredEntries ds)") auto
  show ?thesis
  proof (cases oe)
    case None
    then have "view w1 = ok_items put_entry (view w) (zip (entriesFromDeclaredEntries ds) sts)"
      using assms(1) c by blast
    moreover have "rec_ok tracked (ok_items put_entry (view w) (zip (map de_Entry ds) sts))
        (fst (foldl update_status (r, store) (zip ds sts)))"
      using assms(2,3) update_status_ok by (intro foldl_status_ok [where D = "set ds"]) blast+
    ultimately show ?thesis
      using assms(4) c None by (simp add: updateEntries_def entriesFromDeclaredEntries_def)
  next
    case (Some e)
    then show ?thesis using assms(2,4) c by (auto simp: updateEntries_def rec_ok_on_invalidate)
  qed
qed

text \<open>A cache due for a reload stays so.\<close>

definition due :: "'c entryReconciler \<Rightarrow> bool" where
  "due r \<longleftrightarrow> (case er_entryCache r of None \<Rightarrow> False | Some c \<Rightarrow> lc_nextReload c = time_zero)"

lemma due_on_cache:
  "(\<And>c. lc_nextReload c = time_zero \<Longrightarrow> lc_nextReload (f c) = time_zero) \<Longrightarrow> due r \<Longrightarrow> due (on_cache f r)"
  by (auto simp: due_def on_cache_def split: option.splits)

lemma due_invalidate: "er_entryCache r \<noteq> None \<Longrightarrow> due (on_cache cache_invalidate r)"
  by (auto simp: due_def on_cache_def)

lemma cache_kept: "er_entryCache (on_cache f r) = None \<longleftrightarrow> er_entryCache r = None"
  by (auto simp: on_cache_def split: option.splits)

lemma foldl_keeps: "(\<And>a x. P a \<Longrightarrow> P (f a x)) \<Longrightarrow> P a \<Longrightarrow> P (foldl f a xs)"
  by (induction xs arbitrary: a) auto

lemma create_status_due: "due (fst rs) \<Longrightarrow> due (fst (create_status rs ds))"
  by (auto simp: create_status_def Let_def split_beta intro!: due_on_cache)

lemma update_status_due: "due (fst rs) \<Longrightarrow> due (fst (update_status rs ds))"
  by (auto simp: update_status_def Let_def split_beta intro!: due_on_cache)

lemma delete_status_due: "due r \<Longrightarrow> due (delete_status r es)"
  by (auto simp: delete_status_def Let_def split_beta intro!: due_on_cache)

lemma status_cache_kept:
  "er_entryCache (fst (create_status rs ds)) = None \<longleftrightarrow> er_entryCache (fst rs) = None"
  "er_entryCache (fst (update_status rs ds)) = None \<longleftrightarrow> er_entryCache (fst rs) = None"
  "er_entryCache (delete_status r es) = None \<longleftrightarrow> er_entryCache r = None"
  by (simp_all add: create_status_def update_status_def delete_status_def Let_def split_beta cache_kept)

lemma deleteEntries_due:
  assumes "deleteEntries cfg r w es = (w', r')"
  shows "due r \<Longrightarrow> due r'"
    and "er_entryCache r \<noteq> None \<Longrightarrow> snd (snd (ec_DeleteEntries (rc_EntryClient cfg) w (idsFromEntries es))) \<noteq> None \<Longrightarrow> due r'"
    and "er_entryCache r \<noteq> None \<Longrightarrow> er_entryCache r' \<noteq> None"
proof -
  obtain w1 sts oe where c: "ec_DeleteEntries (rc_EntryClient cfg) w (idsFromEntries es) = (w1, sts, oe)"
    by (cases "ec_DeleteEntries (rc_EntryClient cfg) w (idsFromEntries es)") auto
  show "due r \<Longrightarrow> due r'"
    using assms c foldl_keeps [of due delete_status r "zip es sts", OF delete_status_due]
    by (cases oe) (auto simp: deleteEntries_def intro!: due_on_cache)
  show "er_entryCache r \<noteq> None \<Longrightarrow> snd (snd (ec_DeleteEntries (rc_EntryClient cfg) w (idsFromEntries es))) \<noteq> None \<Longrightarrow> due r'"
    using assms c by (auto simp: deleteEntries_def due_invalidate)
  show "er_entryCache r \<noteq> None \<Longrightarrow> er_entryCache r' \<noteq> None"
    using assms c foldl_keeps [of "\<lambda>r. er_entryCache r \<noteq> None" delete_status r "zip es sts"]
    by (cases oe) (auto simp: deleteEntries_def status_cache_kept on_cache_def)
qed

lemma createEntries_due:
  assumes "createEntries cfg r store w ds = (w', r', store')"
  shows "due r \<Longrightarrow> due r'"
    and "er_entryCache r \<noteq> None \<Longrightarrow>
      snd (snd (ec_CreateEntries (rc_EntryClient cfg) w (entriesFromDeclaredEntries ds))) \<noteq> None \<Longrightarrow> due r'"
    and "er_entryCache r \<noteq> None \<Longrightarrow> er_entryCache r' \<noteq> None"
proof -
  obtain w1 sts oe where c: "ec_CreateEntries (rc_EntryClient cfg) w (entriesFromDeclaredEntries ds) = (w1, sts, oe)"
    by (cases "ec_CreateEntries (rc_EntryClient cfg) w (entriesFromDeclaredEntries ds)") auto
  show "due r \<Longrightarrow> due r'"
    using assms c foldl_keeps [of "\<lambda>rs. due (fst rs)" create_status "(r, store)" "zip ds sts"]
    by (cases oe) (auto simp: createEntries_def create_status_due intro!: due_on_cache)
  show "er_entryCache r \<noteq> None \<Longrightarrow>
      snd (snd (ec_CreateEntries (rc_EntryClient cfg) w (entriesFromDeclaredEntries ds))) \<noteq> None \<Longrightarrow> due r'"
    using assms c by (auto simp: createEntries_def due_invalidate)
  show "er_entryCache r \<noteq> None \<Longrightarrow> er_entryCache r' \<noteq> None"
    using assms c foldl_keeps [of "\<lambda>rs. er_entryCache (fst rs) \<noteq> None" create_status "(r, store)" "zip ds sts"]
    by (cases oe) (auto simp: createEntries_def status_cache_kept on_cache_def)
qed

lemma updateEntries_due:
  assumes "updateEntries cfg r store w ds = (w', r', store')"
  shows "due r \<Longrightarrow> due r'"
    and "er_entryCache r \<noteq> None \<Longrightarrow>
      snd (snd (ec_UpdateEntries (rc_EntryClient cfg) w (entriesFromDeclaredEntries ds))) \<noteq> None \<Longrightarrow> due r'"
proof -
  obtain w1 sts oe where c: "ec_UpdateEntries (rc_EntryClient cfg) w (entriesFromDeclaredEntries ds) = (w1, sts, oe)"
    by (cases "ec_UpdateEntries (rc_EntryClient cfg) w (entriesFromDeclaredEntries ds)") auto
  show "due r \<Longrightarrow> due r'"
    using assms c foldl_keeps [of "\<lambda>rs. due (fst rs)" update_status "(r, store)" "zip ds sts"]
    by (cases oe) (auto simp: updateEntries_def update_status_due intro!: due_on_cache)
  show "er_entryCache r \<noteq> None \<Longrightarrow>
      snd (snd (ec_UpdateEntries (rc_EntryClient cfg) w (entriesFromDeclaredEntries ds))) \<noteq> None \<Longrightarrow> due r'"
    using assms c by (auto simp: updateEntries_def due_invalidate)
qed

subsection \<open>Listing\<close>

lemma er_listEntries_hit:
  assumes "er_entryCache r = Some c" "cache_fresh c (ee_Now E w) (filter_key hints)"
  shows "er_listEntries E cfg r hints w =
    Some (w, r\<lparr>er_EntryListCacheHits := er_EntryListCacheHits r + 1\<rparr>, Inr (splitEntries cfg (cache_snapshot (ee_rangeEntries E) c)))"
  using assms by (simp add: er_listEntries_def)

lemma er_listEntries_miss:
  assumes "\<And>c. er_entryCache r = Some c \<Longrightarrow> \<not> cache_fresh c (ee_Now E w) (filter_key hints)"
    and "ec_ListEntries (rc_EntryClient cfg) w hints = Some (w', Inr entries)"
  shows "\<exists>r'. er_listEntries E cfg r hints w = Some (w', r', Inr (splitEntries cfg entries)) \<and>
    er_EntryListServerCalls r' = er_EntryListServerCalls r + 1 \<and>
    er_entryCache r' = map_option (\<lambda>c. cache_replace c (ee_Now E w') (filter_key hints)
      (fst (splitEntries cfg entries) @ snd (splitEntries cfg entries))) (er_entryCache r)"
  using assms by (cases "er_entryCache r") (auto simp: er_listEntries_def Let_def split_beta prod_eq_iff)

text \<open>After a reload the cache agrees with the server on what it keeps.\<close>

definition lists_view :: "('w \<Rightarrow> string \<Rightarrow> Entry option) \<Rightarrow> 'w EntryClient \<Rightarrow> (string list \<Rightarrow> Entry \<Rightarrow> bool) \<Rightarrow> bool" where
  "lists_view view C selected \<longleftrightarrow>
     (\<forall>w hints w' es. ec_ListEntries C w hints = Some (w', Inr es) \<longrightarrow>
        distinct (map e_ID es) \<and> (\<forall>i e. view w' i = Some e \<longrightarrow> e_ID e = i) \<and>
        (\<forall>e. e \<in> set es \<longleftrightarrow> view w' (e_ID e) = Some e \<and> selected hints e))"

lemma split_append_distinct:
  assumes "distinct (map e_ID es)"
  shows "distinct (map e_ID (filter (processed cfg) es @ filter (cleaned_up cfg) es))"
  using assms split_ids_disjoint [of cfg es] by (auto simp: distinct_map_filter_ids)

lemma reload_ok:
  assumes es: "distinct (map e_ID es)" "\<And>i e. v i = Some e \<Longrightarrow> e_ID e = i"
      "\<And>e. e \<in> set es \<longleftrightarrow> v (e_ID e) = Some e \<and> selected e"
    and c': "c' = cache_replace c now k (fst (splitEntries cfg es) @ snd (splitEntries cfg es))"
  shows "cache_ok (\<lambda>e. selected e \<and> (processed cfg e \<or> cleaned_up cfg e)) v c'"
proof -
  have snap: "cache_snapshot (\<lambda>m. m) c' = filter (processed cfg) es @ filter (cleaned_up cfg) es"
    unfolding c' using split_append_distinct [OF es(1), of cfg] by (simp add: snapshot_replace)
  have wf: "cache_wf c'" "cache_loaded c'" by (simp_all add: c' cache_replace_wf cache_replace_loaded)
  have id: "cache_lookup c' i = Some e \<Longrightarrow> e_ID e = i" for i e
    using wf(1) by (auto simp: cache_lookup_def cache_wf_def split: option.splits dest: map_of_SomeD)
  have look: "cache_lookup c' (e_ID e) = Some e \<longleftrightarrow> e \<in> set es \<and> (processed cfg e \<or> cleaned_up cfg e)" for e
    unfolding snapshot_iff_lookup [OF refl wf(1), symmetric] snap by auto
  show ?thesis unfolding cache_ok_def using wf(2) look es id by metis
qed

subsection \<open>Properties\<close>

text \<open>C5: carrying out a plan keeps the entry list cache coherent. When the cache agrees with the server
  before, the client conforms to the SPIRE API, and the entries to create and update carry IDs and TTLs of whole
  seconds, then after the deletions, creations and updates, whatever their statuses and errors, the cache again
  agrees with the server or is due for a reload.\<close>

theorem carryOut_cache_coherent:
  assumes "conforming_client view (rc_EntryClient cfg)" "rec_ok tracked (view w) r"
    and "\<forall>d\<in>set (pl_toCreate p). e_ID (de_Entry d) \<noteq> '''' \<and> ttls_ok (de_Entry d)"
    and "\<forall>d\<in>set (pl_toUpdate p). ttls_ok (de_Entry d)"
    and "carryOut cfg r w p = (w', r', store')"
  shows "rec_ok tracked (view w') r'"
proof -
  have calls: "ec_DeleteEntries (rc_EntryClient cfg) w ids = (w', sts, None) \<Longrightarrow>
      view w' = ok_items remove_entry (view w) (zip ids sts)"
    "list_all (\<lambda>e. e_ID e \<noteq> '''') (entriesFromDeclaredEntries ds) \<Longrightarrow>
      ec_CreateEntries (rc_EntryClient cfg) w (entriesFromDeclaredEntries ds) = (w', sts, None) \<Longrightarrow>
      view w' = ok_items put_entry (view w) (zip (entriesFromDeclaredEntries ds) sts)"
    "ec_UpdateEntries (rc_EntryClient cfg) w es = (w', sts, None) \<Longrightarrow>
      view w' = ok_items put_entry (view w) (zip es sts)" for w ids es ds w' sts
    using assms(1) unfolding conforming_client_def by blast+
  obtain w1 r1 where d: "(if pl_toDelete p \<noteq> [] then deleteEntries cfg r w (pl_toDelete p) else (w, r)) = (w1, r1)"
    by (metis surj_pair)
  obtain w2 r2 st2 where c: "(if pl_toCreate p \<noteq> [] then createEntries cfg r1 (pl_Store p) w1 (pl_toCreate p)
      else (w1, r1, pl_Store p)) = (w2, r2, st2)"
    by (metis surj_pair)
  have "rec_ok tracked (view w1) r1"
    using d assms(2) deleteEntries_ok [where view = view, OF calls(1) assms(2)] by (auto split: if_splits)
  then have "rec_ok tracked (view w2) r2"
    using c assms(3) createEntries_ok [where view = view and cfg = cfg and ds = "pl_toCreate p" and w = w1, OF calls(2)]
    by (auto simp: entriesFromDeclaredEntries_def list_all_iff split: if_splits)
  moreover have "(if pl_toUpdate p \<noteq> [] then updateEntries cfg r2 st2 w2 (pl_toUpdate p) else (w2, r2, st2)) =
      (w', r', store')"
    using assms(5) d c by (simp add: carryOut_def Let_def)
  ultimately show ?thesis using updateEntries_ok [where view = view, OF calls(3) _ assms(4)] by (auto split: if_splits)
qed

text \<open>C7: a listing is answered from a fresh cache without a call to the server; otherwise it asks the
  server, returns its entries split into those to process and those to clean up, and leaves a cache that agrees
  with the server on the selected entries the configuration cares for.\<close>

theorem er_listEntries_correct:
  assumes "lists_view view (rc_EntryClient cfg) selected"
    and "er_listEntries E cfg r hints w = Some (w', r', Inr res)"
  shows "(case er_entryCache r of
      Some c \<Rightarrow> cache_fresh c (ee_Now E w) (filter_key hints) \<longrightarrow>
        w' = w \<and> er_EntryListServerCalls r' = er_EntryListServerCalls r \<and> er_entryCache r' = er_entryCache r \<and>
        res = splitEntries cfg (cache_snapshot (ee_rangeEntries E) c)
    | None \<Rightarrow> True) \<and>
    ((\<forall>c. er_entryCache r = Some c \<longrightarrow> \<not> cache_fresh c (ee_Now E w) (filter_key hints)) \<longrightarrow>
      er_EntryListServerCalls r' = er_EntryListServerCalls r + 1 \<and>
      (\<exists>es. ec_ListEntries (rc_EntryClient cfg) w hints = Some (w', Inr es) \<and> res = splitEntries cfg es) \<and>
      rec_ok (\<lambda>e. selected hints e \<and> shouldProcessOrDeleteEntryID cfg e \<noteq> (False, False)) (view w') r')"
proof (intro conjI impI)
  show "case er_entryCache r of
      Some c \<Rightarrow> cache_fresh c (ee_Now E w) (filter_key hints) \<longrightarrow>
        w' = w \<and> er_EntryListServerCalls r' = er_EntryListServerCalls r \<and> er_entryCache r' = er_entryCache r \<and>
        res = splitEntries cfg (cache_snapshot (ee_rangeEntries E) c)
    | None \<Rightarrow> True"
    using assms(2) er_listEntries_hit [of r _ E w hints cfg] by (auto split: option.splits)
  assume stale: "\<forall>c. er_entryCache r = Some c \<longrightarrow> \<not> cache_fresh c (ee_Now E w) (filter_key hints)"
  obtain es where es: "ec_ListEntries (rc_EntryClient cfg) w hints = Some (w', Inr es)"
    using assms(2) stale by (auto simp: er_listEntries_def Let_def split_beta split: option.splits sum.splits if_splits)
  from er_listEntries_miss [of r E w hints cfg, OF _ es] stale assms(2)
  have r': "er_EntryListServerCalls r' = er_EntryListServerCalls r + 1" "res = splitEntries cfg es"
    "er_entryCache r' = map_option (\<lambda>c. cache_replace c (ee_Now E w') (filter_key hints)
      (fst (splitEntries cfg es) @ snd (splitEntries cfg es))) (er_entryCache r)"
    by auto
  show "er_EntryListServerCalls r' = er_EntryListServerCalls r + 1" by fact
  show "\<exists>es. ec_ListEntries (rc_EntryClient cfg) w hints = Some (w', Inr es) \<and> res = splitEntries cfg es"
    using es r'(2) by blast
  have "(\<lambda>e. selected hints e \<and> shouldProcessOrDeleteEntryID cfg e \<noteq> (False, False)) =
      (\<lambda>e. selected hints e \<and> (processed cfg e \<or> cleaned_up cfg e))"
    by (auto simp: fun_eq_iff prod_eq_iff)
  moreover have listed: "distinct (map e_ID es)" "view w' i = Some e \<Longrightarrow> e_ID e = i"
    "e \<in> set es \<longleftrightarrow> view w' (e_ID e) = Some e \<and> selected hints e" for i e
    using assms(1) es unfolding lists_view_def by blast+
  ultimately show "rec_ok (\<lambda>e. selected hints e \<and> shouldProcessOrDeleteEntryID cfg e \<noteq> (False, False)) (view w') r'"
    using reload_ok [OF listed refl] r'(3) by (cases "er_entryCache r") (simp_all add: rec_ok_def)
qed

text \<open>The view of the reference server.\<close>

definition mem_view :: "mem_world \<Rightarrow> string \<Rightarrow> Entry option" where
  "mem_view w = (\<lambda>i. find (\<lambda>e. e_ID e = i) (m_entries w))"

text \<open>One of the calls that carry out a plan returns an error.\<close>

definition call_failed :: "'w ReconcilerConfig \<Rightarrow> 'c entryReconciler \<Rightarrow> 'w \<Rightarrow> plan \<Rightarrow> bool" where
  "call_failed cfg r w p \<longleftrightarrow>
     (let C = rc_EntryClient cfg;
          (w1, r1) = (if pl_toDelete p \<noteq> [] then deleteEntries cfg r w (pl_toDelete p) else (w, r));
          (w2, r2, st2) = (if pl_toCreate p \<noteq> [] then createEntries cfg r1 (pl_Store p) w1 (pl_toCreate p)
                           else (w1, r1, pl_Store p))
      in pl_toDelete p \<noteq> [] \<and> snd (snd (ec_DeleteEntries C w (idsFromEntries (pl_toDelete p)))) \<noteq> None \<or>
         pl_toCreate p \<noteq> [] \<and> snd (snd (ec_CreateEntries C w1 (entriesFromDeclaredEntries (pl_toCreate p)))) \<noteq> None \<or>
         pl_toUpdate p \<noteq> [] \<and> snd (snd (ec_UpdateEntries C w2 (entriesFromDeclaredEntries (pl_toUpdate p)))) \<noteq> None)"

text \<open>C6: whenever one of the calls that carry out a plan fails as a whole, the entry list cache is not
  fresh afterwards, so the next listing goes to the server, whatever the other calls did to the cache.\<close>

theorem failed_call_reloads:
  assumes "call_failed cfg r w p" "carryOut cfg r w p = (w', r', store')"
    and "er_entryCache r \<noteq> None" "time_zero \<le> now"
  shows "\<exists>c. er_entryCache r' = Some c \<and> \<not> cache_fresh c now k"
proof -
  obtain w1 r1 where d: "(if pl_toDelete p \<noteq> [] then deleteEntries cfg r w (pl_toDelete p) else (w, r)) = (w1, r1)"
    by (metis surj_pair)
  obtain w2 r2 st2 where c: "(if pl_toCreate p \<noteq> [] then createEntries cfg r1 (pl_Store p) w1 (pl_toCreate p)
      else (w1, r1, pl_Store p)) = (w2, r2, st2)"
    by (metis surj_pair)
  have u: "(if pl_toUpdate p \<noteq> [] then updateEntries cfg r2 st2 w2 (pl_toUpdate p) else (w2, r2, st2)) = (w', r', store')"
    using assms(2) d c by (simp add: carryOut_def Let_def)
  note steps = deleteEntries_due [of cfg r w "pl_toDelete p" w1 r1]
    createEntries_due [of cfg r1 "pl_Store p" w1 "pl_toCreate p" w2 r2 st2]
    updateEntries_due [of cfg r2 st2 w2 "pl_toUpdate p" w' r' store']
  have n1: "er_entryCache r1 \<noteq> None" using d assms(3) steps(3) by (auto split: if_splits)
  then have n2: "er_entryCache r2 \<noteq> None" using c steps(6) by (auto split: if_splits)
  have fwd1: "due r1 \<Longrightarrow> due r2" using c steps(4) by (auto split: if_splits)
  have fwd2: "due r2 \<Longrightarrow> due r'" using u steps(7) by (auto split: if_splits)
  from assms(1) consider
      "pl_toDelete p \<noteq> []" "snd (snd (ec_DeleteEntries (rc_EntryClient cfg) w (idsFromEntries (pl_toDelete p)))) \<noteq> None"
    | "pl_toCreate p \<noteq> []" "snd (snd (ec_CreateEntries (rc_EntryClient cfg) w1 (entriesFromDeclaredEntries (pl_toCreate p)))) \<noteq> None"
    | "pl_toUpdate p \<noteq> []" "snd (snd (ec_UpdateEntries (rc_EntryClient cfg) w2 (entriesFromDeclaredEntries (pl_toUpdate p)))) \<noteq> None"
    unfolding call_failed_def Let_def d prod.case c by blast
  then have "due r'"
  proof cases
    case 1
    then have "due r1" using d steps(2) assms(3) by simp
    then show ?thesis using fwd1 fwd2 by blast
  next
    case 2
    then have "due r2" using c steps(5) n1 by simp
    then show ?thesis using fwd2 by blast
  next
    case 3
    then show ?thesis using u steps(8) n2 by simp
  qed
  then show ?thesis using assms(4) by (auto simp: due_def cache_fresh_def split: option.splits)
qed

lemma find_mem_put: "find (\<lambda>x. e_ID x = i) (mem_put e es) = put_entry (\<lambda>i. find (\<lambda>x. e_ID x = i) es) e i"
  by (induction es) (auto simp: put_entry_def)

lemma find_mem_remove:
  "find (\<lambda>x. e_ID x = i) (mem_remove j es) = remove_entry (\<lambda>i. find (\<lambda>x. e_ID x = i) es) j i"
  by (induction es) (auto simp: mem_remove_def remove_entry_def)

lemma status_of_OK [simp]: "st_Code (status_of b) = codes_OK \<longleftrightarrow> b"
  by (simp add: status_of_def codes_defs)

lemma mem_run_view:
  assumes "\<And>x es i. find (\<lambda>e. e_ID e = i) (step x es) = vstep (\<lambda>i. find (\<lambda>e. e_ID e = i) es) x i"
    and "mem_run accept step es xs = (es', sts)"
  shows "length sts = length xs \<and>
    (\<lambda>i. find (\<lambda>e. e_ID e = i) es') = ok_items vstep (\<lambda>i. find (\<lambda>e. e_ID e = i) es) (zip xs sts)"
  using assms(2)
proof (induction xs arbitrary: es es' sts)
  case (Cons x xs)
  obtain es1 sts1 where r: "mem_run accept step (if accept x es then step x es else es) xs = (es1, sts1)"
    by (metis surj_pair)
  have v: "(\<lambda>i. find (\<lambda>e. e_ID e = i) (step x es)) = vstep (\<lambda>i. find (\<lambda>e. e_ID e = i) es) x"
    using assms(1) by (simp add: fun_eq_iff)
  from Cons.IH [OF r] Cons.prems r v show ?case by (auto simp: ok_items_def)
qed (simp add: ok_items_def)

lemma mem_conforming: "conforming_client mem_view mem_client"
proof -
  have "length sts = length xs \<and> mem_view w' = ok_items vstep (mem_view w) (zip xs sts)"
    if "mem_call accept step w xs = (w', sts, None)"
      and "\<And>x es i. find (\<lambda>e. e_ID e = i) (step x es) = vstep (\<lambda>i. find (\<lambda>e. e_ID e = i) es) x i"
    for accept and step :: "'x \<Rightarrow> Entry list \<Rightarrow> Entry list" and vstep w w' xs sts
    using that(1) mem_run_view [of step vstep, OF that(2)]
    unfolding mem_call_def mem_view_def by (auto split: prod.splits simp: fun_eq_iff)
  from this [of _ mem_put _ _ _ _ put_entry, OF _ find_mem_put] this [of _ mem_remove _ _ _ _ remove_entry, OF _ find_mem_remove]
  show ?thesis unfolding conforming_client_def mem_client_def by auto
qed

definition sample_reconciler :: "(string \<times> cachedEntry) list entryReconciler" where
  "sample_reconciler = (Reconciler mem_env mem_cfg)\<lparr>er_entryCache :=
     Some (cache_replace \<lparr>lc_reloadAfter = Hour, lc_entries = None, lc_nextReload = 0, lc_filterKey = ''''\<rparr> 1000 ''''
       (m_entries sample_world))\<rparr>"

lemma sample_cache_ok: "rec_ok (\<lambda>_. True) (mem_view sample_world) sample_reconciler"
proof -
  let ?c = "cache_replace \<lparr>lc_reloadAfter = Hour, lc_entries = None, lc_nextReload = 0, lc_filterKey = ''''\<rparr> 1000 ''''
       (m_entries sample_world)"
  have "cache_lookup ?c i = mem_view sample_world i" for i
    by (simp add: cache_replace_def cache_lookup_def mem_view_def sample_world_def)
  then have "cache_ok (\<lambda>_. True) (mem_view sample_world) ?c"
    by (simp add: cache_ok_def cache_replace_loaded)
  then show ?thesis by (simp add: rec_ok_def sample_reconciler_def)
qed

theorem carryOut_cache_coherent_witness:
  "rec_ok (\<lambda>_. True) (mem_view (fst (carryOut mem_cfg sample_reconciler sample_world sample_plan)))
     (fst (snd (carryOut mem_cfg sample_reconciler sample_world sample_plan)))"
proof (rule carryOut_cache_coherent [where cfg = mem_cfg and view = mem_view and p = sample_plan
      and store' = "snd (snd (carryOut mem_cfg sample_reconciler sample_world sample_plan))"])
  show "conforming_client mem_view (rc_EntryClient mem_cfg)" using mem_conforming by (simp add: mem_cfg_def)
  show "\<forall>d\<in>set (pl_toCreate sample_plan). e_ID (de_Entry d) \<noteq> '''' \<and> ttls_ok (de_Entry d)"
    by (simp add: sample_plan_eval)
  show "\<forall>d\<in>set (pl_toUpdate sample_plan). ttls_ok (de_Entry d)" by code_simp
  show "rec_ok (\<lambda>_. True) (mem_view sample_world) sample_reconciler" by (rule sample_cache_ok)
qed simp

lemma uniqBy_find:
  "e \<in> set (uniqBy_seen e_ID S es) \<longleftrightarrow> e_ID e \<notin> S \<and> find (\<lambda>x. e_ID x = e_ID e) es = Some e"
  by (induction es arbitrary: S) (auto simp: eq_commute)

lemma mem_lists: "lists_view mem_view mem_client (\<lambda>hints e. hints = [] \<or> e_Hint e \<in> set hints)"
proof -
  have "distinct (map e_ID (filter P (lo_UniqBy e_ID es)))" for P es
    by (rule distinct_map_filter_ids [OF lo_UniqBy_distinct])
  moreover have "find (\<lambda>x. e_ID x = i) es = Some e \<Longrightarrow> e_ID e = i" for i es e by (auto simp: find_Some_iff)
  ultimately show ?thesis
    unfolding lists_view_def by (auto simp: mem_client_def mem_view_def lo_UniqBy_def uniqBy_find)
qed

theorem er_listEntries_correct_witness:
  "\<exists>w' r' res. er_listEntries mem_env mem_cfg (Reconciler mem_env mem_cfg) [] sample_world = Some (w', r', Inr res) \<and>
     er_EntryListServerCalls r' = 1"
proof -
  have lists: "lists_view mem_view (rc_EntryClient mem_cfg) (\<lambda>hints e. hints = [] \<or> e_Hint e \<in> set hints)"
    using mem_lists by (simp add: mem_cfg_def)
  have cold: "\<not> cache_fresh c now k" if "er_entryCache (Reconciler mem_env mem_cfg) = Some c" for c now k
    using that by (auto simp: Reconciler_def mem_cfg_def cache_fresh_def)
  have "\<exists>w' es. ec_ListEntries (rc_EntryClient mem_cfg) sample_world [] = Some (w', Inr es)"
    by (simp add: mem_cfg_def mem_client_def)
  then obtain w' es r' where l: "er_listEntries mem_env mem_cfg (Reconciler mem_env mem_cfg) [] sample_world =
      Some (w', r', Inr (splitEntries mem_cfg es))"
    using er_listEntries_miss [OF cold] by metis
  from er_listEntries_correct [OF lists l] cold have "er_EntryListServerCalls r' = 1"
    by (simp add: Reconciler_def)
  with l show ?thesis by blast
qed

definition failing_cfg :: "mem_world ReconcilerConfig" where
  "failing_cfg = mem_cfg\<lparr>rc_EntryClient := mem_client\<lparr>ec_DeleteEntries := (\<lambda>w ids. (w, [], Some (Err ''unavailable'')))\<rparr>\<rparr>"

theorem failed_call_reloads_witness:
  "\<exists>c. er_entryCache (fst (snd (carryOut failing_cfg sample_reconciler sample_world sample_plan))) = Some c \<and>
     \<not> cache_fresh c 1001 ''''"
proof (rule failed_call_reloads [of failing_cfg sample_reconciler sample_world sample_plan
      "fst (carryOut failing_cfg sample_reconciler sample_world sample_plan)" _
      "snd (snd (carryOut failing_cfg sample_reconciler sample_world sample_plan))"])
  show "call_failed failing_cfg sample_reconciler sample_world sample_plan"
    by (simp add: call_failed_def failing_cfg_def sample_plan_eval Let_def split_beta)
  show "er_entryCache sample_reconciler \<noteq> None" by (simp add: sample_reconciler_def)
  show "time_zero \<le> 1001" by (simp add: time_zero_def Second_def)
qed simp

text \<open>The hints a listing is narrowed to, where the filter is enabled, are the hints of all managed
  resources, each once and in order; when some resource has no hint the list is not narrowed. Two different
  selections never share the key under which the cache remembers its selection.\<close>

lemma entryListHints_correct:
  assumes "hints = entryListHints cfg sids statics" "hints' = entryListHints cfg' sids' statics'"
    and "\<forall>h\<in>set hints \<union> set hints'. CHR 0x00 \<notin> set h"
  shows "(hints \<noteq> [] \<longrightarrow> rc_EnableEntryListHintFilter cfg \<and> sorted hints \<and> distinct hints \<and> '''' \<notin> set hints \<and>
      set hints = (\<lambda>c. cs_Hint (csid_Spec (bsi_Resource c))) ` set sids \<union> (\<lambda>c. se_Hint (cse_Spec (bse_Resource c))) ` set statics) \<and>
    (filter_key hints = filter_key hints' \<longrightarrow> hints = hints')"
proof (intro conjI impI)
  have shape: "xs = [] \<or> (\<exists>hs. xs = sort_Strings (lo_Uniq hs) \<and> '''' \<notin> set hs)"
    if "xs = entryListHints c s t" for xs c s t
    using that unfolding entryListHints_def Let_def by (auto split: if_splits)
  {
    assume "hints \<noteq> []"
    then show "rc_EnableEntryListHintFilter cfg" "'''' \<notin> set hints"
      "set hints = (\<lambda>c. cs_Hint (csid_Spec (bsi_Resource c))) ` set sids \<union> (\<lambda>c. se_Hint (cse_Spec (bse_Resource c))) ` set statics"
      using assms(1) by (auto simp: entryListHints_def Let_def split: if_splits)
    show "sorted hints" "distinct hints"
      using shape [OF assms(1)] sorted_sort_Strings
      by (auto simp: mset_eq_imp_distinct_iff [OF mset_sort_by])
  }
  assume eq: "filter_key hints = filter_key hints'"
  have "\<forall>h\<in>set xs. h \<noteq> ''''" if "xs = entryListHints c s t" for xs c s t
    using shape [OF that] by auto
  then have "\<forall>h\<in>set hints. CHR 0x00 \<notin> set h \<and> h \<noteq> ''''" "\<forall>h\<in>set hints'. CHR 0x00 \<notin> set h \<and> h \<noteq> ''''"
    using assms by blast+
  then show "hints = hints'" using Join_inj eq unfolding filter_key_def by blast
qed

lemma entryListHints_correct_witness:
  "let cfg = mem_cfg\<lparr>rc_EnableEntryListHintFilter := True\<rparr>;
     c = (\<lambda>h. \<lparr>bse_Resource = \<lparr>cse_Meta = sample_meta ''se'', cse_Spec = sample_static\<lparr>se_Hint := h\<rparr>,
       cse_Status = initStaticStatus\<rparr>, bse_NextStatus = initStaticStatus\<rparr>)
   in entryListHints cfg [] [c ''b'', c ''a'', c ''b''] = [''a'', ''b''] \<and>
      sorted (entryListHints cfg [] [c ''b'', c ''a'', c ''b''])"
proof -
  let ?cfg = "mem_cfg\<lparr>rc_EnableEntryListHintFilter := True\<rparr>"
  let ?c = "\<lambda>h. \<lparr>bse_Resource = \<lparr>cse_Meta = sample_meta ''se'', cse_Spec = sample_static\<lparr>se_Hint := h\<rparr>,
       cse_Status = initStaticStatus\<rparr>, bse_NextStatus = initStaticStatus\<rparr>"
  have eval: "entryListHints ?cfg [] [?c ''b'', ?c ''a'', ?c ''b''] = [''a'', ''b'']" by code_simp
  from entryListHints_correct [OF eval [symmetric] eval [symmetric]] eval show ?thesis by (simp add: Let_def)
qed

end
