(* ===== verification/Entry_Server.thy ===== *)
theory Entry_Server
  imports Reconciler_Cache Entry_Api
begin

section \<open>The entry server\<close>

text \<open>
  What the entry reconciler relies on of the SPIRE server, in two interfaces. \<open>entry_server\<close> is
  the client as the reconciler uses it: the server holds entries, a listing shows them, and the
  calls change those they name. \<open>entry_api\<close> is what the SPIRE API documents of its RPCs, one item
  at a time; the client of pkg/spireapi over such an API is an \<open>entry_server\<close>, whatever the
  batch and page sizes. The contracts speak of the entries as a multiset, as their order is the
  server's own, and of the worlds that satisfy an invariant \<open>inv\<close>, which the calls keep.
\<close>

subsection \<open>Entries that can be created\<close>

text \<open>The server refuses an entry whose ID is taken or which has the SPIFFE ID, parent ID and selectors of
  an entry it has. It chooses the IDs of entries that come without one.\<close>

definition creatable :: "Entry list \<Rightarrow> Entry list \<Rightarrow> bool" where
  "creatable V es \<longleftrightarrow>
     (list_all (\<lambda>e. e_ID e = '''') es \<or>
      distinct (map e_ID es) \<and> list_all (\<lambda>e. e_ID e \<noteq> '''' \<and> e_ID e \<notin> e_ID ` set V) es) \<and>
     sorted_wrt (\<lambda>a b. \<not> same_identity a b) es \<and>
     list_all (\<lambda>e. list_all (\<lambda>v. \<not> same_identity e v) V) es"

definition all_ok :: "nat \<Rightarrow> Status list \<Rightarrow> bool" where
  "all_ok n sts \<longleftrightarrow> length sts = n \<and> list_all (\<lambda>st. st_Code st = codes_OK) sts"

text \<open>The entry that the client creates and deletes to learn which fields the server supports.\<close>

definition probe_entry :: "string \<Rightarrow> string \<Rightarrow> Entry" where
  "probe_entry td entryIDPrefix =
     (let i = ID (TrustDomain td) ''/spire-controller-manager/unsupported-fields-test'' in
      \<lparr>e_ID = (if entryIDPrefix \<noteq> '''' then entryIDPrefix @ ''spire-controller-manager.unsupported-fields-test'' else ''''),
       e_SPIFFEID = i, e_ParentID = i, e_Selectors = [\<lparr>s_Type = ''a'', s_Value = ''1''\<rparr>],
       e_X509SVIDTTL = 60 * Second, e_JWTSVIDTTL = 60 * Second, e_FederatesWith = [], e_Admin = False,
       e_Downstream = False, e_DNSNames = [], e_Hint = ''hint'', e_StoreSVID = True\<rparr>)"

lemma probe_entry_API: "entryToAPI (probe_entry td pfx) = unsupportedFieldsTestEntry td pfx"
  by (simp add: probe_entry_def unsupportedFieldsTestEntry_def entryToAPI_def spiffeIDToAPI_def selectorsToAPI_def
      selectorToAPI_def trustDomainsToAPI_def Let_def Second_def go_quot_def wrap32_def)

lemma same_identity_stored [simp]:
  "same_identity a (stored b) = same_identity a b" "same_identity (stored a) b = same_identity a b"
  "same_identity a (b\<lparr>e_ID := i\<rparr>) = same_identity a b" "same_identity (a\<lparr>e_ID := i\<rparr>) b = same_identity a b"
  by (simp_all add: same_identity_def stored_def)

lemma creatable_cong: "mset V = mset V' \<Longrightarrow> creatable V es = creatable V' es"
  using set_mset_mset [of V] set_mset_mset [of V'] by (simp add: creatable_def list_all_iff)

lemma creatable_subset: "set V' \<subseteq> set V \<Longrightarrow> creatable V es \<Longrightarrow> creatable V' es"
  unfolding creatable_def list_all_iff by blast

lemma same_identity_sym: "same_identity a b \<Longrightarrow> same_identity b a"
  by (simp add: same_identity_def)

lemma statusFromAPI_OK [simp]: "st_Code (statusFromAPI (Some \<lparr>api_Code = 0, api_Message = m\<rparr>)) = codes_OK"
  by (simp add: statusFromAPI_def codes_defs)

lemma all_ok_Cons [simp]: "all_ok (Suc n) (st # sts) \<longleftrightarrow> st_Code st = codes_OK \<and> all_ok n sts"
  by (auto simp: all_ok_def)

lemma all_ok_Nil [simp]: "all_ok 0 []"
  by (simp add: all_ok_def)

text \<open>Creating one entry leaves the rest creatable.\<close>

lemma creatable_Cons:
  assumes "creatable V (e # es)" "e_ID e \<noteq> '''' \<longrightarrow> i = e_ID e" "mset V' = mset ((stored e)\<lparr>e_ID := i\<rparr> # V)"
  shows "creatable V [e]" "creatable V' es"
proof -
  show "creatable V [e]" using assms(1) by (auto simp: creatable_def)
  have "creatable ((stored e)\<lparr>e_ID := i\<rparr> # V) es"
    using assms(1,2) same_identity_sym [of _ e] unfolding creatable_def list_all_iff sorted_wrt.simps list.set
    by (auto simp: image_iff)
  then show "creatable V' es" using creatable_cong [OF assms(3)] by simp
qed

subsection \<open>The client as the reconciler uses it\<close>

locale entry_server =
  fixes inv :: "'w \<Rightarrow> bool" and view :: "'w \<Rightarrow> Entry list" and ok :: "Entry \<Rightarrow> bool" and C :: "'w EntryClient"
  assumes view_ids: "inv w \<Longrightarrow> distinct (map e_ID (view w))"
    and lists: "inv w \<Longrightarrow> \<exists>es. ec_ListEntries C w [] = Some (w, Inr es) \<and> mset es = mset (view w)"
    and creates: "inv w \<Longrightarrow> list_all ok es \<Longrightarrow> creatable (view w) es \<Longrightarrow>
      \<exists>w' sts new. ec_CreateEntries C w es = (w', sts, None) \<and> all_ok (length es) sts \<and> inv w' \<and>
        list_all2 created_as es new \<and> e_ID ` set new \<inter> e_ID ` set (view w) = {} \<and> mset (view w') = mset (view w @ new)"
    and updates: "inv w \<Longrightarrow> list_all ok es \<Longrightarrow> distinct (map e_ID es) \<Longrightarrow> e_ID ` set es \<subseteq> e_ID ` set (view w) \<Longrightarrow>
      \<exists>w' sts. ec_UpdateEntries C w es = (w', sts, None) \<and> all_ok (length es) sts \<and> inv w' \<and>
        mset (view w') = mset (map (apply_update es) (view w))"
    and deletes: "inv w \<Longrightarrow> distinct ids \<Longrightarrow> set ids \<subseteq> e_ID ` set (view w) \<Longrightarrow>
      \<exists>w' sts. ec_DeleteEntries C w ids = (w', sts, None) \<and> all_ok (length ids) sts \<and> inv w' \<and>
        mset (view w') = mset (apply_deletes ids (view w))"
    and probes: "inv w \<Longrightarrow> ok (probe_entry td pfx) \<Longrightarrow> creatable (view w) [probe_entry td pfx] \<Longrightarrow>
      \<exists>w'. ec_GetUnsupportedFields C w td pfx = Some (w', Inr {}) \<and> inv w' \<and> mset (view w') = mset (view w)"
    and ok_ID: "ok (e\<lparr>e_ID := i\<rparr>) = ok e"

subsection \<open>The client over the SPIRE API\<close>

locale entry_api =
  fixes L :: spiffeid_lib and A :: "'w EntryAPI" and inv :: "'w \<Rightarrow> bool" and view :: "'w \<Rightarrow> Entry list"
    and create update :: "'w \<Rightarrow> api_Entry \<Rightarrow> 'w" and delete :: "'w \<Rightarrow> string \<Rightarrow> 'w"
    and created updated :: "'w \<Rightarrow> api_Entry \<Rightarrow> api_EntryResult" and deleted :: "'w \<Rightarrow> string \<Rightarrow> api_Status option"
  assumes ids: "inv w \<Longrightarrow> distinct (map e_ID (view w))"
    and served: "inv w \<Longrightarrow> \<exists>as. list_pages A None w '''' as w \<and> entriesFromAPI L as = Inr (view w)"
    and create_calls: "serves_itemwise (rpc_BatchCreateEntry A) create created"
    and update_calls: "serves_itemwise (rpc_BatchUpdateEntry A) update updated"
    and delete_calls: "serves_itemwise (rpc_BatchDeleteEntry A) delete deleted"
    and create_new: "inv w \<Longrightarrow> valid_entry L e \<Longrightarrow> creatable (view w) [e] \<Longrightarrow>
      \<exists>i m. inv (create w (entryToAPI e)) \<and> mset (view (create w (entryToAPI e))) = mset ((stored e)\<lparr>e_ID := i\<rparr> # view w) \<and>
        i \<notin> e_ID ` set (view w) \<and> (e_ID e \<noteq> '''' \<longrightarrow> i = e_ID e) \<and>
        created w (entryToAPI e) = \<lparr>r_Status = Some \<lparr>api_Code = 0, api_Message = m\<rparr>, r_Entry = Some ((entryToAPI e)\<lparr>api_Id := i\<rparr>)\<rparr>"
    and update_known: "inv w \<Longrightarrow> valid_entry L e \<Longrightarrow> e_ID e \<in> e_ID ` set (view w) \<Longrightarrow>
      inv (update w (entryToAPI e)) \<and>
        mset (view (update w (entryToAPI e))) = mset (map (\<lambda>c. if e_ID c = e_ID e then stored e else c) (view w)) \<and>
        (\<exists>m. r_Status (updated w (entryToAPI e)) = Some \<lparr>api_Code = 0, api_Message = m\<rparr>)"
    and delete_known: "inv w \<Longrightarrow> i \<in> e_ID ` set (view w) \<Longrightarrow>
      inv (delete w i) \<and> mset (view (delete w i)) = mset (filter (\<lambda>c. e_ID c \<noteq> i) (view w)) \<and>
        (\<exists>m. deleted w i = Some \<lparr>api_Code = 0, api_Message = m\<rparr>)"
begin

lemma create_all:
  assumes "inv w" "list_all (valid_entry L) es" "creatable (view w) es"
  shows "inv (foldl create w (entriesToAPI es)) \<and>
    all_ok (length es) (map (\<lambda>r. statusFromAPI (r_Status r)) (step_results create created w (entriesToAPI es))) \<and>
    (\<exists>new. list_all2 created_as es new \<and> e_ID ` set new \<inter> e_ID ` set (view w) = {} \<and>
       mset (view (foldl create w (entriesToAPI es))) = mset (view w @ new))"
  using assms
proof (induction es arbitrary: w)
  case (Cons e es)
  let ?w = "create w (entryToAPI e)"
  have e: "creatable (view w) [e]" and v: "valid_entry L e" using Cons.prems(2,3) by (auto simp: creatable_def)
  obtain i m where c: "inv ?w" "mset (view ?w) = mset ((stored e)\<lparr>e_ID := i\<rparr> # view w)" "i \<notin> e_ID ` set (view w)"
    "e_ID e \<noteq> '''' \<longrightarrow> i = e_ID e" "created w (entryToAPI e) = \<lparr>r_Status = Some \<lparr>api_Code = 0, api_Message = m\<rparr>,
      r_Entry = Some ((entryToAPI e)\<lparr>api_Id := i\<rparr>)\<rparr>"
    using create_new [OF Cons.prems(1) v e] by blast
  obtain new where IH: "inv (foldl create ?w (entriesToAPI es))"
    "all_ok (length es) (map (\<lambda>r. statusFromAPI (r_Status r)) (step_results create created ?w (entriesToAPI es)))"
    "list_all2 created_as es new" "e_ID ` set new \<inter> e_ID ` set (view ?w) = {}"
    "mset (view (foldl create ?w (entriesToAPI es))) = mset (view ?w @ new)"
    using Cons.IH [OF c(1) _ creatable_Cons(2) [OF Cons.prems(3) c(4,2)]] Cons.prems(2) by auto
  have "set (view ?w) = insert ((stored e)\<lparr>e_ID := i\<rparr>) (set (view w))" using mset_eq_setD [OF c(2)] by simp
  then have "e_ID ` set ((stored e)\<lparr>e_ID := i\<rparr> # new) \<inter> e_ID ` set (view w) = {}" using c(3) IH(4) by auto
  moreover have "created_as e ((stored e)\<lparr>e_ID := i\<rparr>)" using c(4) by (simp add: created_as_def)
  ultimately show ?case
    using c(2,5) IH(1-3,5) by (intro conjI exI [of _ "(stored e)\<lparr>e_ID := i\<rparr> # new"]) (simp_all add: entriesToAPI_def)
qed (simp add: entriesToAPI_def)

lemma delete_all:
  assumes "inv w" "distinct is" "set is \<subseteq> e_ID ` set (view w)"
  shows "inv (foldl delete w is) \<and> all_ok (length is) (map statusFromAPI (step_results delete deleted w is)) \<and>
    mset (view (foldl delete w is)) = mset (apply_deletes is (view w))"
  using assms
proof (induction "is" arbitrary: w)
  case (Cons i "is")
  let ?w = "delete w i"
  obtain m where c: "inv ?w" "mset (view ?w) = mset (filter (\<lambda>c. e_ID c \<noteq> i) (view w))"
    "deleted w i = Some \<lparr>api_Code = 0, api_Message = m\<rparr>"
    using delete_known [OF Cons.prems(1), of i] Cons.prems(3) by auto
  have "set (view ?w) = {c \<in> set (view w). e_ID c \<noteq> i}" using mset_eq_setD [OF c(2)] by simp
  then have "set is \<subseteq> e_ID ` set (view ?w)" using Cons.prems(2,3) by force
  with Cons.IH [OF c(1)] Cons.prems(2) have IH: "inv (foldl delete ?w is)"
    "all_ok (length is) (map statusFromAPI (step_results delete deleted ?w is))"
    "mset (view (foldl delete ?w is)) = mset (apply_deletes is (view ?w))" by simp_all
  have "mset (apply_deletes is (view ?w)) = mset (filter (\<lambda>c. e_ID c \<notin> set is) (filter (\<lambda>c. e_ID c \<noteq> i) (view w)))"
    unfolding apply_deletes_def by (metis c(2) mset_filter)
  also have "\<dots> = mset (apply_deletes (i # is) (view w))" by (simp add: apply_deletes_def conj_commute)
  finally show ?case using IH c(3) by simp
qed (simp add: apply_deletes_def)

text \<open>Updates of distinct entries one after the other are the updates together.\<close>

lemma update_all:
  assumes "inv w" "list_all (valid_entry L) es" "distinct (map e_ID es)" "e_ID ` set es \<subseteq> e_ID ` set (view w)"
  shows "inv (foldl update w (entriesToAPI es)) \<and>
    all_ok (length es) (map (\<lambda>r. statusFromAPI (r_Status r)) (step_results update updated w (entriesToAPI es))) \<and>
    mset (view (foldl update w (entriesToAPI es))) = mset (map (apply_update es) (view w))"
  using assms
proof (induction es arbitrary: w)
  case (Cons e es)
  let ?w = "update w (entryToAPI e)" and ?f = "\<lambda>c. if e_ID c = e_ID e then stored e else c"
  obtain m where c: "inv ?w" "mset (view ?w) = mset (map ?f (view w))"
    "r_Status (updated w (entryToAPI e)) = Some \<lparr>api_Code = 0, api_Message = m\<rparr>"
    using update_known [OF Cons.prems(1), of e] Cons.prems(2,4) by auto
  have "map e_ID (map ?f (view w)) = map e_ID (view w)" by simp
  then have "e_ID ` set (view ?w) = e_ID ` set (view w)" unfolding mset_eq_setD [OF c(2)] set_map [symmetric] by (simp only:)
  with Cons.IH [OF c(1)] Cons.prems have IH: "inv (foldl update ?w (entriesToAPI es))"
    "all_ok (length es) (map (\<lambda>r. statusFromAPI (r_Status r)) (step_results update updated ?w (entriesToAPI es)))"
    "mset (view (foldl update ?w (entriesToAPI es))) = mset (map (apply_update es) (view ?w))" by simp_all
  have "apply_update es (stored e) = stored e" using Cons.prems(3) by (intro apply_update_other) simp
  then have "apply_update es (?f c) = apply_update (e # es) c" for c by (auto simp: apply_update_def)
  then have "map (apply_update es) (map ?f (view w)) = map (apply_update (e # es)) (view w)" by simp
  moreover have "mset (map (apply_update es) (view ?w)) = mset (map (apply_update es) (map ?f (view w)))"
    unfolding mset_map [of "apply_update es"] c(2) ..
  ultimately have "mset (view (foldl update ?w (entriesToAPI es))) = mset (map (apply_update (e # es)) (view w))"
    using IH(3) by (simp only:)
  with IH(1,2) c(3) show ?case by (simp add: entriesToAPI_def del: mset_map)
qed (simp add: entriesToAPI_def apply_update_def [abs_def])

lemma probe:
  assumes "inv w" "valid_entry L (probe_entry td pfx)" "creatable (view w) [probe_entry td pfx]"
  shows "\<exists>w'. GetUnsupportedFields A w td pfx = Some (w', Inr {}) \<and> inv w' \<and> mset (view w') = mset (view w)"
proof -
  let ?a = "unsupportedFieldsTestEntry td pfx"
  let ?w = "create w ?a"
  obtain i m where c: "inv ?w" "mset (view ?w) = mset ((stored (probe_entry td pfx))\<lparr>e_ID := i\<rparr> # view w)"
    "i \<notin> e_ID ` set (view w)" "created w ?a = \<lparr>r_Status = Some \<lparr>api_Code = 0, api_Message = m\<rparr>, r_Entry = Some (?a\<lparr>api_Id := i\<rparr>)\<rparr>"
    using create_new [OF assms] unfolding probe_entry_API by blast
  have sent: "rpc_BatchCreateEntry A w [?a] = (?w, Inr [created w ?a])"
    "rpc_BatchDeleteEntry A ?w [i] = (delete ?w i, Inr [deleted ?w i])"
    using create_calls delete_calls by (simp_all add: serves_itemwise_def)
  have "unsupportedFieldsOf (?a\<lparr>api_Id := i\<rparr>) = {}" by (simp add: unsupportedFieldsOf_def unsupportedFieldsTestEntry_def Let_def)
  then have "GetUnsupportedFields A w td pfx = Some (delete ?w i, Inr {})"
    by (simp add: GetUnsupportedFields_def sent c(4) codes_defs)
  moreover have "i \<in> e_ID ` set (view ?w)" unfolding mset_eq_setD [OF c(2)] by simp
  note del = delete_known [OF c(1) this]
  have "filter (\<lambda>v. e_ID v \<noteq> i) (view w) = view w" using c(3) by (auto simp: filter_id_conv)
  then have "mset (filter (\<lambda>v. e_ID v \<noteq> i) (view ?w)) = mset (view w)"
    unfolding mset_filter c(2) by (simp add: c(2) flip: mset_filter)
  ultimately show ?thesis using del by auto
qed

end

sublocale entry_api \<subseteq> entry_server inv view "valid_entry L" "NewEntryClient L A"
proof
  fix w
  assume i: "inv w"
  show "distinct (map e_ID (view w))" by (rule ids [OF i])
  obtain as where "list_pages A None w '''' as w" "entriesFromAPI L as = Inr (view w)" using served [OF i] by blast
  then have "listEntries A L None w = Some (w, Inr (view w))" unfolding listEntries_iff_pages by blast
  then show "\<exists>es. ec_ListEntries (NewEntryClient L A) w [] = Some (w, Inr es) \<and> mset es = mset (view w)"
    by (simp add: NewEntryClient_def ListEntries_def)
  show "\<exists>w' sts new. ec_CreateEntries (NewEntryClient L A) w es = (w', sts, None) \<and> all_ok (length es) sts \<and> inv w' \<and>
      list_all2 created_as es new \<and> e_ID ` set new \<inter> e_ID ` set (view w) = {} \<and> mset (view w') = mset (view w @ new)"
    if "list_all (valid_entry L) es" "creatable (view w) es" for es
    using create_all [OF i that] by (simp add: NewEntryClient_def CreateEntries_itemwise [OF create_calls]) 
  show "\<exists>w' sts. ec_UpdateEntries (NewEntryClient L A) w es = (w', sts, None) \<and> all_ok (length es) sts \<and> inv w' \<and>
      mset (view w') = mset (map (apply_update es) (view w))"
    if "list_all (valid_entry L) es" "distinct (map e_ID es)" "e_ID ` set es \<subseteq> e_ID ` set (view w)" for es
    using update_all [OF i that] by (simp add: NewEntryClient_def UpdateEntries_itemwise [OF update_calls])
  show "\<exists>w' sts. ec_DeleteEntries (NewEntryClient L A) w ids = (w', sts, None) \<and> all_ok (length ids) sts \<and> inv w' \<and>
      mset (view w') = mset (apply_deletes ids (view w))"
    if "distinct ids" "set ids \<subseteq> e_ID ` set (view w)" for ids
    using delete_all [OF i that] by (simp add: NewEntryClient_def DeleteEntries_itemwise [OF delete_calls])
  show "\<exists>w'. ec_GetUnsupportedFields (NewEntryClient L A) w td pfx = Some (w', Inr {}) \<and> inv w' \<and> mset (view w') = mset (view w)"
    if "valid_entry L (probe_entry td pfx)" "creatable (view w) [probe_entry td pfx]" for td pfx
    using probe [OF i that] by (simp add: NewEntryClient_def)
qed (simp add: valid_entry_def)

context entry_api
begin

lemma server: "entry_server inv view (valid_entry L) (NewEntryClient L A)"
  by (rule entry_server_axioms)

end

subsection \<open>A reference API\<close>

text \<open>The server of the reference world behind the RPCs: it serves its entries in pages, refuses what cannot be
  created, and chooses an ID longer than all others for an entry that comes without one.\<close>

definition rpc_new_ID :: "Entry list \<Rightarrow> Entry \<Rightarrow> string" where
  "rpc_new_ID V e = (if e_ID e \<noteq> '''' then e_ID e
     else replicate (Suc (sum_list (map (\<lambda>v. length (e_ID v)) V))) CHR ''x'')"

definition rpc_status :: "int \<Rightarrow> api_Status option" where
  "rpc_status c = Some \<lparr>api_Code = c, api_Message = ''''\<rparr>"

definition rpc_create :: "mem_world \<Rightarrow> api_Entry \<Rightarrow> mem_world" where
  "rpc_create w a =
     (case entryFromAPI ref_spiffeid (Some a) of
        Inl _ \<Rightarrow> w
      | Inr e \<Rightarrow> if creatable (m_entries w) [e]
          then w\<lparr>m_entries := m_entries w @ [e\<lparr>e_ID := rpc_new_ID (m_entries w) e\<rparr>]\<rparr> else w)"

definition rpc_created :: "mem_world \<Rightarrow> api_Entry \<Rightarrow> api_EntryResult" where
  "rpc_created w a =
     (case entryFromAPI ref_spiffeid (Some a) of
        Inl _ \<Rightarrow> \<lparr>r_Status = rpc_status 3, r_Entry = None\<rparr>
      | Inr e \<Rightarrow> if creatable (m_entries w) [e]
          then \<lparr>r_Status = rpc_status 0, r_Entry = Some (a\<lparr>api_Id := rpc_new_ID (m_entries w) e\<rparr>)\<rparr>
          else \<lparr>r_Status = rpc_status 6, r_Entry = map_option entryToAPI (find (same_identity e) (m_entries w))\<rparr>)"

definition rpc_update :: "mem_world \<Rightarrow> api_Entry \<Rightarrow> mem_world" where
  "rpc_update w a =
     (case entryFromAPI ref_spiffeid (Some a) of
        Inl _ \<Rightarrow> w
      | Inr e \<Rightarrow> w\<lparr>m_entries := map (\<lambda>c. if e_ID c = e_ID e then e else c) (m_entries w)\<rparr>)"

definition rpc_updated :: "mem_world \<Rightarrow> api_Entry \<Rightarrow> api_EntryResult" where
  "rpc_updated w a = \<lparr>r_Status = rpc_status (if mem_has (api_Id a) (m_entries w) then 0 else 5), r_Entry = Some a\<rparr>"

definition rpc_delete :: "mem_world \<Rightarrow> string \<Rightarrow> mem_world" where
  "rpc_delete w i = w\<lparr>m_entries := mem_remove i (m_entries w)\<rparr>"

definition rpc_deleted :: "mem_world \<Rightarrow> string \<Rightarrow> api_Status option" where
  "rpc_deleted w i = rpc_status (if mem_has i (m_entries w) then 0 else 5)"

definition rpc_list :: "mem_world \<Rightarrow> string option \<Rightarrow> string \<Rightarrow> int \<Rightarrow> mem_world \<times> (api_Entry option list \<times> string) result" where
  "rpc_list w flt tok n =
     (let as = map (\<lambda>e. Some (entryToAPI e)) (filter (\<lambda>e. flt = None \<or> flt = Some (e_Hint e)) (m_entries w)) in
      (w, Inr (if tok = '''' then (take (nat n) as, if length as \<le> nat n then '''' else ''rest'')
               else (drop (nat n) as, ''''))))"

definition mem_rpc :: "mem_world EntryAPI" where
  "mem_rpc =
     \<lparr>rpc_ListEntries = rpc_list,
      rpc_BatchCreateEntry = (\<lambda>w as. (foldl rpc_create w as, Inr (step_results rpc_create rpc_created w as))),
      rpc_BatchUpdateEntry = (\<lambda>w as. (foldl rpc_update w as, Inr (step_results rpc_update rpc_updated w as))),
      rpc_BatchDeleteEntry = (\<lambda>w is. (foldl rpc_delete w is, Inr (step_results rpc_delete rpc_deleted w is)))\<rparr>"

text \<open>The worlds that differ from \<open>w0\<close> in their entries only.\<close>

definition mem_inv :: "mem_world \<Rightarrow> mem_world \<Rightarrow> bool" where
  "mem_inv w0 w \<longleftrightarrow> w\<lparr>m_entries := []\<rparr> = w0\<lparr>m_entries := []\<rparr> \<and> distinct (map e_ID (m_entries w)) \<and>
     list_all (wire_entry ref_spiffeid) (m_entries w)"

lemma wire_stored: "valid_entry L e \<Longrightarrow> wire_entry L ((stored e)\<lparr>e_ID := i\<rparr>)"
  by (simp add: wire_entry_def valid_entry_def stored_def ttl_wire_idem)

lemma rpc_new_ID_fresh: "creatable V [e] \<Longrightarrow> rpc_new_ID V e \<notin> e_ID ` set V"
proof
  assume c: "creatable V [e]" and "rpc_new_ID V e \<in> e_ID ` set V"
  then obtain v where v: "v \<in> set V" "rpc_new_ID V e = e_ID v" by auto
  with c have "e_ID e = ''''" by (auto simp: creatable_def rpc_new_ID_def split: if_splits)
  with v(2) have "length (e_ID v) = Suc (sum_list (map (\<lambda>v. length (e_ID v)) V))" by (simp add: rpc_new_ID_def flip: v(2))
  moreover have "length (e_ID v) \<le> sum_list (map (\<lambda>v. length (e_ID v)) V)" using v(1) by (intro member_le_sum_list) auto
  ultimately show False by simp
qed

lemma decoded: "valid_entry L e \<Longrightarrow> entryFromAPI L (Some (entryToAPI e)) = Inr (stored e)"
  by (simp add: entryFromAPI_entryToAPI stored_def)

lemma rpc_served:
  assumes "mem_inv w0 w"
  shows "\<exists>as. list_pages mem_rpc None w '''' as w \<and> entriesFromAPI ref_spiffeid as = Inr (m_entries w)"
proof -
  let ?as = "map (\<lambda>e. Some (entryToAPI e)) (m_entries w)" and ?n = "nat entryListPageSize"
  have "list_pages mem_rpc None w '''' ?as w"
  proof (cases "length ?as \<le> ?n")
    case True
    then show ?thesis by (intro pages.last_page) (simp add: mem_rpc_def rpc_list_def)
  next
    case False
    then have "list_pages mem_rpc None w '''' (take ?n ?as @ drop ?n ?as) w"
      by (intro pages.next_page [of _ _ _ w _ "''rest''"] pages.last_page) (simp_all add: mem_rpc_def rpc_list_def)
    then show ?thesis by simp
  qed
  moreover have "entriesFromAPI ref_spiffeid ?as = Inr (m_entries w)"
    using entry_codec.list_from_to [of ref_spiffeid "m_entries w"] assms by (simp add: entriesFromAPI_def mem_inv_def)
  ultimately show ?thesis by blast
qed

lemma rpc_create_new:
  assumes inv: "mem_inv w0 w" and v: "valid_entry ref_spiffeid e" and c: "creatable (m_entries w) [e]"
  defines "i \<equiv> rpc_new_ID (m_entries w) (stored e)"
  shows "mem_inv w0 (rpc_create w (entryToAPI e))" "m_entries (rpc_create w (entryToAPI e)) = m_entries w @ [(stored e)\<lparr>e_ID := i\<rparr>]"
    and "i \<notin> e_ID ` set (m_entries w)" "e_ID e \<noteq> '''' \<longrightarrow> i = e_ID e"
    and "rpc_created w (entryToAPI e) = \<lparr>r_Status = Some \<lparr>api_Code = 0, api_Message = ''''\<rparr>, r_Entry = Some ((entryToAPI e)\<lparr>api_Id := i\<rparr>)\<rparr>"
proof -
  have c': "creatable (m_entries w) [stored e]" using c by (simp add: creatable_def)
  show new: "i \<notin> e_ID ` set (m_entries w)" unfolding i_def by (rule rpc_new_ID_fresh [OF c'])
  show "m_entries (rpc_create w (entryToAPI e)) = m_entries w @ [(stored e)\<lparr>e_ID := i\<rparr>]"
    using c' by (simp add: rpc_create_def decoded [OF v] i_def)
  show "mem_inv w0 (rpc_create w (entryToAPI e))"
    using inv new c' wire_stored [OF v] by (simp add: mem_inv_def rpc_create_def decoded [OF v] i_def)
  show "e_ID e \<noteq> '''' \<longrightarrow> i = e_ID e" by (simp add: i_def rpc_new_ID_def)
  show "rpc_created w (entryToAPI e) = \<lparr>r_Status = Some \<lparr>api_Code = 0, api_Message = ''''\<rparr>, r_Entry = Some ((entryToAPI e)\<lparr>api_Id := i\<rparr>)\<rparr>"
    using c' by (simp add: rpc_created_def decoded [OF v] rpc_status_def i_def)
qed

lemma rpc_update_known:
  assumes inv: "mem_inv w0 w" and v: "valid_entry ref_spiffeid e" and k: "e_ID e \<in> e_ID ` set (m_entries w)"
  shows "mem_inv w0 (rpc_update w (entryToAPI e))"
    and "m_entries (rpc_update w (entryToAPI e)) = map (\<lambda>c. if e_ID c = e_ID e then stored e else c) (m_entries w)"
    and "r_Status (rpc_updated w (entryToAPI e)) = Some \<lparr>api_Code = 0, api_Message = ''''\<rparr>"
proof -
  let ?f = "\<lambda>c. if e_ID c = e_ID e then stored e else c"
  have "map e_ID (map ?f (m_entries w)) = map e_ID (m_entries w)" by simp
  moreover have "wire_entry ref_spiffeid (stored e)" using wire_stored [OF v, of "e_ID e"] by (simp add: stored_def)
  moreover show u: "m_entries (rpc_update w (entryToAPI e)) = map ?f (m_entries w)"
    by (simp add: rpc_update_def decoded [OF v])
  moreover have "rpc_update w (entryToAPI e) = w\<lparr>m_entries := map ?f (m_entries w)\<rparr>"
    by (simp add: rpc_update_def decoded [OF v])
  ultimately show "mem_inv w0 (rpc_update w (entryToAPI e))" using inv by (auto simp: mem_inv_def list_all_iff simp del: map_map)
  show "r_Status (rpc_updated w (entryToAPI e)) = Some \<lparr>api_Code = 0, api_Message = ''''\<rparr>"
    using k by (auto simp: rpc_updated_def rpc_status_def entryToAPI_def mem_has_def list_ex_iff)
qed

interpretation mem_entry_api: entry_api ref_spiffeid mem_rpc "mem_inv w0" m_entries rpc_create rpc_update rpc_delete
  rpc_created rpc_updated rpc_deleted for w0
proof
  fix w e i
  assume inv: "mem_inv w0 w"
  then show "distinct (map e_ID (m_entries w))" by (simp add: mem_inv_def)
  show "\<exists>as. list_pages mem_rpc None w '''' as w \<and> entriesFromAPI ref_spiffeid as = Inr (m_entries w)" by (rule rpc_served [OF inv])
  show "\<exists>i m. mem_inv w0 (rpc_create w (entryToAPI e)) \<and>
      mset (m_entries (rpc_create w (entryToAPI e))) = mset ((stored e)\<lparr>e_ID := i\<rparr> # m_entries w) \<and>
      i \<notin> e_ID ` set (m_entries w) \<and> (e_ID e \<noteq> '''' \<longrightarrow> i = e_ID e) \<and>
      rpc_created w (entryToAPI e) = \<lparr>r_Status = Some \<lparr>api_Code = 0, api_Message = m\<rparr>, r_Entry = Some ((entryToAPI e)\<lparr>api_Id := i\<rparr>)\<rparr>"
    if "valid_entry ref_spiffeid e" "creatable (m_entries w) [e]"
    using rpc_create_new [OF inv that] by (intro exI conjI) simp_all
  show "mem_inv w0 (rpc_update w (entryToAPI e)) \<and>
      mset (m_entries (rpc_update w (entryToAPI e))) = mset (map (\<lambda>c. if e_ID c = e_ID e then stored e else c) (m_entries w)) \<and>
      (\<exists>m. r_Status (rpc_updated w (entryToAPI e)) = Some \<lparr>api_Code = 0, api_Message = m\<rparr>)"
    if "valid_entry ref_spiffeid e" "e_ID e \<in> e_ID ` set (m_entries w)"
    using rpc_update_known [OF inv that] by simp
  show "mem_inv w0 (rpc_delete w i) \<and> mset (m_entries (rpc_delete w i)) = mset (filter (\<lambda>c. e_ID c \<noteq> i) (m_entries w)) \<and>
      (\<exists>m. rpc_deleted w i = Some \<lparr>api_Code = 0, api_Message = m\<rparr>)" if "i \<in> e_ID ` set (m_entries w)"
    using that inv by (auto simp: mem_inv_def rpc_delete_def rpc_deleted_def rpc_status_def mem_remove_def mem_has_def list_ex_iff
        list_all_iff distinct_map_filter_ids)
qed (simp_all add: serves_itemwise_def mem_rpc_def)

end
