(* ===== verification/Reconciler_Collect.thy ===== *)
theory Reconciler_Collect
  imports Reconciler_Cache
begin

section \<open>Collecting the declared entries\<close>

text \<open>
  What the reconciler declares: that the render cache does not change what is rendered, that a
  fallback ClusterSPIFFEID declares nothing for a pod a regular one applies to, and the invariants of
  the loops that declare.
\<close>

subsection \<open>The render cache\<close>

text \<open>What golang-lru documents: a new cache is empty, a value that is found was added under its key, and
  adding a value adds nothing else. Values may disappear at any time.\<close>

definition lru_lossy :: "'c lru_lib \<Rightarrow> ('c \<Rightarrow> (string \<times> cachedEntry) set) \<Rightarrow> bool" where
  "lru_lossy R content \<longleftrightarrow>
     (\<forall>n c. lru_New R n = Inr c \<longrightarrow> content c = {}) \<and>
     (\<forall>c k. content (fst (lru_Get R c k)) \<subseteq> content c \<and>
        (\<forall>v. snd (lru_Get R c k) = Some v \<longrightarrow> (k, v) \<in> content c)) \<and>
     (\<forall>c k v. content (lru_Add R c k v) \<subseteq> insert (k, v) (content c))"

text \<open>What a rendered entry is made from: \<open>seen spec node pod endpoints\<close> holds of what the reconciler has met.\<close>

type_synonym versions = "ParsedClusterSPIFFEIDSpec \<Rightarrow> Node \<Rightarrow> Pod \<Rightarrow> Endpoints list \<Rightarrow> bool"

text \<open>Specs that differ in their label selectors at most. JSON shows nothing of a label selector, and rendering uses
  none: they select the namespaces and pods to render for.\<close>

definition same_but_selectors :: "ParsedClusterSPIFFEIDSpec \<Rightarrow> ParsedClusterSPIFFEIDSpec \<Rightarrow> bool" where
  "same_but_selectors s s' \<longleftrightarrow>
     s = s'\<lparr>ps_NamespaceSelector := ps_NamespaceSelector s, ps_PodSelector := ps_PodSelector s\<rparr>"

text \<open>What the libraries promise of the objects that were met. The JSON form of a spec shows all of it but the label
  selectors (which holds of templates that define no others: \<open>json.Marshal\<close> leaves out the associated templates),
  and SHA-256 does not collide on these forms. Kubernetes identifies a version of a pod by UID and resource version
  and one of a node by name and resource version; a resource version of Endpoints is not empty, has no comma and,
  as every write takes a new one, belongs to one version of one object. A pod is rendered with the node it names.\<close>

definition versions_identify :: "('w, 'c) entry_env \<Rightarrow> versions \<Rightarrow> bool" where
  "versions_identify E seen \<longleftrightarrow>
     (\<forall>s n p q s' n' p' q'. seen s n p q \<and> seen s' n' p' q' \<longrightarrow>
        (\<forall>data data'. ee_json_Marshal E s = Inr data \<and> ee_json_Marshal E s' = Inr data' \<longrightarrow>
           (ee_sha256hex E data = ee_sha256hex E data' \<longrightarrow> data = data') \<and> (data = data' \<longrightarrow> same_but_selectors s s')) \<and>
        (om_UID (pod_Meta p) = om_UID (pod_Meta p') \<and>
           om_ResourceVersion (pod_Meta p) = om_ResourceVersion (pod_Meta p') \<longrightarrow> p = p') \<and>
        (om_Name (node_Meta n) = om_Name (node_Meta n') \<and>
           om_ResourceVersion (node_Meta n) = om_ResourceVersion (node_Meta n') \<longrightarrow> n = n') \<and>
        (\<forall>ep\<in>set q. \<forall>ep'\<in>set q'. om_ResourceVersion (ep_Meta ep) = om_ResourceVersion (ep_Meta ep') \<longrightarrow> ep = ep') \<and>
        (\<forall>ep\<in>set q. om_ResourceVersion (ep_Meta ep) \<noteq> '''' \<and> CHR '','' \<notin> set (om_ResourceVersion (ep_Meta ep))) \<and>
        om_Name (node_Meta n) = ps_NodeName (pod_Spec p))"

lemma versions_identifyD:
  assumes "versions_identify E seen" "seen s n p q" "seen s' n' p' q'"
  shows "ee_json_Marshal E s = Inr data \<Longrightarrow> ee_json_Marshal E s' = Inr data' \<Longrightarrow>
      ee_sha256hex E data = ee_sha256hex E data' \<Longrightarrow> same_but_selectors s s'"
    and "om_UID (pod_Meta p) = om_UID (pod_Meta p') \<Longrightarrow>
      om_ResourceVersion (pod_Meta p) = om_ResourceVersion (pod_Meta p') \<Longrightarrow> p = p'"
    and "om_Name (node_Meta n) = om_Name (node_Meta n') \<Longrightarrow>
      om_ResourceVersion (node_Meta n) = om_ResourceVersion (node_Meta n') \<Longrightarrow> n = n'"
    and "ep \<in> set q \<Longrightarrow> ep' \<in> set q' \<Longrightarrow> om_ResourceVersion (ep_Meta ep) = om_ResourceVersion (ep_Meta ep') \<Longrightarrow> ep = ep'"
    and "ep \<in> set q \<Longrightarrow> om_ResourceVersion (ep_Meta ep) \<noteq> '''' \<and> CHR '','' \<notin> set (om_ResourceVersion (ep_Meta ep))"
    and "om_Name (node_Meta n) = ps_NodeName (pod_Spec p)"
  using assms(1) [unfolded versions_identify_def, rule_format, OF conjI [OF assms(2,3)]] by blast+

text \<open>Rendering reads no label selector.\<close>

lemma render_selectors:
  assumes "same_but_selectors s s'"
  shows "render E cfg s n p q = render E cfg s' n p q"
proof -
  define a b where "a = ps_NamespaceSelector s" and "b = ps_PodSelector s"
  have s: "s = s'\<lparr>ps_NamespaceSelector := a, ps_PodSelector := b\<rparr>"
    using assms unfolding same_but_selectors_def a_def b_def .
  show ?thesis unfolding s render_def renderPodEntry_def by simp
qed

text \<open>The compact string of resource versions gives the list of them back: each ends at the next comma.\<close>

lemma comma_list_inj:
  fixes sep :: char
  shows "concat (map ((#) sep) xs) = concat (map ((#) sep) ys) \<Longrightarrow> \<forall>x\<in>set xs. sep \<notin> set x \<Longrightarrow>
    \<forall>y\<in>set ys. sep \<notin> set y \<Longrightarrow> xs = ys"
proof (induction xs arbitrary: ys)
  case (Cons x xs)
  then obtain y ys' where ys: "ys = y # ys'" by (cases ys) auto
  have first: "takeWhile (\<lambda>c. c \<noteq> sep) (z @ concat (map ((#) sep) zs)) = z" if "sep \<notin> set z" for z zs
    using that by (induction z) (cases zs, auto)
  have "x @ concat (map ((#) sep) xs) = y @ concat (map ((#) sep) ys')" using Cons.prems(1) ys by simp
  with first [of x xs] first [of y ys'] have "x = y" using Cons.prems(2,3) ys by (metis list.set_intros(1))
  with Cons ys show ?case by simp
qed (auto simp: concat_eq_Nil_conv)

lemma computeEndpointsRV_from_Suc:
  "computeEndpointsRV_from (Suc i) items = concat (map ((#) CHR '','') (map (\<lambda>ep. om_ResourceVersion (ep_Meta ep)) items))"
  by (induction items arbitrary: i) simp_all

lemma computeEndpointsRV_inj:
  assumes "computeEndpointsRV q = computeEndpointsRV q'"
    and "\<forall>ep\<in>set q \<union> set q'. om_ResourceVersion (ep_Meta ep) \<noteq> '''' \<and> CHR '','' \<notin> set (om_ResourceVersion (ep_Meta ep))"
  shows "map (\<lambda>ep. om_ResourceVersion (ep_Meta ep)) q = map (\<lambda>ep. om_ResourceVersion (ep_Meta ep)) q'"
proof -
  let ?rv = "\<lambda>ep. om_ResourceVersion (ep_Meta ep)"
  show ?thesis
  proof (cases q)
    case Nil
    then show ?thesis using assms by (cases q') (auto simp: computeEndpointsRV_def)
  next
    case (Cons ep eps)
    show ?thesis
    proof (cases q')
      case Nil
      then show ?thesis using assms Cons by (auto simp: computeEndpointsRV_def)
    next
      case C: (Cons ep' eps')
      have "?rv ep @ concat (map ((#) CHR '','') (map ?rv eps)) = ?rv ep' @ concat (map ((#) CHR '','') (map ?rv eps'))"
        using assms(1) unfolding Cons C computeEndpointsRV_def by (simp add: computeEndpointsRV_from_Suc del: map_map)
      then have "concat (map ((#) CHR '','') (map ?rv q)) = concat (map ((#) CHR '','') (map ?rv q'))" unfolding Cons C by simp
      then show ?thesis using assms(2) by (intro comma_list_inj) auto
    qed
  qed
qed

definition render_cache_ok ::
  "('w, 'c) entry_env \<Rightarrow> 'w ReconcilerConfig \<Rightarrow> ('c \<Rightarrow> (string \<times> cachedEntry) set) \<Rightarrow> versions \<Rightarrow> 'c \<Rightarrow> bool" where
  "render_cache_ok E cfg content seen c \<longleftrightarrow>
     (\<forall>k ce. (k, ce) \<in> content c \<longrightarrow>
        (\<exists>s n p q. seen s n p q \<and> computeObjectHash E s = Inr (ce_specHash ce) \<and>
           k = podEntryCacheKey (om_UID (pod_Meta p)) \<and>
           isValid ce (om_ResourceVersion (pod_Meta p)) (om_ResourceVersion (node_Meta n)) (ce_specHash ce)
             (computeEndpointsRV q) \<and>
           render E cfg s n p q = Inr (ce_entry ce)))"

lemma same_endpoints:
  assumes "versions_identify E seen" "seen s n p q" "seen s' n' p' q'" "computeEndpointsRV q = computeEndpointsRV q'"
  shows "q = q'"
proof -
  let ?rv = "\<lambda>ep. om_ResourceVersion (ep_Meta ep)"
  have rvs: "map ?rv q = map ?rv q'"
    using versions_identifyD(5) [OF assms(1,2,3)] versions_identifyD(5) [OF assms(1,3,2)]
    by (intro computeEndpointsRV_inj [OF assms(4)]) blast
  show ?thesis
  proof (rule nth_equalityI)
    show len: "length q = length q'" using arg_cong [OF rvs, of length] by simp
    show "q ! i = q' ! i" if "i < length q" for i
      using that len arg_cong [OF rvs, of "\<lambda>xs. xs ! i"] versions_identifyD(4) [OF assms(1,2,3), of "q ! i" "q' ! i"]
      by (simp del: map_eq_conv)
  qed
qed

lemma render_cache_hit:
  assumes "versions_identify E seen" "render_cache_ok E cfg content seen c"
    and "(podEntryCacheKey (om_UID (pod_Meta pod)), ce) \<in> content c"
    and "isValid ce (om_ResourceVersion (pod_Meta pod)) (om_ResourceVersion (node_Meta node)) h (computeEndpointsRV eps)"
    and "seen spec node pod eps" "computeObjectHash E spec = Inr h"
  shows "render E cfg spec node pod eps = Inr (ce_entry ce)"
proof -
  obtain s n p q where o: "seen s n p q" "computeObjectHash E s = Inr (ce_specHash ce)"
    "podEntryCacheKey (om_UID (pod_Meta pod)) = podEntryCacheKey (om_UID (pod_Meta p))"
    "isValid ce (om_ResourceVersion (pod_Meta p)) (om_ResourceVersion (node_Meta n)) (ce_specHash ce) (computeEndpointsRV q)"
    "render E cfg s n p q = Inr (ce_entry ce)"
    using assms(2,3) unfolding render_cache_ok_def by blast
  then have eqs: "om_UID (pod_Meta pod) = om_UID (pod_Meta p)" "h = ce_specHash ce"
    "om_ResourceVersion (pod_Meta pod) = om_ResourceVersion (pod_Meta p)"
    "om_ResourceVersion (node_Meta node) = om_ResourceVersion (node_Meta n)"
    "computeEndpointsRV eps = computeEndpointsRV q"
    using assms(4) by (simp_all add: isValid_def podEntryCacheKey_def)
  note v = versions_identifyD [OF assms(1,5) o(1)]
  have pod: "pod = p" using v(2) eqs by blast
  have "node = n" using v(3,6) versions_identifyD(6) [OF assms(1) o(1) o(1)] eqs pod by metis
  moreover have "eps = q" by (rule same_endpoints [OF assms(1,5) o(1) eqs(5)])
  moreover have "same_but_selectors spec s"
    using v(1) assms(6) o(2) eqs(2) by (cases "ee_json_Marshal E spec"; cases "ee_json_Marshal E s") (auto simp: computeObjectHash_def)
  ultimately show ?thesis using o(5) pod render_selectors [of spec s E cfg n p q] by simp
qed

lemma render_cache_ok_mono: "render_cache_ok E cfg content seen c \<Longrightarrow> content c' \<subseteq> content c \<Longrightarrow>
    render_cache_ok E cfg content seen c'"
  unfolding render_cache_ok_def by blast

lemma render_cache_ok_add:
  assumes "render_cache_ok E cfg content seen c" "lru_lossy (ee_lru E) content"
    and "seen spec node pod eps" "computeObjectHash E spec = Inr h" "render E cfg spec node pod eps = Inr e"
  shows "render_cache_ok E cfg content seen (lru_Add (ee_lru E) c (podEntryCacheKey (om_UID (pod_Meta pod)))
    \<lparr>ce_entry = e, ce_podRV = om_ResourceVersion (pod_Meta pod), ce_nodeRV = om_ResourceVersion (node_Meta node),
     ce_specHash = h, ce_endpointsRV = computeEndpointsRV eps\<rparr>)"
proof -
  let ?k = "podEntryCacheKey (om_UID (pod_Meta pod))"
  let ?v = "\<lparr>ce_entry = e, ce_podRV = om_ResourceVersion (pod_Meta pod), ce_nodeRV = om_ResourceVersion (node_Meta node),
     ce_specHash = h, ce_endpointsRV = computeEndpointsRV eps\<rparr>"
  have sub: "content (lru_Add (ee_lru E) c ?k ?v) \<subseteq> insert (?k, ?v) (content c)"
    using assms(2) unfolding lru_lossy_def by blast
  have new: "\<exists>s n p q. seen s n p q \<and> computeObjectHash E s = Inr (ce_specHash ?v) \<and> ?k = podEntryCacheKey (om_UID (pod_Meta p)) \<and>
      isValid ?v (om_ResourceVersion (pod_Meta p)) (om_ResourceVersion (node_Meta n)) (ce_specHash ?v) (computeEndpointsRV q) \<and>
      render E cfg s n p q = Inr (ce_entry ?v)"
    using assms(3-5) by (intro exI [of _ spec] exI [of _ node] exI [of _ pod] exI [of _ eps]) (simp add: isValid_def)
  show ?thesis
    unfolding render_cache_ok_def
  proof (intro allI impI)
    fix k ce
    assume "(k, ce) \<in> content (lru_Add (ee_lru E) c ?k ?v)"
    then consider "(k, ce) = (?k, ?v)" | "(k, ce) \<in> content c" using sub by blast
    then show "\<exists>s n p q. seen s n p q \<and> computeObjectHash E s = Inr (ce_specHash ce) \<and> k = podEntryCacheKey (om_UID (pod_Meta p)) \<and>
        isValid ce (om_ResourceVersion (pod_Meta p)) (om_ResourceVersion (node_Meta n)) (ce_specHash ce) (computeEndpointsRV q) \<and>
        render E cfg s n p q = Inr (ce_entry ce)"
      using new assms(1) unfolding render_cache_ok_def by cases auto
  qed
qed

lemma render_cached:
  assumes "lru_lossy (ee_lru E) content" "versions_identify E seen" "render_cache_ok E cfg content seen c"
    and "computeObjectHash E spec = Inr specHash"
    and "\<And>node eps. map_of nodeMap (ps_NodeName (pod_Spec pod)) = Some node \<Longrightarrow> podEndpoints K w spec pod = Inr eps \<Longrightarrow>
      seen spec node pod eps"
  obtains c' where "er_renderPodEntry E cfg K w (Some c) spec pod specHash nodeMap =
      (Some c', snd (er_renderPodEntry E cfg K w None spec pod specHash nodeMap))"
    "render_cache_ok E cfg content seen c'"
proof -
  consider (no_node) "map_of nodeMap (ps_NodeName (pod_Spec pod)) = None"
    | (no_eps) node e where "map_of nodeMap (ps_NodeName (pod_Spec pod)) = Some node" "podEndpoints K w spec pod = Inl e"
    | (both) node eps where "map_of nodeMap (ps_NodeName (pod_Spec pod)) = Some node" "podEndpoints K w spec pod = Inr eps"
    by (cases "map_of nodeMap (ps_NodeName (pod_Spec pod))"; cases "podEndpoints K w spec pod") auto
  then show thesis
  proof cases
    case no_node
    with assms(3) show thesis by (intro that [of c]) (simp_all add: er_renderPodEntry_def)
  next
    case no_eps
    with assms(3) show thesis by (intro that [of c]) (simp_all add: er_renderPodEntry_def)
  next
    case both
    let ?key = "podEntryCacheKey (om_UID (pod_Meta pod))"
    obtain c1 cached where g: "lru_Get (ee_lru E) c ?key = (c1, cached)" by (metis surj_pair)
    have sub: "content c1 \<subseteq> content c" and mem: "\<And>v. cached = Some v \<Longrightarrow> (?key, v) \<in> content c"
      using assms(1) g unfolding lru_lossy_def by (metis fst_conv, metis snd_conv)
    have ok1: "render_cache_ok E cfg content seen c1" by (rule render_cache_ok_mono [OF assms(3) sub])
    note sn = assms(5) [OF both]
    show thesis
    proof (cases "\<exists>ce. cached = Some ce \<and> isValid ce (om_ResourceVersion (pod_Meta pod))
        (om_ResourceVersion (node_Meta node)) specHash (computeEndpointsRV eps)")
      case True
      then obtain ce where ce: "cached = Some ce" "isValid ce (om_ResourceVersion (pod_Meta pod))
        (om_ResourceVersion (node_Meta node)) specHash (computeEndpointsRV eps)" by blast
      have "render E cfg spec node pod eps = Inr (ce_entry ce)"
        by (rule render_cache_hit [OF assms(2,3) mem [OF ce(1)] ce(2) sn assms(4)])
      with both g ce ok1 show thesis by (intro that [of c1]) (simp_all add: er_renderPodEntry_def Let_def)
    next
      case False
      have "(case cached of None \<Rightarrow> None | Some ce \<Rightarrow> if isValid ce (om_ResourceVersion (pod_Meta pod))
        (om_ResourceVersion (node_Meta node)) specHash (computeEndpointsRV eps) then Some ce else None) = None"
        using False by (auto split: option.splits)
      with both g ok1 render_cache_ok_add [OF ok1 assms(1) sn assms(4)] that show thesis
        by (cases "render E cfg spec node pod eps") (simp_all add: er_renderPodEntry_def Let_def)
    qed
  qed
qed

text \<open>C20: the render cache is transparent. Let the resource versions of the objects met, and the JSON forms and
  hashes of the specs, identify what they stand for, each object by itself, and let the cache hold rendered
  entries. Then rendering a pod through the cache, hit or miss, gives the result, entry or error, that rendering
  without it gives, whichever of the spec, the pod, its node and its Endpoints has changed since; and the cache
  holds rendered entries again.\<close>

theorem render_cache_transparent:
  assumes "lru_lossy (ee_lru E) content" "versions_identify E seen" "render_cache_ok E cfg content seen c"
    and "computeObjectHash E spec = Inr specHash"
    and "\<And>node eps. map_of nodeMap (ps_NodeName (pod_Spec pod)) = Some node \<Longrightarrow> podEndpoints K w spec pod = Inr eps \<Longrightarrow>
      seen spec node pod eps"
  shows "snd (er_renderPodEntry E cfg K w (Some c) spec pod specHash nodeMap) =
      snd (er_renderPodEntry E cfg K w None spec pod specHash nodeMap) \<and>
    (\<exists>c'. fst (er_renderPodEntry E cfg K w (Some c) spec pod specHash nodeMap) = Some c' \<and>
      render_cache_ok E cfg content seen c')"
  by (rule render_cached [where c = c, OF assms]) auto

definition mem_content :: "(string \<times> cachedEntry) list \<Rightarrow> (string \<times> cachedEntry) set" where
  "mem_content c = {kv. map_of c (fst kv) = Some (snd kv)}"

lemma mem_lru_lossy: "lru_lossy mem_lru mem_content"
  by (auto simp: lru_lossy_def mem_lru_def mem_content_def map_of_map_put split: if_splits)

text \<open>A pod behind a service: it is rendered with the DNS names of the service, and then again out of the cache. The
  name changes when another version of the Endpoints is listed.\<close>

definition service_spec :: ParsedClusterSPIFFEIDSpec where
  "service_spec = sample_spec\<lparr>ps_AutoPopulateDNSNames := True\<rparr>"

definition service_endpoints :: "bool \<Rightarrow> Endpoints" where
  "service_endpoints renamed = (hd sample_endpoints)\<lparr>ep_Meta := (ep_Meta (hd sample_endpoints))
     \<lparr>om_Name := (if renamed then ''new'' else ''svc''), om_ResourceVersion := (if renamed then ''12'' else ''1'')\<rparr>\<rparr>"

definition service_k8s :: "bool \<Rightarrow> mem_world K8sClient" where
  "service_k8s renamed = mem_k8s\<lparr>k8s_ListEndpoints := (\<lambda>w opts. Inr [service_endpoints renamed])\<rparr>"

definition service_seen :: versions where
  "service_seen s n p q \<longleftrightarrow> s = service_spec \<and> n = sample_node \<and> p = sample_pod \<and> (\<exists>b. q = [service_endpoints b])"

definition service_render :: "bool \<Rightarrow> (string \<times> cachedEntry) list option \<Rightarrow> (string \<times> cachedEntry) list option \<times> Entry result" where
  "service_render renamed oc = er_renderPodEntry mem_env mem_cfg (service_k8s renamed) sample_world oc service_spec sample_pod
     (ps_Hint service_spec) [(''n'', sample_node)]"

definition service_cache :: "(string \<times> cachedEntry) list" where
  "service_cache = the (fst (service_render False (Some [])))"

lemma service_versions: "versions_identify mem_env service_seen"
  by (auto simp: versions_identify_def service_seen_def same_but_selectors_def service_endpoints_def sample_node_def sample_pod_def)

lemma service_sees:
  assumes "map_of [(''n'', sample_node)] (ps_NodeName (pod_Spec sample_pod)) = Some node"
    "podEndpoints (service_k8s b) sample_world service_spec sample_pod = Inr eps"
  shows "service_seen service_spec node sample_pod eps"
  using assms by (auto simp: service_seen_def sample_pod_def podEndpoints_def service_k8s_def service_spec_def split: if_splits)

theorem render_cache_transparent_witness:
  "service_cache \<noteq> [] \<and>
   service_render False (Some service_cache) = (Some service_cache, snd (service_render False None)) \<and>
   snd (service_render True (Some service_cache)) = snd (service_render True None) \<and>
   snd (service_render True None) \<noteq> snd (service_render False None)"
proof -
  have lru: "lru_lossy (ee_lru mem_env) mem_content" using mem_lru_lossy by (simp add: mem_env_def)
  have hash: "computeObjectHash mem_env service_spec = Inr (ps_Hint service_spec)" by (simp add: computeObjectHash_def mem_env_def)
  have empty: "render_cache_ok mem_env mem_cfg mem_content service_seen []"
    by (simp add: render_cache_ok_def mem_content_def)
  have transparent: "snd (service_render b (Some c)) = snd (service_render b None) \<and>
      (\<exists>c'. fst (service_render b (Some c)) = Some c' \<and> render_cache_ok mem_env mem_cfg mem_content service_seen c')"
    if "render_cache_ok mem_env mem_cfg mem_content service_seen c" for b c
    unfolding service_render_def by (rule render_cache_transparent [OF lru service_versions that hash service_sees])
  have "render_cache_ok mem_env mem_cfg mem_content service_seen service_cache"
    using transparent [OF empty, of False] by (auto simp: service_cache_def)
  then have same: "snd (service_render b (Some service_cache)) = snd (service_render b None)" for b using transparent by blast
  have "service_cache \<noteq> []" "fst (service_render False (Some service_cache)) = Some service_cache"
    "snd (service_render True None) \<noteq> snd (service_render False None)" by code_simp+
  with same show ?thesis by (simp add: prod_eq_iff)
qed

subsection \<open>Rendered entries know their pod\<close>

definition uid_selector :: "string \<Rightarrow> Selector" where
  "uid_selector uid = \<lparr>s_Type = ''k8s'', s_Value = ''pod-uid:'' @ uid\<rparr>"

lemma uid_selector_inj [simp]: "uid_selector u = uid_selector v \<longleftrightarrow> u = v"
  by (simp add: uid_selector_def)

text \<open>What is declared for a pod with a given UID.\<close>

definition for_pod :: "string \<Rightarrow> Entry \<Rightarrow> bool" where
  "for_pod uid e \<longleftrightarrow> e_ID e = '''' \<and> e_Selectors e \<noteq> [] \<and> hd (e_Selectors e) = uid_selector uid"

definition uids_ok :: "('c \<Rightarrow> (string \<times> cachedEntry) set) \<Rightarrow> 'c option \<Rightarrow> bool" where
  "uids_ok content oc \<longleftrightarrow> (case oc of None \<Rightarrow> True | Some c \<Rightarrow> \<forall>(k, ce)\<in>content c. for_pod k (ce_entry ce))"

lemma render_for_pod: "render E cfg spec node pod eps = Inr e \<Longrightarrow> for_pod (om_UID (pod_Meta pod)) e"
  unfolding render_def by (auto simp: for_pod_def uid_selector_def pod_selector_def elim!: renderPodEntry_cases)

lemma lru_for_pod:
  assumes "lru_lossy L content" "uids_ok content (Some c)" "lru_Get L c (podEntryCacheKey u) = (c1, cached)"
  shows "uids_ok content (Some c1)" "cached = Some ce \<Longrightarrow> for_pod u (ce_entry ce)"
    and "for_pod u (ce_entry v) \<Longrightarrow> uids_ok content (Some (lru_Add L c1 (podEntryCacheKey u) v))"
proof -
  have "content c1 \<subseteq> content c" and mem: "\<And>v. cached = Some v \<Longrightarrow> (podEntryCacheKey u, v) \<in> content c"
    using assms(1,3) unfolding lru_lossy_def by (metis fst_conv, metis snd_conv)
  then show ok1: "uids_ok content (Some c1)" using assms(2) by (auto simp: uids_ok_def)
  show "for_pod u (ce_entry ce)" if "cached = Some ce"
    using mem [OF that] assms(2) by (fastforce simp: uids_ok_def podEntryCacheKey_def)
  have "content (lru_Add L c1 (podEntryCacheKey u) v) \<subseteq> insert (podEntryCacheKey u, v) (content c1)"
    using assms(1) unfolding lru_lossy_def by blast
  then show "uids_ok content (Some (lru_Add L c1 (podEntryCacheKey u) v))" if "for_pod u (ce_entry v)"
    using ok1 that by (auto simp: uids_ok_def podEntryCacheKey_def)
qed

lemma er_renderPodEntry_for_pod:
  assumes "lru_lossy (ee_lru E) content" "uids_ok content oc"
    and "er_renderPodEntry E cfg K w oc spec pod specHash nodeMap = (oc', res)"
  shows "uids_ok content oc' \<and> (\<forall>e. res = Inr e \<longrightarrow> for_pod (om_UID (pod_Meta pod)) e)"
proof (cases "\<exists>node eps c. map_of nodeMap (ps_NodeName (pod_Spec pod)) = Some node \<and> podEndpoints K w spec pod = Inr eps \<and> oc = Some c")
  case False
  then show ?thesis
    using assms(2,3) render_for_pod
    by (auto simp: er_renderPodEntry_def split: option.splits sum.splits)
next
  case True
  then obtain node eps c where h: "map_of nodeMap (ps_NodeName (pod_Spec pod)) = Some node"
    "podEndpoints K w spec pod = Inr eps" "oc = Some c" by blast
  let ?key = "podEntryCacheKey (om_UID (pod_Meta pod))"
  obtain c1 cached where g: "lru_Get (ee_lru E) c ?key = (c1, cached)" by (metis surj_pair)
  note kept = lru_for_pod [OF assms(1) assms(2) [unfolded h(3)] g]
  show ?thesis
  proof (cases "\<exists>ce. cached = Some ce \<and> isValid ce (om_ResourceVersion (pod_Meta pod))
      (om_ResourceVersion (node_Meta node)) specHash (computeEndpointsRV eps)")
    case True
    then show ?thesis using assms(3) h g kept(1,2) by (auto simp: er_renderPodEntry_def Let_def)
  next
    case False
    then have miss: "(case cached of None \<Rightarrow> None | Some ce \<Rightarrow> if isValid ce (om_ResourceVersion (pod_Meta pod))
      (om_ResourceVersion (node_Meta node)) specHash (computeEndpointsRV eps) then Some ce else None) = None"
      by (auto split: option.splits)
    show ?thesis
    proof (cases "render E cfg spec node pod eps")
      case (Inr e)
      let ?v = "\<lparr>ce_entry = e, ce_podRV = om_ResourceVersion (pod_Meta pod), ce_nodeRV = om_ResourceVersion (node_Meta node),
        ce_specHash = specHash, ce_endpointsRV = computeEndpointsRV eps\<rparr>"
      have e: "for_pod (om_UID (pod_Meta pod)) e" by (rule render_for_pod [OF Inr])
      have "oc' = Some (lru_Add (ee_lru E) c1 ?key ?v)" "res = Inr e"
        using Inr miss assms(3) h g by (auto simp: er_renderPodEntry_def Let_def)
      with e kept(3) [of ?v] show ?thesis by simp
    qed (use miss assms(3) h g kept(1) in \<open>simp add: er_renderPodEntry_def Let_def, fastforce\<close>)
  qed
qed

subsection \<open>Regular and fallback ClusterSPIFFEIDs\<close>

text \<open>The invariant of the loops over ClusterSPIFFEIDs, their namespaces and pods: the state holds the current
  entries \<open>cs\<close> and the declared entries \<open>ds0 @ ds\<close>; every entry of \<open>ds\<close> is declared by one of the
  resources for a pod, which is marked exactly when the resource is not a fallback.\<close>

definition sid_inv ::
  "entry_libs \<Rightarrow> ('c \<Rightarrow> (string \<times> cachedEntry) set) \<Rightarrow> Entry list \<Rightarrow> declaredEntry list \<Rightarrow> ClusterSPIFFEID list
     \<Rightarrow> 'c sid_acc \<Rightarrow> declaredEntry list \<Rightarrow> bool" where
  "sid_inv H content cs ds0 sids a ds \<longleftrightarrow>
     state_matches H (sa_State a) cs (ds0 @ ds) \<and> uids_ok content (sa_renderCache a) \<and>
     map bsi_Resource (bs_SPIFFEIDs (sa_Store a)) = map bsi_Resource sids \<and>
     (\<forall>d\<in>set ds. \<exists>i u. i < length sids \<and>
        de_By d = \<lparr>by_Ref = BySPIFFEID i, by_Meta = csid_Meta (bsi_Resource (sids ! i))\<rparr> \<and>
        for_pod u (de_Entry d) \<and> (u \<in> sa_NonFallbackApplied a \<longleftrightarrow> \<not> is_fallback (sids ! i)))"

definition only_regular :: "ClusterSPIFFEID list \<Rightarrow> declaredEntry list \<Rightarrow> bool" where
  "only_regular sids ds \<longleftrightarrow> (\<forall>d\<in>set ds. \<exists>i. by_Ref (de_By d) = BySPIFFEID i \<and> \<not> is_fallback (sids ! i))"

text \<open>A step for the resource \<open>i\<close> keeps the invariant and declares entries by \<open>i\<close> only.\<close>

definition sid_step ::
  "entry_libs \<Rightarrow> ('c \<Rightarrow> (string \<times> cachedEntry) set) \<Rightarrow> Entry list \<Rightarrow> declaredEntry list \<Rightarrow> ClusterSPIFFEID list
     \<Rightarrow> nat \<Rightarrow> ('c sid_acc \<Rightarrow> 'c sid_acc) \<Rightarrow> bool" where
  "sid_step H content cs ds0 sids i f \<longleftrightarrow>
     (\<forall>a ds. sid_inv H content cs ds0 sids a ds \<and> (is_fallback (sids ! i) \<or> only_regular sids ds) \<longrightarrow>
        (\<exists>ds'. sid_inv H content cs ds0 sids (f a) (ds @ ds') \<and> (\<forall>d\<in>set ds'. by_Ref (de_By d) = BySPIFFEID i)))"

lemma only_regular_append:
  "only_regular sids ds \<Longrightarrow> \<not> is_fallback (sids ! i) \<Longrightarrow> \<forall>d\<in>set ds'. by_Ref (de_By d) = BySPIFFEID i \<Longrightarrow>
     only_regular sids (ds @ ds')"
  by (auto simp: only_regular_def)

lemma sid_step_refl: "(\<And>a ds. sid_inv H content cs ds0 sids a ds \<Longrightarrow> sid_inv H content cs ds0 sids (f a) ds) \<Longrightarrow>
    sid_step H content cs ds0 sids i f"
  unfolding sid_step_def by (metis append_Nil2 empty_iff empty_set)

lemma sid_step_comp:
  assumes "sid_step H content cs ds0 sids i f" "sid_step H content cs ds0 sids i g"
  shows "sid_step H content cs ds0 sids i (\<lambda>a. g (f a))"
  unfolding sid_step_def
proof (intro allI impI)
  fix a ds
  assume a: "sid_inv H content cs ds0 sids a ds \<and> (is_fallback (sids ! i) \<or> only_regular sids ds)"
  then obtain ds1 where 1: "sid_inv H content cs ds0 sids (f a) (ds @ ds1)" "\<forall>d\<in>set ds1. by_Ref (de_By d) = BySPIFFEID i"
    using assms(1) unfolding sid_step_def by blast
  then have "is_fallback (sids ! i) \<or> only_regular sids (ds @ ds1)" using a only_regular_append by blast
  with 1(1) obtain ds2 where 2: "sid_inv H content cs ds0 sids (g (f a)) ((ds @ ds1) @ ds2)"
    "\<forall>d\<in>set ds2. by_Ref (de_By d) = BySPIFFEID i"
    using assms(2) unfolding sid_step_def by blast
  from 1(2) 2 show "\<exists>ds'. sid_inv H content cs ds0 sids (g (f a)) (ds @ ds') \<and>
      (\<forall>d\<in>set ds'. by_Ref (de_By d) = BySPIFFEID i)"
    by (intro exI [of _ "ds1 @ ds2"]) auto
qed

lemma sid_step_foldl:
  assumes "\<And>x. sid_step H content cs ds0 sids i (\<lambda>a. f a x)"
  shows "sid_step H content cs ds0 sids i (\<lambda>a. foldl f a xs)"
proof (induction xs)
  case Nil
  show ?case by (rule sid_step_refl) simp
next
  case (Cons x xs)
  show ?case using sid_step_comp [OF assms [of x] Cons.IH] by simp
qed

lemma modify_spiffeid_resources [simp]:
  "map bsi_Resource (bs_SPIFFEIDs (modify_spiffeid i f st)) = map bsi_Resource (bs_SPIFFEIDs st)"
  by (simp add: modify_spiffeid_def list_modify_def map_update list_update_same_conv)

lemma sid_inv_stat [simp]: "sid_inv H content cs ds0 sids (sid_stat i f a) ds = sid_inv H content cs ds0 sids a ds"
  by (simp add: sid_inv_def sid_stat_def)

lemma sid_inv_cache:
  "sid_inv H content cs ds0 sids a ds \<Longrightarrow> uids_ok content oc \<Longrightarrow>
     sid_inv H content cs ds0 sids (a\<lparr>sa_renderCache := oc\<rparr>) ds"
  by (simp add: sid_inv_def)

lemma sid_inv_declared:
  "sid_inv H content cs ds0 sids a ds \<Longrightarrow> d \<in> set ds \<Longrightarrow>
     \<exists>i u. i < length sids \<and> de_By d = \<lparr>by_Ref = BySPIFFEID i, by_Meta = csid_Meta (bsi_Resource (sids ! i))\<rparr> \<and>
       for_pod u (de_Entry d) \<and> (u \<in> sa_NonFallbackApplied a \<longleftrightarrow> \<not> is_fallback (sids ! i))"
  by (simp add: sid_inv_def)

text \<open>Marking the pod of a regular resource keeps the marks of the entries declared before it exact, as
  those are of regular resources too.\<close>

lemma sid_inv_applied:
  assumes "sid_inv H content cs ds0 sids a ds" "d \<in> set ds" "is_fallback (sids ! i) \<or> only_regular sids ds"
  shows "\<exists>j u. j < length sids \<and> de_By d = \<lparr>by_Ref = BySPIFFEID j, by_Meta = csid_Meta (bsi_Resource (sids ! j))\<rparr> \<and>
    for_pod u (de_Entry d) \<and>
    (u \<in> (if is_fallback (sids ! i) then sa_NonFallbackApplied a else insert uid (sa_NonFallbackApplied a)) \<longleftrightarrow>
      \<not> is_fallback (sids ! j))"
proof -
  obtain j u where j: "j < length sids" "de_By d = \<lparr>by_Ref = BySPIFFEID j, by_Meta = csid_Meta (bsi_Resource (sids ! j))\<rparr>"
    "for_pod u (de_Entry d)" "u \<in> sa_NonFallbackApplied a \<longleftrightarrow> \<not> is_fallback (sids ! j)"
    using sid_inv_declared [OF assms(1,2)] by blast
  have "\<not> is_fallback (sids ! j)" if "\<not> is_fallback (sids ! i)"
    using assms(2,3) that j(2) by (auto simp: only_regular_def)
  with j show ?thesis by (intro exI [of _ j] exI [of _ u]) auto
qed

lemma addPod_step:
  assumes "lru_lossy (ee_lru E) content" "i < length sids" "c = bsi_Resource (sids ! i)"
  shows "sid_step (env_libs E) content cs ds0 sids i (\<lambda>a. addPod E cfg K w nodeMap i c spec specHash a pod)"
  unfolding sid_step_def
proof (intro allI impI)
  fix a ds
  let ?inv = "sid_inv (env_libs E) content cs ds0 sids" and ?uid = "om_UID (pod_Meta pod)"
  let ?add = "addPod E cfg K w nodeMap i c spec specHash"
  assume a: "?inv a ds \<and> (is_fallback (sids ! i) \<or> only_regular sids ds)"
  obtain oc res where r: "er_renderPodEntry E cfg K w (sa_renderCache a) spec pod specHash nodeMap = (oc, res)"
    by (metis surj_pair)
  have oc: "uids_ok content oc" and pod: "\<And>e. res = Inr e \<Longrightarrow> for_pod ?uid e"
    using er_renderPodEntry_for_pod [OF assms(1) _ r] a by (auto simp: sid_inv_def)
  consider (skip) "?uid \<in> sa_NonFallbackApplied a \<and> is_fallback (sids ! i)"
    | (fail) e where "\<not> (?uid \<in> sa_NonFallbackApplied a \<and> is_fallback (sids ! i))" "res = Inl e"
    | (added) e where "\<not> (?uid \<in> sa_NonFallbackApplied a \<and> is_fallback (sids ! i))" "res = Inr e"
    by (cases res) auto
  then show "\<exists>ds'. ?inv (?add a pod) (ds @ ds') \<and> (\<forall>d\<in>set ds'. by_Ref (de_By d) = BySPIFFEID i)"
  proof cases
    case skip
    then show ?thesis using a assms(3) by (intro exI [of _ "[]"]) (simp add: addPod_def)
  next
    case fail
    then show ?thesis
      using a assms(3) r sid_inv_cache [OF _ oc] by (intro exI [of _ "[]"]) (simp add: addPod_def Let_def)
  next
    case added
    let ?by = "\<lparr>by_Ref = BySPIFFEID i, by_Meta = csid_Meta c\<rparr>"
    let ?st = "AddDeclared (env_libs E) (sa_State a) e ?by"
    have st: "state_matches (env_libs E) ?st cs (ds0 @ ds @ [\<lparr>de_Entry = e, de_By = ?by\<rparr>])"
      using state_matches_AddDeclared [of "env_libs E" "sa_State a" cs "ds0 @ ds" e ?by] a by (simp add: sid_inv_def)
    let ?applied = "if is_fallback (sids ! i) then sa_NonFallbackApplied a else insert ?uid (sa_NonFallbackApplied a)"
    have res: "sa_State (?add a pod) = ?st" "sa_renderCache (?add a pod) = oc" "sa_NonFallbackApplied (?add a pod) = ?applied"
      "sa_Store (?add a pod) = sa_Store a"
      using added r assms(3) by (auto simp: addPod_def Let_def)
    have stored: "map bsi_Resource (bs_SPIFFEIDs (sa_Store a)) = map bsi_Resource sids" using a by (simp add: sid_inv_def)
    note old = sid_inv_applied [OF conjunct1 [OF a] _ conjunct2 [OF a]]
    have new: "for_pod ?uid e \<and> (?uid \<in> ?applied \<longleftrightarrow> \<not> is_fallback (sids ! i))" using pod added by auto
    have "?inv (?add a pod) (ds @ [\<lparr>de_Entry = e, de_By = ?by\<rparr>])"
      unfolding sid_inv_def res using st oc old new assms(2,3) stored by auto
    then show ?thesis by (intro exI [of _ "[\<lparr>de_Entry = e, de_By = ?by\<rparr>]"]) simp
  qed
qed

lemma sid_step_stat: "sid_step H content cs ds0 sids i (sid_stat i f)"
  by (rule sid_step_refl) simp

lemma addNamespace_step:
  assumes "lru_lossy (ee_lru E) content" "i < length sids" "c = bsi_Resource (sids ! i)"
  shows "sid_step (env_libs E) content cs ds0 sids i (\<lambda>a. addNamespace E cfg K w nodeMap i c spec specHash a ns)"
proof -
  let ?step = "sid_step (env_libs E) content cs ds0 sids i"
  have none: "?step (\<lambda>a. a)" by (rule sid_step_refl)
  have pods: "?step (\<lambda>a. foldl (addPod E cfg K w nodeMap i c spec specHash) (sid_stat i f a) pods)" for f pods
    by (rule sid_step_comp [OF sid_step_stat sid_step_foldl [OF addPod_step [OF assms]]])
  show ?thesis
    by (cases "ListNamespacePods K w (om_Name (ns_Meta ns)) (ps_PodSelector spec)";
        cases "IsIgnored (rc_IgnoreNamespaces cfg) (om_Name (ns_Meta ns))")
      (simp_all add: addNamespace_def none pods sid_step_stat)
qed

lemma addClusterSPIFFEID_step:
  assumes "lru_lossy (ee_lru E) content" "i < length sids"
  shows "sid_step (env_libs E) content cs ds0 sids i (\<lambda>a. addClusterSPIFFEID E cfg K w nodeMap a (i, sids ! i))"
proof -
  let ?step = "sid_step (env_libs E) content cs ds0 sids i" and ?c = "bsi_Resource (sids ! i)"
  have none: "?step (\<lambda>a. a)" by (rule sid_step_refl)
  have some: "?step (\<lambda>a. foldl (addNamespace E cfg K w nodeMap i ?c spec specHash) (sid_stat i f a) nss)"
    for f nss spec specHash
    by (rule sid_step_comp [OF sid_step_stat sid_step_foldl [OF addNamespace_step [OF assms refl]]])
  have either: "?step (\<lambda>a. if P a then f a else g a)" if "?step f" "?step g" for P f g
    using that unfolding sid_step_def by presburger
  define body where "body = (\<lambda>spec (h :: string result) a. case h of Inl _ \<Rightarrow> a
    | Inr specHash \<Rightarrow> (case ListNamespaces K w (ps_NamespaceSelector spec) of Inl _ \<Rightarrow> a
      | Inr namespaces \<Rightarrow> foldl (addNamespace E cfg K w nodeMap i ?c spec specHash)
          (sid_stat i (\<lambda>s. s\<lparr>st_NamespacesSelected := st_NamespacesSelected s + length namespaces\<rparr>) a) namespaces))"
  have body: "?step (body spec h)" for spec h
    unfolding body_def by (cases h; cases "ListNamespaces K w (ps_NamespaceSelector spec)") (simp_all add: none some)
  show ?thesis
  proof (cases "ParseClusterSPIFFEIDSpec (ee_crd E) (csid_Spec ?c)")
    case (Inr spec)
    have "addClusterSPIFFEID E cfg K w nodeMap a (i, sids ! i) =
        (if sa_renderCache a \<noteq> None then body spec (computeObjectHash E spec) a else body spec (Inr '''') a)" for a
      unfolding addClusterSPIFFEID_def body_def Let_def Inr fst_conv snd_conv sum.case by (simp split: if_split)
    with either [OF body body] show ?thesis by presburger
  qed (simp add: addClusterSPIFFEID_def none)
qed

lemma regular_first:
  assumes "sids = sort_by (\<lambda>x y. \<not> is_fallback x \<and> is_fallback y) xs" "i < length sids" "j < i"
    and "\<not> is_fallback (sids ! i)"
  shows "\<not> is_fallback (sids ! j)"
proof -
  let ?reg = "filter (\<lambda>x. \<not> is_fallback x) xs" and ?fb = "filter is_fallback xs"
  have eq: "sids = ?reg @ ?fb" unfolding assms(1) by (rule sort_by_rank)
  have "i < length ?reg"
  proof (rule ccontr)
    assume "\<not> i < length ?reg"
    then have "sids ! i \<in> set ?fb" using assms(2) unfolding eq by (simp add: nth_append nth_mem del: set_filter)
    with assms(4) show False by simp
  qed
  then have "sids ! j \<in> set ?reg" using assms(3) unfolding eq by (simp add: nth_append nth_mem del: set_filter)
  then show ?thesis by simp
qed

lemma addClusterSPIFFEIDs_inv:
  assumes "lru_lossy (ee_lru E) content" "sids = sort_by (\<lambda>x y. \<not> is_fallback x \<and> is_fallback y) xs"
    and "sid_inv (env_libs E) content cs ds0 sids a []" "n \<le> length sids"
  shows "\<exists>ds. sid_inv (env_libs E) content cs ds0 sids
      (foldl (addClusterSPIFFEID E cfg K w nodeMap) a (take n (enumerate 0 sids))) ds \<and>
    (\<forall>d\<in>set ds. \<exists>j<n. by_Ref (de_By d) = BySPIFFEID j)"
  using assms(4)
proof (induction n)
  case 0
  show ?case using assms(3) by (intro exI [of _ "[]"]) simp
next
  case (Suc n)
  then obtain ds where ds: "sid_inv (env_libs E) content cs ds0 sids
      (foldl (addClusterSPIFFEID E cfg K w nodeMap) a (take n (enumerate 0 sids))) ds"
    "\<forall>d\<in>set ds. \<exists>j<n. by_Ref (de_By d) = BySPIFFEID j" by auto
  have "only_regular sids ds" if "\<not> is_fallback (sids ! n)"
    using ds(2) regular_first [OF assms(2) _ _ that] Suc.prems by (fastforce simp: only_regular_def)
  with ds(1) Suc.prems addClusterSPIFFEID_step [OF assms(1), of n sids cs ds0 cfg K w nodeMap]
  obtain ds' where ds': "sid_inv (env_libs E) content cs ds0 sids (addClusterSPIFFEID E cfg K w nodeMap
      (foldl (addClusterSPIFFEID E cfg K w nodeMap) a (take n (enumerate 0 sids))) (n, sids ! n)) (ds @ ds')"
    "\<forall>d\<in>set ds'. by_Ref (de_By d) = BySPIFFEID n"
    unfolding sid_step_def by (meson Suc_le_lessD)
  have "take (Suc n) (enumerate 0 sids) = take n (enumerate 0 sids) @ [(n, sids ! n)]"
    using Suc.prems by (simp add: take_Suc_conv_app_nth nth_enumerate_eq)
  with ds' ds(2) show ?case by (intro exI [of _ "ds @ ds'"]) (auto intro: less_SucI)
qed

subsection \<open>Static entries\<close>

definition static_declared :: "spiffeid_lib \<Rightarrow> ClusterStaticEntry list \<Rightarrow> declaredEntry list" where
  "static_declared L cs = concat (map (\<lambda>(i, c). case renderStaticEntry L (cse_Spec (bse_Resource c)) of Inl _ \<Rightarrow> []
     | Inr e \<Rightarrow> [\<lparr>de_Entry = e, de_By = \<lparr>by_Ref = ByStaticEntry i, by_Meta = cse_Meta (bse_Resource c)\<rparr>\<rparr>]) (enumerate 0 cs))"

abbreviation renders :: "spiffeid_lib \<Rightarrow> ClusterStaticEntry \<Rightarrow> bool" where
  "renders L c \<equiv> \<not> isl (renderStaticEntry L (cse_Spec (bse_Resource c)))"

lemma static_declared_ids: "d \<in> set (static_declared L cs) \<Longrightarrow> e_ID (de_Entry d) = '''' \<and> (\<exists>i. by_Ref (de_By d) = ByStaticEntry i)"
  by (auto simp: static_declared_def renderStaticEntry_Inr(1) split: sum.splits)

lemma static_declared_Suc: "n < length cs \<Longrightarrow> static_declared L (take (Suc n) cs) = static_declared L (take n cs) @
    (case renderStaticEntry L (cse_Spec (bse_Resource (cs ! n))) of Inl _ \<Rightarrow> []
     | Inr e \<Rightarrow> [\<lparr>de_Entry = e, de_By = \<lparr>by_Ref = ByStaticEntry n, by_Meta = cse_Meta (bse_Resource (cs ! n))\<rparr>\<rparr>])"
  by (simp add: static_declared_def take_Suc_conv_app_nth enumerate_append_eq)

text \<open>What holds after the first \<open>n\<close> static entries.\<close>

definition static_inv :: "('w, 'c) entry_env \<Rightarrow> Entry list \<Rightarrow> byStore \<Rightarrow> nat \<Rightarrow> nat \<times> entriesState \<times> byStore \<Rightarrow> bool" where
  "static_inv E cur store n acc \<longleftrightarrow>
     (let (failures, st, store') = acc; L = env_spiffeid E; cs = bs_StaticEntries store; cs' = bs_StaticEntries store' in
      failures = length (filter (\<lambda>c. \<not> renders L c) (take n cs)) \<and>
      state_matches (env_libs E) st cur (static_declared L (take n cs)) \<and>
      bs_SPIFFEIDs store' = bs_SPIFFEIDs store \<and> map bse_Resource cs' = map bse_Resource cs \<and>
      (\<forall>j<n. ses_Rendered (bse_NextStatus (cs' ! j)) = renders L (cs ! j)))"

lemma addStaticEntry_inv:
  assumes "static_inv E cur store n acc" "n < length (bs_StaticEntries store)"
  shows "static_inv E cur store (Suc n) (addStaticEntry E acc (n, bs_StaticEntries store ! n))"
proof -
  obtain failures st store' where acc: "acc = (failures, st, store')" by (cases acc)
  let ?cs = "bs_StaticEntries store" and ?cs' = "bs_StaticEntries store'"
  let ?c = "?cs ! n"
  note inv = assms(1) [unfolded static_inv_def acc Let_def prod.case]
  have len: "length ?cs' = length ?cs" using inv by (metis length_map)
  have take: "take (Suc n) ?cs = take n ?cs @ [?c]" using assms(2) by (simp add: take_Suc_conv_app_nth)
  have nth: "bse_Resource (?cs' ! n) = bse_Resource ?c" using inv assms(2) len by (metis nth_map)
  have res: "map bse_Resource (list_modify n (\<lambda>c. c\<lparr>bse_NextStatus := f (bse_NextStatus c)\<rparr>) ?cs') = map bse_Resource ?cs" for f
    using inv by (simp add: list_modify_def map_update list_update_same_conv len assms(2) nth del: map_eq_conv)
  have rend: "ses_Rendered (bse_NextStatus (list_modify n (\<lambda>c. c\<lparr>bse_NextStatus := (bse_NextStatus c)\<lparr>ses_Rendered := b\<rparr>\<rparr>) ?cs' ! j)) =
      (if j = n then b else renders (env_spiffeid E) (?cs ! j))" if "j < Suc n" for j b
    using inv that assms(2) by (cases "j = n") (simp_all add: list_modify_def len nth_list_update)
  note simps = static_inv_def acc addStaticEntry_def modify_static_def Let_def res rend
    static_declared_Suc [OF assms(2)]
  show ?thesis
  proof (cases "renderStaticEntry (env_spiffeid E) (cse_Spec (bse_Resource ?c))")
    case (Inl e)
    with inv show ?thesis by (simp add: simps) (simp add: take)
  next
    case (Inr e)
    with inv show ?thesis
      using state_matches_AddDeclared [of "env_libs E" st cur "static_declared (env_spiffeid E) (take n ?cs)" e]
      by (simp add: simps) (simp add: take)
  qed
qed

lemma addStaticEntries_inv:
  assumes "state_matches (env_libs E) st cur []"
  shows "static_inv E cur store (length (bs_StaticEntries store)) (addClusterStaticEntryEntriesState E st store)"
proof -
  let ?cs = "bs_StaticEntries store"
  have "n \<le> length ?cs \<Longrightarrow> static_inv E cur store n (foldl (addStaticEntry E) (0, st, store) (take n (enumerate 0 ?cs)))" for n
  proof (induction n)
    case 0
    show ?case using assms by (simp add: static_inv_def static_declared_def)
  next
    case (Suc n)
    then have "take (Suc n) (enumerate 0 ?cs) = take n (enumerate 0 ?cs) @ [(n, ?cs ! n)]"
      by (simp add: take_Suc_conv_app_nth nth_enumerate_eq)
    with Suc show ?case by (simp add: addStaticEntry_inv)
  qed
  from this [OF order_refl] show ?thesis by (simp add: addClusterStaticEntryEntriesState_def)
qed

section \<open>Properties\<close>

text \<open>The invariant in terms of the resources as the loops leave them, whose status alone has changed.\<close>

lemma sid_inv_final:
  assumes "sid_inv H content cs ds0 sids a ds"
  shows "\<forall>d\<in>set ds. \<exists>i u. i < length (bs_SPIFFEIDs (sa_Store a)) \<and>
    de_By d = \<lparr>by_Ref = BySPIFFEID i, by_Meta = csid_Meta (bsi_Resource (bs_SPIFFEIDs (sa_Store a) ! i))\<rparr> \<and>
    for_pod u (de_Entry d) \<and> (u \<in> sa_NonFallbackApplied a \<longleftrightarrow> \<not> is_fallback (bs_SPIFFEIDs (sa_Store a) ! i))"
proof
  fix d
  assume "d \<in> set ds"
  then obtain i u where d: "i < length sids" "de_By d = \<lparr>by_Ref = BySPIFFEID i, by_Meta = csid_Meta (bsi_Resource (sids ! i))\<rparr>"
    "for_pod u (de_Entry d)" "u \<in> sa_NonFallbackApplied a \<longleftrightarrow> \<not> is_fallback (sids ! i)"
    using sid_inv_declared [OF assms] by blast
  have res: "map bsi_Resource (bs_SPIFFEIDs (sa_Store a)) = map bsi_Resource sids" using assms by (simp add: sid_inv_def)
  then have "length (bs_SPIFFEIDs (sa_Store a)) = length sids" by (metis length_map)
  moreover from this have "bsi_Resource (bs_SPIFFEIDs (sa_Store a) ! i) = bsi_Resource (sids ! i)"
    using arg_cong [OF res, of "\<lambda>rs. rs ! i"] d(1) by (simp del: map_eq_conv)
  ultimately show "\<exists>i u. i < length (bs_SPIFFEIDs (sa_Store a)) \<and>
    de_By d = \<lparr>by_Ref = BySPIFFEID i, by_Meta = csid_Meta (bsi_Resource (bs_SPIFFEIDs (sa_Store a) ! i))\<rparr> \<and>
    for_pod u (de_Entry d) \<and> (u \<in> sa_NonFallbackApplied a \<longleftrightarrow> \<not> is_fallback (bs_SPIFFEIDs (sa_Store a) ! i))"
    using d by (intro exI [of _ i] exI [of _ u]) (simp only: simp_thms)
qed

lemma collect_inv:
  assumes "lru_lossy (ee_lru E) content" "uids_ok content (er_renderCache r)"
    and "collect E cfg r w cur store = Some (r', Inr (st, store'))"
  defines "sds0 \<equiv> if rk_ClusterStaticEntries (rc_Reconcile cfg)
      then static_declared (env_spiffeid E) (bs_StaticEntries store) else []"
  obtains sds applied where "state_matches (env_libs E) st cur (sds0 @ sds)" "uids_ok content (er_renderCache r')"
    and "\<forall>d\<in>set sds. \<exists>i u. i < length (bs_SPIFFEIDs store') \<and>
      de_By d = \<lparr>by_Ref = BySPIFFEID i, by_Meta = csid_Meta (bsi_Resource (bs_SPIFFEIDs store' ! i))\<rparr> \<and>
      for_pod u (de_Entry d) \<and> (u \<in> applied \<longleftrightarrow> \<not> is_fallback (bs_SPIFFEIDs store' ! i))"
proof -
  let ?static = "rk_ClusterStaticEntries (rc_Reconcile cfg)" and ?cur = "foldl (AddCurrent (env_libs E)) [] cur"
  obtain failures st1 store1 where 1: "(if ?static then addClusterStaticEntryEntriesState E ?cur store
      else (0, ?cur, store)) = (failures, st1, store1)" by (metis surj_pair)
  have cur: "state_matches (env_libs E) ?cur cur []" using state_matches_AddCurrents [OF state_matches_empty] by simp
  have st1: "state_matches (env_libs E) st1 cur sds0" "bs_SPIFFEIDs store1 = bs_SPIFFEIDs store"
    using 1 cur addStaticEntries_inv [OF cur, of store] by (auto simp: static_inv_def sds0_def Let_def split: if_splits)
  show ?thesis
  proof (cases "rk_ClusterSPIFFEIDs (rc_Reconcile cfg)")
    case False
    then have "st = st1" "er_renderCache r' = er_renderCache r" using assms(3) 1 by (auto simp: collect_def Let_def)
    with st1 assms(2) show ?thesis by (intro that [of "[]"]) auto
  next
    case True
    let ?sids = "sort_by (\<lambda>x y. \<not> is_fallback x \<and> is_fallback y) (bs_SPIFFEIDs store1)"
    let ?a0 = "\<lparr>sa_renderCache = er_renderCache r, sa_State = st1, sa_Store = store1\<lparr>bs_SPIFFEIDs := ?sids\<rparr>,
      sa_NonFallbackApplied = {}\<rparr>"
    obtain K nodeMap where a: "st = sa_State a" "store' = sa_Store a" "er_renderCache r' = sa_renderCache a"
      if "a = foldl (addClusterSPIFFEID E cfg K w nodeMap) ?a0 (enumerate 0 ?sids)" for a
      using assms(3) 1 True
      by (fastforce simp: collect_def addClusterSPIFFEIDEntriesState_def Let_def split: option.splits sum.splits)
    have init: "sid_inv (env_libs E) content cur sds0 ?sids ?a0 []" using st1 assms(2) by (simp add: sid_inv_def)
    have "take (length ?sids) (enumerate 0 ?sids) = enumerate 0 ?sids" by simp
    with addClusterSPIFFEIDs_inv [OF assms(1) refl init order_refl, of cfg K w nodeMap]
    obtain sds where inv: "sid_inv (env_libs E) content cur sds0 ?sids
        (foldl (addClusterSPIFFEID E cfg K w nodeMap) ?a0 (enumerate 0 ?sids)) sds"
      by metis
    define a where "a = foldl (addClusterSPIFFEID E cfg K w nodeMap) ?a0 (enumerate 0 ?sids)"
    note a = a [OF a_def]
    show ?thesis
      using inv sid_inv_final [OF inv] unfolding a_def [symmetric] a(1,2)
      by (intro that [of sds "sa_NonFallbackApplied a"]) (simp_all add: a sid_inv_def)
  qed
qed

definition declared_in :: "entriesState \<Rightarrow> declaredEntry \<Rightarrow> bool" where
  "declared_in st d \<longleftrightarrow> list_ex (\<lambda>(k, s). d \<in> set (es_Declared s)) st"

lemma declared_in_iff:
  assumes "state_matches H st cs ds"
  shows "declared_in st d \<longleftrightarrow> d \<in> set ds"
proof
  assume "declared_in st d"
  then obtain k s where ks: "(k, s) \<in> set st" "d \<in> set (es_Declared s)" by (auto simp: declared_in_def list_ex_iff)
  have "map_of st k = Some s" by (rule map_of_is_SomeI) (use assms ks in \<open>simp_all add: state_matches_def\<close>)
  with assms ks show "d \<in> set ds" by (auto simp: state_matches_def split: if_splits)
next
  assume d: "d \<in> set ds"
  let ?k = "makeEntryKey H (de_Entry d)"
  have "declared_at H ?k ds \<noteq> []" using d by (auto simp: filter_empty_conv)
  with assms have "map_of st ?k = Some \<lparr>es_Current = current_at H ?k cs, es_Declared = declared_at H ?k ds\<rparr>"
    by (auto simp: state_matches_def)
  from map_of_SomeD [OF this] d show "declared_in st d" unfolding declared_in_def list_ex_iff by force
qed

text \<open>C18: fallbacks yield. No entry declared by a fallback ClusterSPIFFEID has the pod selector of an entry that a
  regular one declares, in whatever order the resources were listed.\<close>

theorem fallback_exclusive:
  assumes "lru_lossy (ee_lru E) content" "uids_ok content (er_renderCache r)"
    and "collect E cfg r w cur store = Some (r', Inr (st, store'))"
    and "declared_in st d" "by_Ref (de_By d) = BySPIFFEID i" "is_fallback (bs_SPIFFEIDs store' ! i)"
    and "declared_in st d'" "by_Ref (de_By d') = BySPIFFEID j" "\<not> is_fallback (bs_SPIFFEIDs store' ! j)"
  shows "e_Selectors (de_Entry d) \<noteq> [] \<and> e_Selectors (de_Entry d') \<noteq> [] \<and>
    hd (e_Selectors (de_Entry d)) \<noteq> hd (e_Selectors (de_Entry d'))"
proof -
  let ?static = "if rk_ClusterStaticEntries (rc_Reconcile cfg) then static_declared (env_spiffeid E) (bs_StaticEntries store) else []"
  obtain sds applied where o: "state_matches (env_libs E) st cur (?static @ sds)"
    "\<forall>d\<in>set sds. \<exists>i u. i < length (bs_SPIFFEIDs store') \<and>
      de_By d = \<lparr>by_Ref = BySPIFFEID i, by_Meta = csid_Meta (bsi_Resource (bs_SPIFFEIDs store' ! i))\<rparr> \<and>
      for_pod u (de_Entry d) \<and> (u \<in> applied \<longleftrightarrow> \<not> is_fallback (bs_SPIFFEIDs store' ! i))"
    by (rule collect_inv [OF assms(1-3)])
  have pod: "\<exists>u. for_pod u (de_Entry x) \<and> (u \<in> applied \<longleftrightarrow> \<not> is_fallback (bs_SPIFFEIDs store' ! k))"
    if x: "declared_in st x" "by_Ref (de_By x) = BySPIFFEID k" for x k
  proof -
    have "x \<notin> set ?static" using x(2) by (auto dest!: static_declared_ids split: if_splits)
    then have "x \<in> set sds" using x(1) unfolding declared_in_iff [OF o(1)] by auto
    with o(2) obtain i u where "de_By x = \<lparr>by_Ref = BySPIFFEID i, by_Meta = csid_Meta (bsi_Resource (bs_SPIFFEIDs store' ! i))\<rparr>"
      "for_pod u (de_Entry x)" "u \<in> applied \<longleftrightarrow> \<not> is_fallback (bs_SPIFFEIDs store' ! i)" by blast
    with x(2) show ?thesis by auto
  qed
  obtain u v where "for_pod u (de_Entry d)" "u \<notin> applied" "for_pod v (de_Entry d')" "v \<in> applied"
    using pod [OF assms(4,5)] pod [OF assms(7,8)] assms(6,9) by blast
  then show ?thesis unfolding for_pod_def by (metis uid_selector_inj)
qed

definition sample_sid :: "bool \<Rightarrow> crd_ClusterSPIFFEID" where
  "sample_sid fallback = \<lparr>csid_Meta = sample_meta (if fallback then ''fb'' else ''reg''), csid_Spec =
     \<lparr>cs_SPIFFEIDTemplate = (if fallback then ''spiffe://td/fb'' else ''spiffe://td/reg''), cs_TTL = 0, cs_JWTTTL = 0,
      cs_DNSNameTemplates = [], cs_WorkloadSelectorTemplates = [], cs_FederatesWith = [], cs_NamespaceSelector = None,
      cs_PodSelector = (if fallback then None else Some ''p''), cs_Admin = False, cs_Downstream = False, cs_AutoPopulateDNSNames = False,
      cs_ClassName = '''', cs_Fallback = fallback, cs_Hint = (if fallback then ''fb'' else ''reg'')\<rparr>, csid_Status = initSPIFFEIDStatus\<rparr>"

text \<open>Two pods; the regular resource selects one of them.\<close>

definition other_pod :: Pod where
  "other_pod = sample_pod\<lparr>pod_Meta := (pod_Meta sample_pod)\<lparr>om_Name := ''q'', om_UID := ''u2''\<rparr>\<rparr>"

definition collect_world :: mem_world where
  "collect_world = sample_world\<lparr>m_spiffeids := [sample_sid True, sample_sid False],
     m_namespaces := [\<lparr>ns_Meta = sample_meta ''ns''\<rparr>], m_nodes := [sample_node], m_pods := [sample_pod, other_pod]\<rparr>"

definition collect_store :: byStore where
  "collect_store = \<lparr>bs_StaticEntries = map (\<lambda>c. \<lparr>bse_Resource = c, bse_NextStatus = initStaticStatus\<rparr>) (m_static collect_world),
     bs_SPIFFEIDs = map (\<lambda>c. \<lparr>bsi_Resource = c, bsi_NextStatus = initSPIFFEIDStatus\<rparr>) (m_spiffeids collect_world)\<rparr>"

definition collect_result :: "(string \<times> cachedEntry) list entryReconciler \<times> (entriesState \<times> byStore) result" where
  "collect_result = the (collect mem_env mem_cfg (Reconciler mem_env mem_cfg) collect_world [] collect_store)"

definition collect_state :: entriesState where
  "collect_state = fst (projr (snd collect_result))"

abbreviation collect_nth :: "nat \<Rightarrow> declaredEntry" where
  "collect_nth n \<equiv> hd (es_Declared (snd (collect_state ! n)))"

lemma collect_sample:
  "lru_lossy (ee_lru mem_env) mem_content" "uids_ok mem_content (er_renderCache (Reconciler mem_env mem_cfg))"
  "collect mem_env mem_cfg (Reconciler mem_env mem_cfg) collect_world [] collect_store =
     Some (fst collect_result, Inr (collect_state, snd (projr (snd collect_result))))"
proof -
  show "lru_lossy (ee_lru mem_env) mem_content" using mem_lru_lossy by (simp add: mem_env_def)
  show "uids_ok mem_content (er_renderCache (Reconciler mem_env mem_cfg))"
    by (simp add: uids_ok_def Reconciler_def mem_env_def mem_lru_def mem_content_def split: option.splits)
  have "(case collect mem_env mem_cfg (Reconciler mem_env mem_cfg) collect_world [] collect_store of
      Some (r, Inr x) \<Rightarrow> True | _ \<Rightarrow> False) = True" by code_simp
  then show "collect mem_env mem_cfg (Reconciler mem_env mem_cfg) collect_world [] collect_store =
     Some (fst collect_result, Inr (collect_state, snd (projr (snd collect_result))))"
    by (auto simp: collect_state_def collect_result_def split: option.splits prod.splits sum.splits)
qed

theorem fallback_exclusive_witness:
  "hd (e_Selectors (de_Entry (collect_nth 2))) \<noteq> hd (e_Selectors (de_Entry (collect_nth 1)))"
proof -
  let ?store = "snd (projr (snd collect_result))"
  have "declared_in collect_state (collect_nth 2)" "by_Ref (de_By (collect_nth 2)) = BySPIFFEID 1"
    "is_fallback (bs_SPIFFEIDs ?store ! 1)"
    "declared_in collect_state (collect_nth 1)" "by_Ref (de_By (collect_nth 1)) = BySPIFFEID 0"
    "\<not> is_fallback (bs_SPIFFEIDs ?store ! 0)"
    by code_simp+
  from fallback_exclusive [OF collect_sample this] show ?thesis by blast
qed

end
