(* ===== verification/Reconcile_Loop.thy ===== *)
theory Reconcile_Loop
  imports Go_Prelude
begin

section \<open>The reconcile loop (pkg/reconciler/reconciler.go)\<close>

text \<open>
  \<open>Run\<close> reconciles, arms a timer and waits for the timer, a trigger or the end of its context, for
  ever. Other goroutines call \<open>Trigger\<close>, change the world and cancel the context at any time. The
  loop is a step relation over labelled events; \<open>reconcile\<close> is the function of its configuration,
  with \<open>None\<close> for a call that does not return, and \<open>env\<close> says how others may change the world.

  The trigger channel is unbuffered and \<open>Trigger\<close> does not block, so that a trigger is received
  only while the loop waits, and \<open>drain\<close> never finds one. A timer that is reset delivers no tick of
  its earlier setting (Go 1.23 and later). A ready \<open>select\<close> is taken before time passes.
\<close>

subsection \<open>Definitions\<close>

record 'w Config =
  cf_Reconcile :: "'w \<Rightarrow> 'w option"
  cf_GCInterval :: Duration

datatype phase =
    Starting
  | Reconciling
  | Waiting (until: Time)
  | Returned

text \<open>\<open>lp_finished\<close> is the time the last reconcile finished, for the statements below.\<close>

record 'w loop =
  lp_phase :: phase
  lp_world :: 'w
  lp_now :: Time
  lp_cancelled :: bool
  lp_finished :: Time

definition New :: "'w \<Rightarrow> Time \<Rightarrow> 'w loop" where
  "New w now = \<lparr>lp_phase = Starting, lp_world = w, lp_now = now, lp_cancelled = False, lp_finished = now\<rparr>"

text \<open>The non-blocking send of \<open>Trigger\<close>.\<close>

definition Trigger :: "'w loop \<Rightarrow> 'w loop" where
  "Trigger s = (case lp_phase s of Waiting _ \<Rightarrow> s\<lparr>lp_phase := Reconciling\<rparr> | _ \<Rightarrow> s)"

text \<open>The non-blocking receive of \<open>drain\<close>, before any goroutine can be in the middle of a send.\<close>

definition drain :: "'w loop \<Rightarrow> 'w loop" where
  "drain s = s\<lparr>lp_phase := Reconciling\<rparr>"

datatype event = EDrain | EReconciled | ETimer | ETrigger | ECancel | EReturn | ETick | EWorld

inductive Run :: "'w Config \<Rightarrow> ('w \<Rightarrow> 'w \<Rightarrow> bool) \<Rightarrow> 'w loop \<Rightarrow> event \<Rightarrow> 'w loop \<Rightarrow> bool"
  for C :: "'w Config" and env :: "'w \<Rightarrow> 'w \<Rightarrow> bool" where
  run_drain: "lp_phase s = Starting \<Longrightarrow> Run C env s EDrain (drain s)"
| run_reconciled: "lp_phase s = Reconciling \<Longrightarrow> cf_Reconcile C (lp_world s) = Some w \<Longrightarrow>
    Run C env s EReconciled (s\<lparr>lp_world := w, lp_phase := Waiting (lp_now s + cf_GCInterval C), lp_finished := lp_now s\<rparr>)"
| run_timer: "lp_phase s = Waiting d \<Longrightarrow> d \<le> lp_now s \<Longrightarrow> Run C env s ETimer (s\<lparr>lp_phase := Reconciling\<rparr>)"
| run_trigger: "Run C env s ETrigger (Trigger s)"
| run_cancel: "Run C env s ECancel (s\<lparr>lp_cancelled := True\<rparr>)"
| run_return: "lp_phase s = Waiting d \<Longrightarrow> lp_cancelled s \<Longrightarrow> Run C env s EReturn (s\<lparr>lp_phase := Returned\<rparr>)"
| run_tick: "0 < t \<Longrightarrow> (case lp_phase s of Waiting d \<Rightarrow> lp_now s + t \<le> d \<and> \<not> lp_cancelled s | _ \<Rightarrow> True) \<Longrightarrow>
    Run C env s ETick (s\<lparr>lp_now := lp_now s + t\<rparr>)"
| run_world: "env (lp_world s) w \<Longrightarrow> Run C env s EWorld (s\<lparr>lp_world := w\<rparr>)"

inductive_cases run_timerE: "Run C env s ETimer s'"
inductive_cases run_triggerE: "Run C env s ETrigger s'"
inductive_cases run_returnE: "Run C env s EReturn s'"

text \<open>Finite executions, with the events in the order in which they happen.\<close>

inductive runs :: "'w Config \<Rightarrow> ('w \<Rightarrow> 'w \<Rightarrow> bool) \<Rightarrow> 'w loop \<Rightarrow> event list \<Rightarrow> 'w loop \<Rightarrow> bool"
  for C :: "'w Config" and env :: "'w \<Rightarrow> 'w \<Rightarrow> bool" where
  runs_Nil: "runs C env s [] s"
| runs_snoc: "runs C env s es s' \<Longrightarrow> Run C env s' e s'' \<Longrightarrow> runs C env s (es @ [e]) s''"

subsection \<open>Invariants of the loop\<close>

lemma Trigger_simps [simp]:
  "lp_world (Trigger s) = lp_world s" "lp_now (Trigger s) = lp_now s"
  "lp_cancelled (Trigger s) = lp_cancelled s" "lp_finished (Trigger s) = lp_finished s"
  "lp_phase (Trigger s) = (case lp_phase s of Waiting _ \<Rightarrow> Reconciling | p \<Rightarrow> p)"
  by (simp_all add: Trigger_def split: phase.split)

definition timely :: "'w Config \<Rightarrow> 'w loop \<Rightarrow> bool" where
  "timely C s \<longleftrightarrow> lp_finished s \<le> lp_now s \<and>
     (case lp_phase s of
        Waiting d \<Rightarrow> d = lp_finished s + cf_GCInterval C \<and> lp_now s \<le> max d (lp_finished s)
      | _ \<Rightarrow> True)"

lemma Run_timely: "Run C env s e s' \<Longrightarrow> timely C s \<Longrightarrow> timely C s'"
  by (cases rule: Run.cases, assumption)
    (auto simp: timely_def drain_def split: phase.splits)

lemma runs_invariant:
  assumes "runs C env s es s'" "P s" "\<And>s e s'. Run C env s e s' \<Longrightarrow> P s \<Longrightarrow> P s'"
  shows "P s'"
  using assms by (induction rule: runs.induct) auto

lemma runs_timely: "runs C env (New w now) es s \<Longrightarrow> timely C s"
  by (erule runs_invariant) (simp add: timely_def New_def, erule (1) Run_timely)

subsection \<open>Reconciles that keep an invariant of the world\<close>

text \<open>What a reconcile and the rest of the system promise each other: both keep \<open>inv\<close>, a reconcile that
  returns establishes \<open>post\<close>, and the rest of the system keeps it.\<close>

locale reconcile_action =
  fixes inv post :: "'w \<Rightarrow> bool" and reconcile :: "'w \<Rightarrow> 'w option" and env :: "'w \<Rightarrow> 'w \<Rightarrow> bool"
  assumes reconcile_inv: "inv w \<Longrightarrow> reconcile w = Some w' \<Longrightarrow> inv w'"
    and env_inv: "inv w \<Longrightarrow> env w w' \<Longrightarrow> inv w'"
    and reconcile_post: "inv w \<Longrightarrow> reconcile w = Some w' \<Longrightarrow> post w'"
    and env_post: "inv w \<Longrightarrow> post w \<Longrightarrow> env w w' \<Longrightarrow> post w'"
begin

definition loop_ok :: "'w loop \<Rightarrow> bool" where
  "loop_ok s \<longleftrightarrow> inv (lp_world s) \<and> (case lp_phase s of Waiting d \<Rightarrow> post (lp_world s) | Returned \<Rightarrow> post (lp_world s) | _ \<Rightarrow> True)"

lemma Run_ok: "Run C env s e s' \<Longrightarrow> cf_Reconcile C = reconcile \<Longrightarrow> loop_ok s \<Longrightarrow> loop_ok s'"
  by (cases rule: Run.cases, assumption)
    (auto simp: loop_ok_def drain_def intro: reconcile_inv env_inv reconcile_post env_post split: phase.splits)

lemma loop_reachable:
  assumes "runs C env (New w now) es s" "cf_Reconcile C = reconcile" "inv w"
  shows "loop_ok s"
  using assms(1)
proof (rule runs_invariant)
  show "loop_ok (New w now)" using assms(3) by (simp add: loop_ok_def New_def)
  show "loop_ok s'" if "Run C env s e s'" "loop_ok s" for s e s' using Run_ok [OF that(1) assms(2) that(2)] .
qed

lemma loop_inv: "runs C env (New w now) es s \<Longrightarrow> cf_Reconcile C = reconcile \<Longrightarrow> inv w \<Longrightarrow> inv (lp_world s)"
  using loop_reachable by (simp add: loop_ok_def)

lemma loop_post: "runs C env (New w now) es s \<Longrightarrow> cf_Reconcile C = reconcile \<Longrightarrow> inv w \<Longrightarrow> lp_phase s = Waiting d \<Longrightarrow>
    post (lp_world s)"
  using loop_reachable [of C w now es s] by (simp add: loop_ok_def)

end

subsection \<open>Waiting, lost triggers and the end of the loop\<close>

lemma runs_append:
  assumes "runs C env s es s'" "runs C env s' es' s''"
  shows "runs C env s (es @ es') s''"
  using assms(2,1)
proof (induction rule: runs.induct)
  case (runs_snoc s0 es' s1 e s2)
  from runs.runs_snoc [OF runs_snoc.IH [OF runs_snoc.prems] runs_snoc.hyps(2)] show ?case by simp
qed simp

lemma runs_one: "Run C env s e s' \<Longrightarrow> runs C env s [e] s'"
  using runs_snoc [OF runs_Nil, of C env s e s'] by simp

lemma Run_waiting:
  assumes "Run C env s e s'" "lp_phase s = Waiting d" "e \<notin> {ETimer, ETrigger, EReturn}"
  shows "lp_phase s' = Waiting d \<and> lp_now s' \<le> max d (lp_now s)"
  using assms by (cases rule: Run.cases) auto

lemma runs_waiting:
  assumes "runs C env s es s'" "lp_phase s = Waiting d" "set es \<inter> {ETimer, ETrigger, EReturn} = {}"
  shows "lp_phase s' = Waiting d \<and> lp_now s' \<le> max d (lp_now s)"
  using assms
proof (induction rule: runs.induct)
  case (runs_snoc s es s' e s'')
  then have "lp_phase s' = Waiting d" "lp_now s' \<le> max d (lp_now s)" by auto
  with Run_waiting [OF runs_snoc.hyps(2), of d] runs_snoc.prems show ?case by auto
qed simp

text \<open>From a loop that waits, without triggers, a reconcile starts only when the timer has fired.\<close>

definition quiet :: "Time \<Rightarrow> 'w loop \<Rightarrow> bool" where
  "quiet d s \<longleftrightarrow> (case lp_phase s of Starting \<Rightarrow> False | Reconciling \<Rightarrow> d \<le> lp_now s | Waiting d' \<Rightarrow> d' = d | Returned \<Rightarrow> True)"

lemma Run_quiet: "Run C env s e s' \<Longrightarrow> quiet d s \<Longrightarrow> e \<noteq> ETrigger \<Longrightarrow> e \<noteq> EReconciled \<Longrightarrow> quiet d s'"
  by (cases rule: Run.cases, assumption) (auto simp: quiet_def split: phase.splits)

lemma runs_quiet:
  assumes "runs C env s es s'" "quiet d s" "ETrigger \<notin> set es" "EReconciled \<notin> set es"
  shows "quiet d s'"
  using assms by (induction rule: runs.induct) (auto intro: Run_quiet)

lemma runs_split:
  assumes "runs C env s (es @ es') s''"
  obtains s' where "runs C env s es s'" "runs C env s' es' s''"
  using assms
proof (induction es' arbitrary: s'' thesis rule: rev_induct)
  case Nil
  then show ?case using runs_Nil by force
next
  case (snoc e es')
  from snoc.prems(2) obtain s1 where "runs C env s (es @ es') s1" "Run C env s1 e s''"
    by (cases rule: runs.cases) auto
  moreover obtain s0 where "runs C env s es s0" "runs C env s0 es' s1"
    using snoc.IH [OF _ \<open>runs C env s (es @ es') s1\<close>] by blast
  ultimately show ?case using snoc.prems(1) runs_snoc by blast
qed

lemma Run_returned: "Run C env s e s' \<Longrightarrow> lp_phase s = Returned \<Longrightarrow> lp_phase s' = Returned"
  by (cases rule: Run.cases, assumption) auto

lemma wait_ends:
  assumes "lp_phase s = Waiting d" "\<not> lp_cancelled s"
  shows "\<exists>es' s'. runs C env s es' s' \<and> set es' \<subseteq> {ETick, ETimer} \<and> lp_phase s' = Reconciling \<and>
      lp_now s' = max d (lp_now s) \<and> lp_world s' = lp_world s"
proof (cases "d \<le> lp_now s")
  case True
  then show ?thesis
    using runs_one [OF run_timer [OF assms(1) True, of C env]] by (intro exI [of _ "[ETimer]"]) auto
next
  case False
  let ?s = "s\<lparr>lp_now := lp_now s + (d - lp_now s)\<rparr>"
  have "Run C env s ETick ?s" using False assms by (intro run_tick) auto
  moreover have "Run C env ?s ETimer (?s\<lparr>lp_phase := Reconciling\<rparr>)" using assms(1) by (intro run_timer) auto
  ultimately have "runs C env s ([ETick] @ [ETimer]) (?s\<lparr>lp_phase := Reconciling\<rparr>)"
    by (meson runs_append runs_one)
  with False show ?thesis by (intro exI [of _ "[ETick, ETimer]"] exI [of _ "?s\<lparr>lp_phase := Reconciling\<rparr>"]) auto
qed

text \<open>A loop whose reconciles return, in the worlds it gets to, can always complete another one, within the GC interval.\<close>

lemma loop_reconciles:
  assumes "runs C env (New w now) es s" "lp_phase s \<noteq> Returned" "\<not> lp_cancelled s" "0 \<le> cf_GCInterval C"
    and total: "\<And>es s. runs C env (New w now) es s \<Longrightarrow> \<exists>w'. cf_Reconcile C (lp_world s) = Some w'"
  shows "\<exists>es' s'. runs C env s es' s' \<and> set es' \<subseteq> {EDrain, ETick, ETimer, EReconciled} \<and> EReconciled \<in> set es' \<and>
    lp_now s' \<le> lp_now s + cf_GCInterval C \<and> lp_phase s' = Waiting (lp_now s' + cf_GCInterval C)"
proof -
  have finish: "\<exists>s'. runs C env s1 [EReconciled] s' \<and> lp_now s' = lp_now s1 \<and> lp_phase s' = Waiting (lp_now s' + cf_GCInterval C)"
    if r: "lp_phase s1 = Reconciling" "runs C env s es1 s1" for es1 s1
  proof -
    obtain w' where "cf_Reconcile C (lp_world s1) = Some w'" using total [OF runs_append [OF assms(1) r(2)]] by blast
    from runs_one [OF run_reconciled [OF r(1) this, of env]] show ?thesis by force
  qed
  have "\<exists>es1 s1. runs C env s es1 s1 \<and> set es1 \<subseteq> {EDrain, ETick, ETimer} \<and> lp_phase s1 = Reconciling \<and>
      lp_now s1 \<le> lp_now s + cf_GCInterval C"
  proof (cases "lp_phase s")
    case Starting
    with runs_one [OF run_drain [OF Starting, of C env]] assms(4) show ?thesis
      by (intro exI [of _ "[EDrain]"] exI [of _ "drain s"]) (auto simp: drain_def)
  next
    case Reconciling
    with assms(4) runs_Nil [of C env s] show ?thesis by (intro exI [of _ "[]"] exI [of _ s]) auto
  next
    case (Waiting d)
    then have "d = lp_finished s + cf_GCInterval C" "lp_finished s \<le> lp_now s"
      using runs_timely [OF assms(1)] by (auto simp: timely_def)
    moreover obtain es1 s1 where "runs C env s es1 s1" "set es1 \<subseteq> {ETick, ETimer}" "lp_phase s1 = Reconciling" "lp_now s1 = max d (lp_now s)"
      using wait_ends [OF Waiting assms(3), of C env] by blast
    ultimately show ?thesis using assms(4) by (intro exI [of _ es1] exI [of _ s1]) auto
  qed (use assms(2) in blast)
  then obtain es1 s1 where s1: "runs C env s es1 s1" "set es1 \<subseteq> {EDrain, ETick, ETimer}" "lp_phase s1 = Reconciling"
    "lp_now s1 \<le> lp_now s + cf_GCInterval C" by blast
  obtain s' where "runs C env s1 [EReconciled] s'" "lp_now s' = lp_now s1" "lp_phase s' = Waiting (lp_now s' + cf_GCInterval C)"
    using finish [OF s1(3,1)] by blast
  with s1 runs_append [OF s1(1), of "[EReconciled]" s'] show ?thesis
    by (intro exI [of _ "es1 @ [EReconciled]"] exI [of _ s']) auto
qed

section \<open>Properties\<close>

text \<open>C27: the loop reconciles at least every GC interval. In every execution, while it waits, the time since the
  last reconcile finished is at most the GC interval (or zero when that is negative); when the context is not
  cancelled, letting time pass up to the deadline starts a reconcile, and nothing but a trigger or the end
  of the context can come before it.\<close>

theorem reconcile_periodic:
  assumes "runs C env (New w now) es s" "lp_phase s = Waiting d"
  shows "d = lp_finished s + cf_GCInterval C \<and> lp_now s - lp_finished s \<le> max 0 (cf_GCInterval C) \<and>
    (\<not> lp_cancelled s \<longrightarrow> (\<exists>es' s'. runs C env s es' s' \<and> set es' \<subseteq> {ETick, ETimer} \<and> lp_phase s' = Reconciling \<and>
      lp_now s' = max d (lp_now s) \<and> lp_world s' = lp_world s)) \<and>
    (\<forall>es' s'. runs C env s es' s' \<and> set es' \<inter> {ETimer, ETrigger, EReturn} = {} \<longrightarrow> lp_now s' \<le> max d (lp_now s))"
proof (intro conjI impI)
  have t: "d = lp_finished s + cf_GCInterval C" "lp_now s \<le> max d (lp_finished s)"
    using runs_timely [OF assms(1)] unfolding timely_def assms(2) by auto
  then show "d = lp_finished s + cf_GCInterval C" "lp_now s - lp_finished s \<le> max 0 (cf_GCInterval C)" by auto
  show "\<forall>es' s'. runs C env s es' s' \<and> set es' \<inter> {ETimer, ETrigger, EReturn} = {} \<longrightarrow> lp_now s' \<le> max d (lp_now s)"
    using runs_waiting [OF _ assms(2)] by blast
  show "\<exists>es' s'. runs C env s es' s' \<and> set es' \<subseteq> {ETick, ETimer} \<and> lp_phase s' = Reconciling \<and>
      lp_now s' = max d (lp_now s) \<and> lp_world s' = lp_world s" if "\<not> lp_cancelled s"
    by (rule wait_ends [OF assms(2) that])
qed

text \<open>C28: a trigger that arrives during a reconcile is lost. It leaves the loop as it is; and when the reconcile
  has finished and no further trigger arrives, the next reconcile starts no earlier than the GC interval after
  it, however many triggers came before.\<close>

theorem trigger_during_reconcile_lost:
  assumes "lp_phase s = Reconciling" "runs C env s (es @ EReconciled # es') s'"
    and "EReconciled \<notin> set es'" "ETrigger \<notin> set es'" "lp_phase s' = Reconciling"
  shows "Trigger s = s \<and> (\<exists>s1. runs C env s (es @ [EReconciled]) s1 \<and> lp_now s1 + cf_GCInterval C \<le> lp_now s')"
proof -
  obtain s1 where s1: "runs C env s (es @ [EReconciled]) s1" "runs C env s1 es' s'"
    using runs_split [of C env s "es @ [EReconciled]" es' s'] assms(2) by auto
  have "lp_phase s1 = Waiting (lp_now s1 + cf_GCInterval C)"
    using s1(1) by (cases rule: runs.cases) (auto elim: Run.cases)
  then have "quiet (lp_now s1 + cf_GCInterval C) s1" by (simp add: quiet_def)
  from runs_quiet [OF s1(2) this assms(4,3)] assms(1,5) s1(1) show ?thesis by (auto simp: quiet_def Trigger_def)
qed

text \<open>The loop ends with its context. Once the context is cancelled and the loop waits, it can return, time does
  not pass before it returns or reconciles again, and after it has returned it never reconciles again.\<close>

lemma cancelled_run_returns:
  assumes "lp_phase s = Waiting d" "lp_cancelled s"
  shows "(\<exists>s'. Run C env s EReturn s' \<and> lp_phase s' = Returned) \<and> (\<nexists>s'. Run C env s ETick s') \<and>
    (\<forall>es s'. runs C env s (EReturn # es) s' \<longrightarrow> EReconciled \<notin> set es \<and> lp_phase s' = Returned)"
proof (intro conjI allI impI)
  show "\<exists>s'. Run C env s EReturn s' \<and> lp_phase s' = Returned" using run_return [OF assms, of C env] by fastforce
  show "\<nexists>s'. Run C env s ETick s'" using assms by (auto elim: Run.cases)
  fix es s'
  assume "runs C env s (EReturn # es) s'"
  then obtain s1 where s1: "runs C env s [EReturn] s1" "runs C env s1 es s'"
    using runs_split [of C env s "[EReturn]" es s'] by auto
  have "lp_phase s1 = Returned" using s1(1) by (cases rule: runs.cases) (auto elim: Run.cases)
  with s1(2) have "EReconciled \<notin> set es \<and> lp_phase s' = Returned"
  proof (induction rule: runs.induct)
    case (runs_snoc s es s' e s'')
    then have r: "lp_phase s' = Returned" "EReconciled \<notin> set es" by auto
    then have "e \<noteq> EReconciled" using runs_snoc.hyps(2) by (auto elim: Run.cases)
    with r Run_returned [OF runs_snoc.hyps(2)] show ?case by simp
  qed simp
  then show "EReconciled \<notin> set es" "lp_phase s' = Returned" by blast+
qed

subsection \<open>Witnesses\<close>

definition count_config :: "nat Config" where
  "count_config = \<lparr>cf_Reconcile = (\<lambda>n. Some (Suc n)), cf_GCInterval = 10\<rparr>"

abbreviation undisturbed :: "nat \<Rightarrow> nat \<Rightarrow> bool" where "undisturbed w w' \<equiv> False"

definition waiting_loop :: "nat loop" where
  "waiting_loop = \<lparr>lp_phase = Waiting 10, lp_world = 1, lp_now = 0, lp_cancelled = False, lp_finished = 0\<rparr>"

lemma count_steps:
  "Run count_config undisturbed (New 0 0) EDrain ((New 0 0)\<lparr>lp_phase := Reconciling\<rparr>)"
  "Run count_config undisturbed ((New 0 0)\<lparr>lp_phase := Reconciling\<rparr>) EReconciled waiting_loop"
  "Run count_config undisturbed waiting_loop ETick (waiting_loop\<lparr>lp_now := 10\<rparr>)"
  "Run count_config undisturbed (waiting_loop\<lparr>lp_now := 10\<rparr>) ETimer (waiting_loop\<lparr>lp_now := 10, lp_phase := Reconciling\<rparr>)"
proof -
  show "Run count_config undisturbed (New 0 0) EDrain ((New 0 0)\<lparr>lp_phase := Reconciling\<rparr>)"
    using run_drain [of "New 0 0" count_config undisturbed] by (simp add: New_def drain_def)
  show "Run count_config undisturbed ((New 0 0)\<lparr>lp_phase := Reconciling\<rparr>) EReconciled waiting_loop"
    using run_reconciled [of "(New 0 0)\<lparr>lp_phase := Reconciling\<rparr>" count_config 1 undisturbed]
    by (simp add: New_def count_config_def waiting_loop_def)
  show "Run count_config undisturbed waiting_loop ETick (waiting_loop\<lparr>lp_now := 10\<rparr>)"
    using run_tick [of 10 waiting_loop count_config undisturbed] by (simp add: waiting_loop_def)
  show "Run count_config undisturbed (waiting_loop\<lparr>lp_now := 10\<rparr>) ETimer (waiting_loop\<lparr>lp_now := 10, lp_phase := Reconciling\<rparr>)"
    using run_timer [of "waiting_loop\<lparr>lp_now := 10\<rparr>" 10 count_config undisturbed] by (simp add: waiting_loop_def)
qed

theorem reconcile_periodic_witness:
  "\<exists>es' s'. runs count_config undisturbed waiting_loop es' s' \<and> lp_phase s' = Reconciling \<and> lp_now s' = 10"
proof -
  have "runs count_config undisturbed (New 0 0) ([EDrain] @ [EReconciled]) waiting_loop"
    using count_steps by (meson runs_append runs_one)
  from reconcile_periodic [OF this, of 10] show ?thesis by (auto simp: waiting_loop_def)
qed

theorem trigger_during_reconcile_lost_witness:
  "\<exists>s1. runs count_config undisturbed ((New 0 0)\<lparr>lp_phase := Reconciling\<rparr>) [ETrigger, EReconciled] s1 \<and> lp_now s1 + 10 \<le> 10"
proof -
  let ?s = "(New (0 :: nat) 0)\<lparr>lp_phase := Reconciling\<rparr>"
  have "Run count_config undisturbed ?s ETrigger ?s" using run_trigger [of count_config undisturbed ?s] by (simp add: Trigger_def)
  then have "runs count_config undisturbed ?s ([ETrigger] @ [EReconciled] @ [ETick] @ [ETimer]) (waiting_loop\<lparr>lp_now := 10, lp_phase := Reconciling\<rparr>)"
    using count_steps by (meson runs_append runs_one)
  with trigger_during_reconcile_lost [of ?s count_config undisturbed "[ETrigger]" "[ETick, ETimer]"
      "waiting_loop\<lparr>lp_now := 10, lp_phase := Reconciling\<rparr>"]
  show ?thesis by (auto simp: count_config_def)
qed

lemma cancelled_run_returns_witness:
  "\<exists>s'. Run count_config undisturbed (waiting_loop\<lparr>lp_cancelled := True\<rparr>) EReturn s' \<and> lp_phase s' = Returned"
  using cancelled_run_returns [of "waiting_loop\<lparr>lp_cancelled := True\<rparr>" 10 count_config undisturbed]
  by (simp add: waiting_loop_def)

end
