(* ===== verification/Reconciler_Run.thy ===== *)
theory Reconciler_Run
  imports Reconciler_Collect Entry_Api Reconcile_Loop
begin

section \<open>The entry reconcile as a whole\<close>

text \<open>
  The pieces put together: a reconcile returns, whatever errors its calls return; it keeps the
  render cache in order, over every execution of the reconcile loop; and it gives up before it
  changes anything when something it needs cannot be listed.
\<close>

subsection \<open>The render cache over a reconcile\<close>

lemma on_cache_render [simp]: "er_renderCache (on_cache f r) = er_renderCache r"
  by (simp add: on_cache_def split: option.split)

lemma create_status_render: "er_renderCache (fst (foldl create_status rs xs)) = er_renderCache (fst rs)"
  by (induction xs arbitrary: rs) (auto simp: create_status_def Let_def split: prod.splits)

lemma update_status_render: "er_renderCache (fst (foldl update_status rs xs)) = er_renderCache (fst rs)"
  by (induction xs arbitrary: rs) (auto simp: update_status_def Let_def split: prod.splits)

lemma delete_status_render: "er_renderCache (foldl delete_status r xs) = er_renderCache r"
  by (induction xs arbitrary: r) (auto simp: delete_status_def Let_def split: prod.splits)

lemma deleteEntries_render: "er_renderCache (snd (deleteEntries cfg r w es)) = er_renderCache r"
  by (auto simp: deleteEntries_def delete_status_render split: prod.splits option.splits)

lemma createEntries_render: "er_renderCache (fst (snd (createEntries cfg r st w ds))) = er_renderCache r"
  using create_status_render [of "(r, st)"] by (auto simp: createEntries_def split: prod.splits option.splits)

lemma updateEntries_render: "er_renderCache (fst (snd (updateEntries cfg r st w ds))) = er_renderCache r"
  using update_status_render [of "(r, st)"] by (auto simp: updateEntries_def split: prod.splits option.splits)

lemma carryOut_render: "er_renderCache (fst (snd (carryOut cfg r w p))) = er_renderCache r"
proof -
  obtain w1 r1 where d: "(if pl_toDelete p \<noteq> [] then deleteEntries cfg r w (pl_toDelete p) else (w, r)) = (w1, r1)"
    by (metis surj_pair)
  obtain w2 r2 st2 where c: "(if pl_toCreate p \<noteq> [] then createEntries cfg r1 (pl_Store p) w1 (pl_toCreate p)
      else (w1, r1, pl_Store p)) = (w2, r2, st2)" by (metis surj_pair)
  have "er_renderCache r1 = er_renderCache r" using d deleteEntries_render [of cfg r w "pl_toDelete p"] by (auto split: if_splits)
  moreover have "er_renderCache r2 = er_renderCache r1"
    using c createEntries_render [of cfg r1 "pl_Store p" w1 "pl_toCreate p"] by (auto split: if_splits)
  ultimately show ?thesis by (simp only: carryOut_def Let_def d prod.case c) (simp add: updateEntries_render)
qed

lemma er_listEntries_render: "er_listEntries E cfg r hints w = Some (w', r', res) \<Longrightarrow> er_renderCache r' = er_renderCache r"
  by (auto simp: er_listEntries_def Let_def split: option.splits prod.splits sum.splits if_splits)

lemma recalculate_render: "recalculateUnsupportFields E cfg r w = Some (w', r') \<Longrightarrow> er_renderCache r' = er_renderCache r"
  by (auto simp: recalculateUnsupportFields_def split: option.splits prod.splits sum.splits)

lemma collect_error_render: "collect E cfg r w cur store = Some (r', Inl e) \<Longrightarrow> er_renderCache r' = er_renderCache r"
  by (auto simp: collect_def Let_def split: option.splits sum.splits prod.splits if_splits)

lemma reconcile_entries_render:
  assumes "lru_lossy (ee_lru E) content" "uids_ok content (er_renderCache r)"
    and "reconcile_entries E cfg r w store cur del = Some (w', r')"
  shows "uids_ok content (er_renderCache r')"
proof -
  obtain r1 res where c: "collect E cfg r w cur store = Some (r1, res)"
    using assms(3) by (cases "collect E cfg r w cur store") (auto simp: reconcile_entries_def)
  show ?thesis
  proof (cases res)
    case (Inl e)
    with c assms(2,3) collect_error_render [of E cfg r w cur store r1 e] show ?thesis by (simp add: reconcile_entries_def)
  next
    case (Inr x)
    obtain st store1 where x: "x = (st, store1)" by (cases x)
    have "er_renderCache r' = er_renderCache r1"
      using assms(3) c Inr x
      by (auto simp: reconcile_entries_def Let_def carryOut_render [symmetric] split: prod.splits option.splits
          dest!: arg_cong [where f = "\<lambda>t. er_renderCache (fst (snd t))"] simp: carryOut_render)
    moreover have "uids_ok content (er_renderCache r1)" by (rule collect_inv [OF assms(1,2) c [unfolded Inr x]])
    ultimately show ?thesis by simp
  qed
qed

lemma reconcile_render:
  assumes "lru_lossy (ee_lru E) content" "uids_ok content (er_renderCache r)" "reconcile E cfg r w = Some (w', r')"
  shows "uids_ok content (er_renderCache r')"
proof -
  obtain w1 r1 where 1: "(if er_nextGetUnsupportedFields r < ee_Now E w then recalculateUnsupportFields E cfg r w else Some (w, r)) = Some (w1, r1)"
    using assms(3) by (fastforce simp: reconcile_def split: option.splits)
  have r1: "er_renderCache r1 = er_renderCache r" using 1 recalculate_render by (auto split: if_splits)
  let ?statics = "if rk_ClusterStaticEntries (rc_Reconcile cfg) then listClusterStaticEntries E cfg w1 else Some (Inr [])"
  let ?sids = "if rk_ClusterSPIFFEIDs (rc_Reconcile cfg) then listClusterSPIFFEIDs cfg w1 else Some (Inr [])"
  show ?thesis
  proof (cases "\<exists>ss cs. ?statics = Some (Inr ss) \<and> ?sids = Some (Inr cs)")
    case False
    then have "r' = r1" using assms(3) unfolding reconcile_def 1 option.case prod.case
      by (auto split: option.splits sum.splits)
    with r1 assms(2) show ?thesis by simp
  next
    case True
    then obtain ss cs where l: "?statics = Some (Inr ss)" "?sids = Some (Inr cs)" by blast
    note rec = assms(3) [unfolded reconcile_def 1 option.case prod.case, unfolded l option.case sum.case]
    obtain w2 r2 res where e: "er_listEntries E cfg r1 (entryListHints cfg cs ss) w1 = Some (w2, r2, res)"
      using rec by (cases "er_listEntries E cfg r1 (entryListHints cfg cs ss) w1") auto
    have r2: "uids_ok content (er_renderCache r2)" using er_listEntries_render [OF e] r1 assms(2) by simp
    show ?thesis
    proof (cases res)
      case (Inl err)
      with rec e r2 show ?thesis by simp
    next
      case (Inr lists)
      obtain cur del where lists: "lists = (cur, del)" by (cases lists)
      show ?thesis
        by (rule reconcile_entries_render [OF assms(1) r2]) (use rec e Inr lists in simp)
    qed
  qed
qed

subsection \<open>The listed ClusterSPIFFEIDs stay the same\<close>

abbreviation resources :: "byStore \<Rightarrow> crd_ClusterSPIFFEID list" where
  "resources st \<equiv> map bsi_Resource (bs_SPIFFEIDs st)"

lemma modify_static_resources [simp]: "bs_SPIFFEIDs (modify_static i f st) = bs_SPIFFEIDs st"
  by (simp add: modify_static_def)

lemma increments_resources [simp]:
  "resources (IncrementEntriesToSet r st) = resources st" "resources (IncrementEntriesMasked r st) = resources st"
  "resources (IncrementEntrySuccess r st) = resources st" "resources (IncrementEntryFailures r st) = resources st"
  by (cases r; simp)+

lemma foldl_resources:
  "(\<And>st x. resources (f st x) = resources st) \<Longrightarrow> resources (foldl f st xs) = resources st"
  by (induction xs arbitrary: st) (auto simp del: map_eq_conv)

lemma increment_all_resources:
  "resources (foldl (\<lambda>st d. IncrementEntriesMasked (by_Ref (de_By d)) st) st ds) = resources st"
  "resources (foldl (\<lambda>st d. IncrementEntryFailures (by_Ref (de_By d)) st) st ds) = resources st"
  by (rule foldl_resources, rule increments_resources)+

lemma planStep_resources: "resources (pl_Store (planStep L pfx uuid U p s)) = resources (pl_Store p)"
  by (simp add: planStep_def Let_def increment_all_resources del: map_eq_conv split: list.split)

lemma makePlan_resources: "resources (pl_Store (makePlan L pfx uuid U store n ss del)) = resources store"
proof -
  have "resources (pl_Store (foldl (planStep L pfx uuid U) p ss)) = resources (pl_Store p)" for p
    by (induction ss arbitrary: p) (simp_all add: planStep_resources del: map_eq_conv)
  then show ?thesis by (simp add: makePlan_def Let_def del: map_eq_conv)
qed

lemma create_status_resources: "resources (snd (foldl create_status rs xs)) = resources (snd rs)"
  by (induction xs arbitrary: rs) (auto simp: create_status_def Let_def simp del: map_eq_conv split: prod.splits)

lemma update_status_resources: "resources (snd (foldl update_status rs xs)) = resources (snd rs)"
  by (induction xs arbitrary: rs) (auto simp: update_status_def Let_def simp del: map_eq_conv split: prod.splits)

lemma createEntries_resources: "resources (snd (snd (createEntries cfg r st w ds))) = resources st"
  using create_status_resources [of "(r, st)"]
  by (auto simp: createEntries_def increment_all_resources simp del: map_eq_conv split: prod.splits option.splits)

lemma updateEntries_resources: "resources (snd (snd (updateEntries cfg r st w ds))) = resources st"
  using update_status_resources [of "(r, st)"]
  by (auto simp: updateEntries_def increment_all_resources simp del: map_eq_conv split: prod.splits option.splits)

lemma carryOut_resources: "resources (snd (snd (carryOut cfg r w p))) = resources (pl_Store p)"
proof -
  obtain w1 r1 where d: "(if pl_toDelete p \<noteq> [] then deleteEntries cfg r w (pl_toDelete p) else (w, r)) = (w1, r1)"
    by (metis surj_pair)
  obtain w2 r2 st2 where c: "(if pl_toCreate p \<noteq> [] then createEntries cfg r1 (pl_Store p) w1 (pl_toCreate p)
      else (w1, r1, pl_Store p)) = (w2, r2, st2)" by (metis surj_pair)
  have "resources st2 = resources (pl_Store p)"
    using c createEntries_resources [of cfg r1 "pl_Store p" w1 "pl_toCreate p"] by (auto split: if_splits)
  then show ?thesis by (simp only: carryOut_def Let_def d prod.case c) (simp add: updateEntries_resources del: map_eq_conv)
qed

subsection \<open>A reconcile returns\<close>

lemma updateStatuses_returns:
  assumes "rc_K8sClient cfg \<noteq> None \<or> bs_SPIFFEIDs store = []"
  shows "\<exists>w'. updateStatuses cfg w store = Some w'"
proof (cases "rc_K8sClient cfg")
  case None
  with assms show ?thesis by (simp add: updateStatuses_def)
next
  case (Some k)
  have "\<exists>w'. foldl (updateSPIFFEIDStatus (Some k)) (Some w) cs = Some w'" for w cs
    by (induction cs arbitrary: w) (auto simp: updateSPIFFEIDStatus_def)
  with Some show ?thesis by (simp add: updateStatuses_def)
qed

text \<open>What a configuration needs so that nothing absent is dereferenced: a Kubernetes client, or ClusterSPIFFEIDs
  turned off and a manifest path for the static entries.\<close>

definition sources_present :: "'w ReconcilerConfig \<Rightarrow> bool" where
  "sources_present cfg \<longleftrightarrow> rc_K8sClient cfg \<noteq> None \<or>
     \<not> rk_ClusterSPIFFEIDs (rc_Reconcile cfg) \<and>
     (rk_ClusterStaticEntries (rc_Reconcile cfg) \<longrightarrow> rc_StaticManifestPath cfg \<noteq> None)"

lemma collect_resources:
  assumes "collect E cfg r w cur store = Some (r', Inr (st, store'))" "\<not> rk_ClusterSPIFFEIDs (rc_Reconcile cfg)"
  shows "bs_SPIFFEIDs store' = bs_SPIFFEIDs store"
proof -
  have cur: "state_matches (env_libs E) (foldl (AddCurrent (env_libs E)) [] cur) cur []"
    using state_matches_AddCurrents [OF state_matches_empty] by simp
  show ?thesis using assms addStaticEntries_inv [OF cur, of store]
    by (auto simp: collect_def static_inv_def Let_def split: prod.splits if_splits)
qed

lemma reconcile_entries_returns:
  assumes "sources_present cfg" "rk_ClusterSPIFFEIDs (rc_Reconcile cfg) \<or> bs_SPIFFEIDs store = []"
  shows "\<exists>x. reconcile_entries E cfg r w store cur del = Some x"
proof -
  obtain r1 res where c: "collect E cfg r w cur store = Some (r1, res)"
    using assms(1) by (fastforce simp: collect_def sources_present_def Let_def split: prod.splits option.splits sum.splits)
  show ?thesis
  proof (cases res)
    case (Inl e)
    with c show ?thesis by (simp add: reconcile_entries_def)
  next
    case (Inr x)
    obtain st store1 where x: "x = (st, store1)" by (cases x)
    let ?p = "makePlan (env_spiffeid E) (rc_EntryIDPrefix cfg) (ee_uuid E) (er_unsupportedFields r1) store1
      (er_UUIDs r1) (map snd (ee_range E st)) del"
    obtain w2 r2 store2 where co: "carryOut cfg (r1\<lparr>er_UUIDs := pl_UUIDs ?p\<rparr>) w ?p = (w2, r2, store2)" by (metis surj_pair)
    have res: "resources store2 = resources store1"
      using carryOut_resources [of cfg "r1\<lparr>er_UUIDs := pl_UUIDs ?p\<rparr>" w ?p] makePlan_resources co by (simp del: map_eq_conv)
    have "rc_K8sClient cfg \<noteq> None \<or> bs_SPIFFEIDs store2 = []"
    proof (cases "rk_ClusterSPIFFEIDs (rc_Reconcile cfg)")
      case True
      with assms(1) show ?thesis by (simp add: sources_present_def)
    next
      case False
      with collect_resources [OF c [unfolded Inr x]] assms(2) have "resources store1 = []" by simp
      with res show ?thesis by simp
    qed
    from updateStatuses_returns [OF this] obtain w3 where "updateStatuses cfg w2 store2 = Some w3" by blast
    with c Inr x co show ?thesis by (simp add: reconcile_entries_def Let_def)
  qed
qed

text \<open>What a result of the create RPC has to carry so that the probe for unsupported fields does not dereference nil.\<close>

definition complete_results :: "'w EntryAPI \<Rightarrow> bool" where
  "complete_results A \<longleftrightarrow>
     (\<forall>w es w' rs. rpc_BatchCreateEntry A w es = (w', Inr rs) \<longrightarrow>
        list_all (\<lambda>res. \<exists>st. r_Status res = Some st \<and>
          (api_Code st = uint codes_OK \<or> api_Code st = uint codes_AlreadyExists \<longrightarrow> r_Entry res \<noteq> None)) rs)"

lemma GetUnsupportedFields_returns:
  assumes "complete_results A"
  shows "\<exists>x. GetUnsupportedFields A w td p = Some x"
proof -
  obtain w1 res where c: "rpc_BatchCreateEntry A w [unsupportedFieldsTestEntry td p] = (w1, res)" by (metis surj_pair)
  show ?thesis
  proof (cases "\<exists>result. res = Inr [result]")
    case True
    then obtain result where r: "res = Inr [result]" by blast
    with assms c obtain st where st: "r_Status result = Some st"
      "api_Code st = uint codes_OK \<or> api_Code st = uint codes_AlreadyExists \<Longrightarrow> \<exists>e. r_Entry result = Some e"
      unfolding complete_results_def by fastforce
    show ?thesis using c r st by (auto simp: GetUnsupportedFields_def split: prod.splits)
  next
    case False
    then show ?thesis using c by (auto simp: GetUnsupportedFields_def split: sum.splits list.splits)
  qed
qed

lemma ListEntries_returns:
  assumes "\<And>flt. list_progress A flt rank"
  shows "\<exists>x. ListEntries A L w hints = Some x"
proof -
  obtain r1 where 1: "listEntries A L None w = Some r1" using listEntries_returns [OF assms] by blast
  obtain r2 where 2: "list_each A L (lo_Uniq (filter (\<lambda>h. h \<noteq> '''') hints)) w = Some r2"
    using list_each_returns [of _ A rank L w, OF assms] by blast
  show ?thesis unfolding ListEntries_def Let_def 1 2 by (auto split: option.split prod.split)
qed

lemma reconcile_total:
  assumes "rc_EntryClient cfg = NewEntryClient L A" "\<And>flt. list_progress A flt rank" "complete_results A" "sources_present cfg"
  shows "\<exists>w' r'. reconcile E cfg r w = Some (w', r')"
proof -
  have unsup: "\<exists>x. recalculateUnsupportFields E cfg r w = Some x" for r w
    using GetUnsupportedFields_returns [OF assms(3), of w "td_Name (rc_TrustDomain cfg)" "rc_EntryIDPrefix cfg"] assms(1)
    by (auto simp: recalculateUnsupportFields_def NewEntryClient_def split: sum.splits)
  have entries: "\<exists>x. er_listEntries E cfg r hints w = Some x" for r hints w
    using ListEntries_returns [OF assms(2), of L w hints] assms(1)
    by (auto simp: er_listEntries_def Let_def NewEntryClient_def split_beta split: option.splits sum.splits)
  obtain w1 r1 where 1: "(if er_nextGetUnsupportedFields r < ee_Now E w then recalculateUnsupportFields E cfg r w else Some (w, r)) = Some (w1, r1)"
    using unsup [of r w] by (cases "er_nextGetUnsupportedFields r < ee_Now E w") auto
  let ?statics = "if rk_ClusterStaticEntries (rc_Reconcile cfg) then listClusterStaticEntries E cfg w1 else Some (Inr [])"
  let ?sids = "if rk_ClusterSPIFFEIDs (rc_Reconcile cfg) then listClusterSPIFFEIDs cfg w1 else Some (Inr [])"
  obtain ss where ss: "?statics = Some ss"
    using assms(4) unfolding sources_present_def listClusterStaticEntries_def
    by (cases "rk_ClusterStaticEntries (rc_Reconcile cfg)"; cases "rc_K8sClient cfg"; cases "rc_StaticManifestPath cfg") simp_all
  obtain cs where cs: "?sids = Some cs" "\<not> rk_ClusterSPIFFEIDs (rc_Reconcile cfg) \<Longrightarrow> cs = Inr []"
    using assms(4) unfolding sources_present_def listClusterSPIFFEIDs_def
    by (cases "rk_ClusterSPIFFEIDs (rc_Reconcile cfg)"; cases "rc_K8sClient cfg") simp_all
  show ?thesis
  proof (cases "\<exists>s c. ss = Inr s \<and> cs = Inr c")
    case False
    then show ?thesis unfolding reconcile_def 1 option.case prod.case ss cs by (cases ss; cases cs) auto
  next
    case True
    then obtain s c where sc: "ss = Inr s" "cs = Inr c" by blast
    obtain w2 r2 res where e: "er_listEntries E cfg r1 (entryListHints cfg c s) w1 = Some (w2, r2, res)"
      using entries by (metis surj_pair)
    have "\<exists>x. reconcile_entries E cfg r2 w2 \<lparr>bs_StaticEntries = s, bs_SPIFFEIDs = c\<rparr> cur del = Some x" for cur del
      by (rule reconcile_entries_returns [OF assms(4)]) (use cs(2) sc in auto)
    then show ?thesis unfolding reconcile_def 1 option.case prod.case ss cs(1) sc sum.case e
      by (cases res) auto
  qed
qed

section \<open>Properties\<close>

text \<open>C21: a reconcile of the entries returns. When the page tokens of the server make progress, the results of the
  create RPC carry what they should, and the configuration has the sources it needs, a reconcile over the client
  of pkg/spireapi ends without a nil dereference, whatever errors and statuses the calls return.\<close>

theorem reconcile_returns:
  assumes "rc_EntryClient cfg = NewEntryClient L A" "\<And>flt. list_progress A flt rank" "complete_results A" "sources_present cfg"
  shows "\<exists>w' r'. reconcile E cfg r w = Some (w', r')"
  by (rule reconcile_total [OF assms])

text \<open>An API that acknowledges every item and stores nothing.\<close>

definition echo_api :: "mem_world EntryAPI" where
  "echo_api =
     \<lparr>rpc_ListEntries = (\<lambda>w flt tok n. (w, Inr ([], ''''))),
      rpc_BatchCreateEntry = (\<lambda>w es. (w, Inr (map (\<lambda>e. \<lparr>r_Status = Some \<lparr>api_Code = 0, api_Message = ''''\<rparr>, r_Entry = Some e\<rparr>) es))),
      rpc_BatchUpdateEntry = (\<lambda>w es. (w, Inr (map (\<lambda>e. \<lparr>r_Status = Some \<lparr>api_Code = 0, api_Message = ''''\<rparr>, r_Entry = Some e\<rparr>) es))),
      rpc_BatchDeleteEntry = (\<lambda>w ids. (w, Inr (map (\<lambda>i. Some \<lparr>api_Code = 0, api_Message = ''''\<rparr>) ids)))\<rparr>"

theorem reconcile_returns_witness:
  "\<exists>w' r'. reconcile mem_env (mem_cfg\<lparr>rc_EntryClient := NewEntryClient ref_spiffeid echo_api\<rparr>) (Reconciler mem_env mem_cfg)
     collect_world = Some (w', r')"
proof (rule reconcile_returns [where L = ref_spiffeid and A = echo_api and rank = "\<lambda>w tok. 0"])
  show "list_progress echo_api flt (\<lambda>w tok. 0)" for flt by (simp add: tokens_progress_def echo_api_def)
  show "complete_results echo_api" by (auto simp: complete_results_def echo_api_def list_all_iff)
qed (simp_all add: sources_present_def mem_cfg_def)

text \<open>The listings of a reconcile, in its order: the static entries, the ClusterSPIFFEIDs, the entries of the server and
  the nodes. One of them fails after those before it have succeeded.\<close>

definition listing_fails :: "('w, 'c) entry_env \<Rightarrow> 'w ReconcilerConfig \<Rightarrow> 'c entryReconciler \<Rightarrow> 'w \<Rightarrow> bool" where
  "listing_fails E cfg r w =
     (case (if rk_ClusterStaticEntries (rc_Reconcile cfg) then listClusterStaticEntries E cfg w else Some (Inr [])) of
        None \<Rightarrow> False
      | Some (Inl _) \<Rightarrow> True
      | Some (Inr statics) \<Rightarrow>
     (case (if rk_ClusterSPIFFEIDs (rc_Reconcile cfg) then listClusterSPIFFEIDs cfg w else Some (Inr [])) of
        None \<Rightarrow> False
      | Some (Inl _) \<Rightarrow> True
      | Some (Inr sids) \<Rightarrow>
     (case er_listEntries E cfg r (entryListHints cfg sids statics) w of
        None \<Rightarrow> False
      | Some (_, _, Inl _) \<Rightarrow> True
      | Some (w, _, Inr _) \<Rightarrow> rk_ClusterSPIFFEIDs (rc_Reconcile cfg) \<and>
          (case rc_K8sClient cfg of None \<Rightarrow> False | Some K \<Rightarrow> isl (ListNodes K w)))))"

text \<open>A configuration with other functions in place of those that carry out a plan or write a status. What does not
  change with them does not call them. The probe for unsupported fields is a function of the client of its own.\<close>

definition with_writes ::
  "('w \<Rightarrow> Entry list \<Rightarrow> 'w \<times> Status list \<times> err option) \<Rightarrow> ('w \<Rightarrow> Entry list \<Rightarrow> 'w \<times> Status list \<times> err option)
     \<Rightarrow> ('w \<Rightarrow> string list \<Rightarrow> 'w \<times> Status list \<times> err option) \<Rightarrow> ('w \<Rightarrow> crd_ClusterStaticEntry \<Rightarrow> 'w \<times> err option)
     \<Rightarrow> ('w \<Rightarrow> crd_ClusterSPIFFEID \<Rightarrow> 'w \<times> err option) \<Rightarrow> 'w ReconcilerConfig \<Rightarrow> 'w ReconcilerConfig" where
  "with_writes create update delete static sid cfg =
     cfg\<lparr>rc_EntryClient := (rc_EntryClient cfg)\<lparr>ec_CreateEntries := create, ec_UpdateEntries := update, ec_DeleteEntries := delete\<rparr>,
         rc_K8sClient := map_option (\<lambda>K. K\<lparr>k8s_UpdateStaticEntryStatus := static, k8s_UpdateSPIFFEIDStatus := sid\<rparr>) (rc_K8sClient cfg)\<rparr>"

lemma with_writes_listing:
  fixes cfg :: "'w ReconcilerConfig" and E :: "('w, 'c) entry_env"
  assumes cfg': "cfg' = with_writes create update delete static sid cfg"
  shows "recalculateUnsupportFields E cfg' r w = recalculateUnsupportFields E cfg r w"
    and "listClusterStaticEntries E cfg' w = listClusterStaticEntries E cfg w" "listClusterSPIFFEIDs cfg' w = listClusterSPIFFEIDs cfg w"
    and "er_listEntries E cfg' r hints w = er_listEntries E cfg r hints w" "entryListHints cfg' sids statics = entryListHints cfg sids statics"
    and "rc_Reconcile cfg' = rc_Reconcile cfg"
    and "rc_K8sClient cfg = Some K \<Longrightarrow> \<exists>K'. rc_K8sClient cfg' = Some K' \<and> (\<forall>w. ListNodes K' w = ListNodes K w)"
proof -
  have split: "splitEntries cfg' = splitEntries cfg"
    by (simp add: fun_eq_iff splitEntries_def shouldProcessOrDeleteEntryID_def cfg' with_writes_def cong: option.case_cong)
  show "recalculateUnsupportFields E cfg' r w = recalculateUnsupportFields E cfg r w"
    by (simp add: recalculateUnsupportFields_def cfg' with_writes_def)
  show "listClusterStaticEntries E cfg' w = listClusterStaticEntries E cfg w" "listClusterSPIFFEIDs cfg' w = listClusterSPIFFEIDs cfg w"
    by (simp_all add: listClusterStaticEntries_def listClusterSPIFFEIDs_def reconcileClass_def ListClusterStaticEntries_def
        ListClusterSPIFFEIDs_def cfg' with_writes_def split: option.split)
  show "er_listEntries E cfg' r hints w = er_listEntries E cfg r hints w"
    unfolding er_listEntries_def split by (simp add: cfg' with_writes_def)
  show "entryListHints cfg' sids statics = entryListHints cfg sids statics" "rc_Reconcile cfg' = rc_Reconcile cfg"
    by (simp_all add: entryListHints_def cfg' with_writes_def)
  show "\<exists>K'. rc_K8sClient cfg' = Some K' \<and> (\<forall>w. ListNodes K' w = ListNodes K w)" if "rc_K8sClient cfg = Some K"
    using that by (simp add: ListNodes_def cfg' with_writes_def)
qed

lemma nodes_unlisted:
  assumes "rk_ClusterSPIFFEIDs (rc_Reconcile cfg)" "rc_K8sClient cfg = Some K" "isl (ListNodes K w)"
  shows "reconcile_entries E cfg r w store cur del = Some (w, r\<lparr>er_StaticEntryFailures := er_StaticEntryFailures r +
    (if rk_ClusterStaticEntries (rc_Reconcile cfg) then
       fst (addClusterStaticEntryEntriesState E (foldl (AddCurrent (env_libs E)) [] cur) store) else 0)\<rparr>)"
  using assms by (auto simp: reconcile_entries_def collect_def buildNodeMap_def Let_def split_beta isl_def)

text \<open>Up to the plan, a reconcile that is given other functions to write with is the same.\<close>

lemma reconcile_with_writes:
  assumes probe: "(if er_nextGetUnsupportedFields r < ee_Now E w then recalculateUnsupportFields E cfg r w else Some (w, r)) = Some (w1, r1)"
    and cfg': "cfg' = cfg \<or> cfg' = with_writes create update delete static sid cfg"
  shows "reconcile E cfg' r w =
    (case (if rk_ClusterStaticEntries (rc_Reconcile cfg) then listClusterStaticEntries E cfg w1 else Some (Inr [])) of
       None \<Rightarrow> None | Some (Inl e) \<Rightarrow> Some (w1, r1) | Some (Inr ss) \<Rightarrow>
      (case (if rk_ClusterSPIFFEIDs (rc_Reconcile cfg) then listClusterSPIFFEIDs cfg w1 else Some (Inr [])) of
         None \<Rightarrow> None | Some (Inl e) \<Rightarrow> Some (w1, r1) | Some (Inr cs) \<Rightarrow>
        (case er_listEntries E cfg r1 (entryListHints cfg cs ss) w1 of None \<Rightarrow> None
         | Some (w, r, Inl e) \<Rightarrow> Some (w, r)
         | Some (w, r, Inr (cur, del)) \<Rightarrow>
            reconcile_entries E cfg' r w \<lparr>bs_StaticEntries = ss, bs_SPIFFEIDs = cs\<rparr> cur del)))"
proof -
  have eqs: "recalculateUnsupportFields E cfg' r w = recalculateUnsupportFields E cfg r w"
    "listClusterStaticEntries E cfg' w1 = listClusterStaticEntries E cfg w1" "listClusterSPIFFEIDs cfg' w1 = listClusterSPIFFEIDs cfg w1"
    "er_listEntries E cfg' r1 hints w1 = er_listEntries E cfg r1 hints w1" "entryListHints cfg' cs ss = entryListHints cfg cs ss"
    "rc_Reconcile cfg' = rc_Reconcile cfg" for hints cs ss
    using cfg' with_writes_listing(1-6) by metis+
  show ?thesis unfolding reconcile_def eqs(1) probe option.case prod.case eqs ..
qed

lemma nodes_unlisted_writes:
  assumes "rk_ClusterSPIFFEIDs (rc_Reconcile cfg)" "rc_K8sClient cfg = Some K" "isl (ListNodes K w)"
    and cfg': "cfg' = cfg \<or> cfg' = with_writes create update delete static sid cfg"
  shows "reconcile_entries E cfg' r w store cur del = Some (w, r\<lparr>er_StaticEntryFailures := er_StaticEntryFailures r +
    (if rk_ClusterStaticEntries (rc_Reconcile cfg) then
       fst (addClusterStaticEntryEntriesState E (foldl (AddCurrent (env_libs E)) [] cur) store) else 0)\<rparr>)"
proof -
  have same: "rc_Reconcile cfg' = rc_Reconcile cfg" using cfg' with_writes_listing(6) by metis
  obtain K' where "rc_K8sClient cfg' = Some K'" "isl (ListNodes K' w)"
    using cfg' assms(2,3) with_writes_listing(7) [OF _ assms(2)] by metis
  then show ?thesis using nodes_unlisted [of cfg' K' w E r store cur del] assms(1) same by simp
qed

text \<open>How a reconcile ends when a listing fails, also when it is given other functions to write with.\<close>

lemma listing_fails_ends:
  assumes probe: "(if er_nextGetUnsupportedFields r < ee_Now E w then recalculateUnsupportFields E cfg r w else Some (w, r)) = Some (w1, r1)"
    and fails: "listing_fails E cfg r1 w1"
  obtains w' r' r2 n where "reconcile E cfg r w = Some (w', r')"
    "\<forall>create update delete static sid. reconcile E (with_writes create update delete static sid cfg) r w = Some (w', r')"
    "r' = r2\<lparr>er_StaticEntryFailures := n\<rparr>" "(w', r2) = (w1, r1) \<or> (\<exists>hints res. er_listEntries E cfg r1 hints w1 = Some (w', r2, res))"
proof -
  note ends = reconcile_with_writes [OF probe disjI1 [OF refl]] reconcile_with_writes [OF probe disjI2 [OF refl]]
  note [simp] = ends
  obtain ss where ss: "(if rk_ClusterStaticEntries (rc_Reconcile cfg) then listClusterStaticEntries E cfg w1 else Some (Inr [])) = Some ss"
    using fails unfolding listing_fails_def by (auto split: option.splits)
  show thesis
  proof (cases ss)
    case (Inl e)
    show thesis by (rule that [of w1 r1 "er_StaticEntryFailures r1" r1]) (simp_all add: ss Inl)
  next
    case statics: (Inr statics)
    obtain cs where cs: "(if rk_ClusterSPIFFEIDs (rc_Reconcile cfg) then listClusterSPIFFEIDs cfg w1 else Some (Inr [])) = Some cs"
      using fails unfolding listing_fails_def ss statics option.case sum.case by (auto split: option.splits)
    show thesis
    proof (cases cs)
      case (Inl e)
      show thesis by (rule that [of w1 r1 "er_StaticEntryFailures r1" r1]) (simp_all add: ss statics cs Inl)
    next
      case sids: (Inr sids)
      note listed = ss statics cs sids option.case sum.case prod.case
      obtain w2 r2 res where l: "er_listEntries E cfg r1 (entryListHints cfg sids statics) w1 = Some (w2, r2, res)"
        using fails unfolding listing_fails_def listed by (auto split: option.splits)
      show thesis
      proof (cases res)
        case (Inl e)
        show thesis by (rule that [of w2 r2 "er_StaticEntryFailures r2" r2]) (use l in \<open>auto simp: listed Inl\<close>)
      next
        case (Inr lists)
        obtain cur del where lists: "lists = (cur, del)" by (cases lists)
        obtain K where K: "rk_ClusterSPIFFEIDs (rc_Reconcile cfg)" "rc_K8sClient cfg = Some K" "isl (ListNodes K w2)"
          using fails unfolding listing_fails_def listed l Inr by (auto split: option.splits)
        note nodes = nodes_unlisted_writes [OF K disjI1 [OF refl]] nodes_unlisted_writes [OF K disjI2 [OF refl]]
        show thesis unfolding ends listed l Inr lists nodes by (rule that [unfolded ends listed l Inr lists nodes]) (use l in auto)
      qed
    qed
  qed
qed

text \<open>C22: a reconcile gives up when something cannot be listed. The probe for unsupported fields comes first, when it
  is due, and creates and deletes an entry of its own. If then the static entries, the ClusterSPIFFEIDs, the
  entries of the server or the nodes cannot be listed, the reconcile ends, and none of the functions that delete,
  create or update entries or write a status has been used: with any others in their place it ends in the same
  world and state. That world is the one after the probe, or the one that listing the entries of the server
  from there has left. No UUID has been drawn, and the render cache is as it was.\<close>

theorem listing_error_aborts:
  assumes "(if er_nextGetUnsupportedFields r < ee_Now E w then recalculateUnsupportFields E cfg r w else Some (w, r)) = Some (w1, r1)"
    and "listing_fails E cfg r1 w1"
  shows "\<exists>w' r'. reconcile E cfg r w = Some (w', r') \<and>
    (\<forall>create update delete static sid. reconcile E (with_writes create update delete static sid cfg) r w = Some (w', r')) \<and>
    (w' = w1 \<or> (\<exists>hints res. ec_ListEntries (rc_EntryClient cfg) w1 hints = Some (w', res))) \<and>
    er_UUIDs r' = er_UUIDs r \<and> er_renderCache r' = er_renderCache r \<and> er_unsupportedFields r' = er_unsupportedFields r1"
proof -
  obtain w' r' r2 n where ends: "reconcile E cfg r w = Some (w', r')"
    "\<forall>create update delete static sid. reconcile E (with_writes create update delete static sid cfg) r w = Some (w', r')"
    "r' = r2\<lparr>er_StaticEntryFailures := n\<rparr>" "(w', r2) = (w1, r1) \<or> (\<exists>hints res. er_listEntries E cfg r1 hints w1 = Some (w', r2, res))"
    by (rule listing_fails_ends [OF assms])
  have r1: "er_UUIDs r1 = er_UUIDs r \<and> er_renderCache r1 = er_renderCache r"
    using assms(1) by (auto simp: recalculateUnsupportFields_def split: if_splits option.splits sum.splits prod.splits)
  have listed: "(w' = w1 \<or> (\<exists>res. ec_ListEntries (rc_EntryClient cfg) w1 hints = Some (w', res))) \<and>
      er_UUIDs r2 = er_UUIDs r1 \<and> er_renderCache r2 = er_renderCache r1 \<and> er_unsupportedFields r2 = er_unsupportedFields r1"
    if "er_listEntries E cfg r1 hints w1 = Some (w', r2, res)" for hints res
    using that by (auto simp: er_listEntries_def Let_def split_beta split: option.splits sum.splits if_splits)
  with ends r1 show ?thesis by (intro exI [of _ w'] exI [of _ r']) auto
qed

text \<open>The nodes cannot be listed in the first reconcile, for which the probe is due.\<close>

definition unlistable_cfg :: "mem_world ReconcilerConfig" where
  "unlistable_cfg = mem_cfg\<lparr>rc_K8sClient := Some (mem_k8s\<lparr>k8s_ListNode := (\<lambda>w opts. Inl (Err ''unavailable''))\<rparr>)\<rparr>"

theorem listing_error_aborts_witness:
  "\<exists>r'. reconcile mem_env unlistable_cfg (Reconciler mem_env mem_cfg) sample_world = Some (sample_world, r') \<and>
     reconcile mem_env (with_writes (\<lambda>w es. (w\<lparr>m_entries := []\<rparr>, [], None)) (\<lambda>w es. (w\<lparr>m_entries := []\<rparr>, [], None))
       (\<lambda>w ids. (w\<lparr>m_entries := []\<rparr>, [], None)) (\<lambda>w c. (w\<lparr>m_static := []\<rparr>, None)) (\<lambda>w c. (w\<lparr>m_static := []\<rparr>, None)) unlistable_cfg)
       (Reconciler mem_env mem_cfg) sample_world = Some (sample_world, r')"
proof -
  let ?r = "Reconciler mem_env mem_cfg"
  let ?r1 = "?r\<lparr>er_unsupportedFields := {}, er_nextGetUnsupportedFields := 1000 + 10 * Minute\<rparr>"
  have probe: "(if er_nextGetUnsupportedFields ?r < ee_Now mem_env sample_world then recalculateUnsupportFields mem_env unlistable_cfg ?r sample_world
      else Some (sample_world, ?r)) = Some (sample_world, ?r1)"
    by (simp add: Reconciler_def mem_env_def sample_world_def recalculateUnsupportFields_def unlistable_cfg_def mem_cfg_def mem_client_def time_zero_def Second_def)
  have "listing_fails mem_env unlistable_cfg ?r1 sample_world" by code_simp
  from listing_error_aborts [OF probe this] show ?thesis
    by (auto simp: unlistable_cfg_def mem_cfg_def mem_client_def)
qed

subsection \<open>The reconcile loop of the entries\<close>

locale entry_loop =
  fixes E :: "('w, 'c) entry_env" and content :: "'c \<Rightarrow> (string \<times> cachedEntry) set" and cfg :: "'w ReconcilerConfig"
  assumes lossy: "lru_lossy (ee_lru E) content"

text \<open>The world of the loop is the world of the reconcile and the state of the reconciler, which no one else changes.\<close>

abbreviation entry_action :: "('w, 'c) entry_env \<Rightarrow> 'w ReconcilerConfig \<Rightarrow> 'w \<times> 'c entryReconciler \<Rightarrow> ('w \<times> 'c entryReconciler) option" where
  "entry_action E cfg \<equiv> \<lambda>(w, r). reconcile E cfg r w"

text \<open>The loop that \<open>spireentry.Reconciler\<close> returns; its world includes the state of the reconciler.\<close>

definition entry_Config :: "('w, 'c) entry_env \<Rightarrow> 'w ReconcilerConfig \<Rightarrow> Duration \<Rightarrow> ('w \<times> 'c entryReconciler) Config" where
  "entry_Config E cfg gcInterval = \<lparr>cf_Reconcile = entry_action E cfg, cf_GCInterval = gcInterval\<rparr>"

abbreviation others :: "'w \<times> 'c entryReconciler \<Rightarrow> 'w \<times> 'c entryReconciler \<Rightarrow> bool" where
  "others wr wr' \<equiv> snd wr' = snd wr"

abbreviation render_ok :: "('c \<Rightarrow> (string \<times> cachedEntry) set) \<Rightarrow> 'w \<times> 'c entryReconciler \<Rightarrow> bool" where
  "render_ok content wr \<equiv> uids_ok content (er_renderCache (snd wr))"

sublocale entry_loop \<subseteq> reconcile_action "render_ok content" "render_ok content" "entry_action E cfg" others
  by unfold_locales (auto intro: reconcile_render [OF lossy])

context entry_loop
begin

lemma action: "reconcile_action (render_ok content) (render_ok content) (entry_action E cfg) others"
  by (rule reconcile_action_axioms)

end

interpretation mem_loop: entry_loop mem_env mem_content cfg for cfg :: "mem_world ReconcilerConfig"
  by unfold_locales (rule collect_sample(1))

lemma Reconciler_render_ok: "lru_lossy (ee_lru E) content \<Longrightarrow> uids_ok content (er_renderCache (Reconciler E cfg))"
  by (auto simp: Reconciler_def uids_ok_def lru_lossy_def split: sum.splits)

text \<open>Over every execution of the reconcile loop, with triggers, timers, changes of the world by others and the
  end of the context in any order, every entry of the render cache is one without an ID that selects the pod
  whose UID it is stored under.\<close>

lemma entry_loop_render_cache:
  assumes "lru_lossy (ee_lru E) content" "runs (entry_Config E cfg gc) others (New (w, Reconciler E cfg) now) es s"
  shows "uids_ok content (er_renderCache (snd (lp_world s)))"
proof -
  have "entry_loop E content" by (rule entry_loop.intro [OF assms(1)])
  from reconcile_action.loop_inv [OF entry_loop.action [OF this] assms(2)] Reconciler_render_ok [OF assms(1)]
  show ?thesis by (simp add: entry_Config_def)
qed

end
