(* ===== verification/Entry_Calls.thy ===== *)
theory Entry_Calls
  imports Entry_Server Reconciler_Run
begin

section \<open>Carrying out a plan on the server\<close>

text \<open>
  What the plan of a reconcile asks of the server, and what a server that keeps its contract does
  with it: no entry is deleted or updated twice, what is updated is there and is not deleted, what
  is created has an ID and a key of its own, so that every call succeeds, and the entry list cache
  follows.
\<close>

subsection \<open>What the plan asks of the server\<close>

lemma distinct_by_key: "(\<And>k. distinct (filter (\<lambda>x. f x = k) xs)) \<Longrightarrow> distinct xs"
proof (induction xs)
  case (Cons x xs)
  have "distinct (filter (\<lambda>y. f y = k) xs)" for k using Cons.prems [of k] by (simp split: if_splits)
  then show ?case using Cons.IH Cons.prems [of "f x"] by simp
qed simp

lemma distinct_keys: "(\<And>k. length (filter (\<lambda>x. f x = k) xs) \<le> 1) \<Longrightarrow> distinct (map f xs)"
proof (induction xs)
  case (Cons x xs)
  have "length (filter (\<lambda>y. f y = k) xs) \<le> 1" for k using Cons.prems [of k] by (simp split: if_splits)
  moreover have "filter (\<lambda>y. f y = f x) xs = []" using Cons.prems [of "f x"] by simp
  ultimately show ?case using Cons.IH by (auto simp: filter_empty_conv)
qed simp

lemma distinct_sorted_wrt: "distinct (map f xs) \<Longrightarrow> (\<And>a b. R a b \<Longrightarrow> f a = f b) \<Longrightarrow> sorted_wrt (\<lambda>a b. \<not> R a b) xs"
  by (induction xs) (auto simp: image_iff)

lemma distinct_ids: "distinct (map e_ID es) \<Longrightarrow> a \<in> set es \<Longrightarrow> b \<in> set es \<Longrightarrow> e_ID a = e_ID b \<Longrightarrow> a = b"
  by (auto simp: distinct_map inj_on_def)

text \<open>The plan of a reconcile, for the entries \<open>es\<close> of the server.\<close>

definition plan_of ::
  "entry_libs \<Rightarrow> spiffeid_lib \<Rightarrow> Field set \<Rightarrow> 'w ReconcilerConfig \<Rightarrow> (nat \<Rightarrow> string) \<Rightarrow> nat \<Rightarrow> Entry list \<Rightarrow> declaredEntry list \<Rightarrow> plan \<Rightarrow> bool" where
  "plan_of H L U cfg uuid n es ds p \<longleftrightarrow>
     (\<exists>st kvs store. state_matches H st (filter (processed cfg) es) ds \<and> ranges_over kvs st \<and>
        p = makePlan L (rc_EntryIDPrefix cfg) uuid U store n (map snd kvs) (filter (cleaned_up cfg) es))"

lemma plan_of_from: "plan_of H L U cfg uuid n es ds p \<Longrightarrow> plan_from L H U (filter (processed cfg) es) ds (filter (cleaned_up cfg) es) p"
  unfolding plan_of_def plan_from_def by blast

lemma plan_deletes:
  assumes "plan_of H L U cfg uuid n es ds p" "distinct (map e_ID es)"
  shows "distinct (idsFromEntries (pl_toDelete p))" "set (idsFromEntries (pl_toDelete p)) \<subseteq> e_ID ` set es"
proof -
  let ?cs = "filter (processed cfg) es" and ?del = "filter (cleaned_up cfg) es"
  obtain st kvs where s: "state_matches H st ?cs ds" "ranges_over kvs st"
    and p: "pl_toDelete p = concat (map key_deletes (map snd kvs)) @ ?del"
    using assms(1) by (auto simp: plan_of_def makePlan_plan)
  have es: "distinct es" "distinct ?cs" using assms(2) by (auto simp: distinct_map)
  have "distinct (filter (\<lambda>e. makeEntryKey H e = k) (concat (map key_deletes (map snd kvs))))" for k
    unfolding plan_at_key(1) [OF s] using es(1) by (auto simp: key_deletes_def filterJoinTokenEntries_def intro!: distinct_tl distinct_filter)
  then have "distinct (concat (map key_deletes (map snd kvs)))"
    by (rule distinct_by_key)
  moreover have from_: "x \<in> set ?cs" if "x \<in> set (concat (map key_deletes (map snd kvs)))" for x
  proof -
    have "x \<in> set (key_deletes (at_key H (makeEntryKey H x) ?cs ds))"
      unfolding plan_at_key(1) [OF s, symmetric] using that by simp
    then show ?thesis using key_deletes_at by blast
  qed
  then have "set (concat (map key_deletes (map snd kvs))) \<inter> set ?del = {}" by (auto simp: cleaned_up_iff simp del: set_concat)
  ultimately have "distinct (pl_toDelete p)" using es(1) by (simp only: p distinct_append) simp
  moreover have sub: "set (pl_toDelete p) \<subseteq> set es" using from_ unfolding p set_append by auto
  ultimately show "distinct (idsFromEntries (pl_toDelete p))" "set (idsFromEntries (pl_toDelete p)) \<subseteq> e_ID ` set es"
    using distinct_ids [OF assms(2)] by (auto simp: idsFromEntries_def distinct_map inj_on_def)
qed

text \<open>Updates go to entries that are not deleted, one to each.\<close>

lemma plan_updates:
  assumes "plan_of H L U cfg uuid n es ds p" "distinct (map e_ID es)"
  defines "us \<equiv> entriesFromDeclaredEntries (pl_toUpdate p)"
  shows "distinct (map e_ID us)" "e_ID ` set us \<subseteq> e_ID ` set (apply_deletes (idsFromEntries (pl_toDelete p)) es)"
    and "\<And>u. u \<in> set us \<Longrightarrow> \<exists>d\<in>set ds. \<exists>c\<in>set es. processed cfg c \<and> u = (de_Entry d)\<lparr>e_ID := e_ID c\<rparr>"
proof -
  let ?cs = "filter (processed cfg) es"
  note from_ = plan_of_from [OF assms(1)] and cs = distinct_map_filter_ids [OF assms(2)]
  obtain st kvs where s: "state_matches H st ?cs ds" "ranges_over kvs st"
    and p: "pl_toUpdate p = concat (map (key_updates L U) (map snd kvs))"
    using assms(1) by (auto simp: plan_of_def makePlan_plan)
  have "length (key_updates L U (at_key H k ?cs ds)) \<le> 1" for k by (simp add: key_updates_def)
  then have "distinct (map (\<lambda>d. makeEntryKey H (de_Entry d)) (pl_toUpdate p))"
    unfolding p by (intro distinct_keys) (simp only: plan_at_key(3) [OF s])
  then have keys: "distinct (map (makeEntryKey H) us)" by (simp add: us_def entriesFromDeclaredEntries_def comp_def)
  have u: "\<exists>c. c \<in> set ?cs \<and> makeEntryKey H c = makeEntryKey H u \<and> e_ID u = e_ID c \<and> c = hd (current_at H (makeEntryKey H u) ?cs) \<and>
      declared_at H (makeEntryKey H u) ds \<noteq> [] \<and> u = de_Entry (adopt (preferred (declared_at H (makeEntryKey H u) ds)) c)"
    if "u \<in> set us" for u
  proof -
    from plan_from_update [OF from_ that [unfolded us_def]] obtain c k where c: "c \<in> set ?cs" "makeEntryKey H c = k" "e_ID u = e_ID c"
      "c = hd (current_at H k ?cs)" "declared_at H k ds \<noteq> []" "u = de_Entry (adopt (preferred (declared_at H k ds)) c)" by blast
    have "makeEntryKey H u = k" unfolding c(6) using preferred_at [OF c(5)] by (simp add: adopt_def)
    with c show ?thesis by (intro exI [of _ c]) simp
  qed
  have "u = v" if "u \<in> set us" "v \<in> set us" "e_ID u = e_ID v" for u v
  proof -
    have "makeEntryKey H u = makeEntryKey H v" using u [OF that(1)] u [OF that(2)] that(3) distinct_ids [OF cs] by metis
    with keys that show ?thesis by (auto simp: distinct_map inj_on_def)
  qed
  with keys show "distinct (map e_ID us)" by (auto simp: distinct_map inj_on_def)
  show "e_ID ` set us \<subseteq> e_ID ` set (apply_deletes (idsFromEntries (pl_toDelete p)) es)"
  proof
    fix i
    assume "i \<in> e_ID ` set us"
    then have "i \<in> e_ID ` set (apply_deletes (idsFromEntries (pl_toDelete p)) ?cs)"
      using plan_from_update_kept [OF from_ cs split_ids_disjoint] unfolding us_def by blast
    then show "i \<in> e_ID ` set (apply_deletes (idsFromEntries (pl_toDelete p)) es)" by (auto simp: apply_deletes_def)
  qed
  show "\<exists>d\<in>set ds. \<exists>c\<in>set es. processed cfg c \<and> u = (de_Entry d)\<lparr>e_ID := e_ID c\<rparr>" if "u \<in> set us" for u
    using u [OF that] preferred_at [of H "makeEntryKey H u" ds] by (auto simp: adopt_def)
qed

text \<open>Created entries have fresh IDs, and keys of their own.\<close>

lemma assign_ids_prefix:
  assumes "\<forall>d\<in>set ds. e_ID (de_Entry d) = ''''" "pfx \<noteq> ''''"
  shows "map (\<lambda>d. e_ID (de_Entry d)) (assign_ids pfx uuid n ds) = map (\<lambda>m. pfx @ uuid m) [n..<n + draws pfx ds]"
  using assms
proof (induction ds arbitrary: n)
  case (Cons d ds)
  then show ?case by (simp add: draws_def upt_conv_Cons del: upt_Suc)
qed (simp add: draws_def)

lemma assign_ids_keys [simp]:
  "map (\<lambda>d. makeEntryKey H (de_Entry d)) (assign_ids pfx uuid n ds) = map (\<lambda>d. makeEntryKey H (de_Entry d)) ds"
  by (induction ds arbitrary: n) auto

lemma assign_ids_from:
  assumes "x \<in> set (assign_ids pfx uuid n ds)"
  obtains d i where "d \<in> set ds" "de_Entry x = (de_Entry d)\<lparr>e_ID := i\<rparr>"
  using list_all2_right_elem [OF assign_ids_rel assms] that by auto

lemma makePlan_UUIDs: "pl_UUIDs (makePlan L pfx uuid U st n ss del) = n + draws pfx (concat (map key_creates ss))"
  by (simp add: makePlan_def Let_def foldl_planStep)

lemma plan_creates_from:
  assumes "plan_of H L U cfg uuid n es ds p" "\<forall>d\<in>set ds. e_ID (de_Entry d) = ''''"
  defines "news \<equiv> entriesFromDeclaredEntries (pl_toCreate p)"
  shows "distinct (map (makeEntryKey H) news)"
    and "rc_EntryIDPrefix cfg = '''' \<Longrightarrow> list_all (\<lambda>e. e_ID e = '''') news \<and> pl_UUIDs p = n"
    and "rc_EntryIDPrefix cfg \<noteq> '''' \<Longrightarrow> map e_ID news = map (\<lambda>m. rc_EntryIDPrefix cfg @ uuid m) [n..<pl_UUIDs p]"
    and "\<And>u. u \<in> set news \<Longrightarrow> \<exists>d\<in>set ds. current_at H (makeEntryKey H u) (filter (processed cfg) es) = [] \<and>
      declared_at H (makeEntryKey H u) ds \<noteq> [] \<and> (\<exists>i. u = (de_Entry d)\<lparr>e_ID := i\<rparr>)"
proof -
  let ?cs = "filter (processed cfg) es" and ?pfx = "rc_EntryIDPrefix cfg"
  obtain st kvs store where s: "state_matches H st ?cs ds" "ranges_over kvs st"
    and p: "p = makePlan L ?pfx uuid U store n (map snd kvs) (filter (cleaned_up cfg) es)"
    using assms(1) by (auto simp: plan_of_def)
  let ?cr = "concat (map key_creates (map snd kvs))"
  have news: "news = map de_Entry (assign_ids ?pfx uuid n ?cr)"
    by (simp add: news_def entriesFromDeclaredEntries_def p makePlan_plan)
  have "length (key_creates (at_key H k ?cs ds)) \<le> 1" for k by (simp add: key_creates_def)
  then have "distinct (map (\<lambda>d. makeEntryKey H (de_Entry d)) ?cr)"
    by (intro distinct_keys) (simp only: plan_at_key(2) [OF s])
  then have "distinct (map (\<lambda>d. makeEntryKey H (de_Entry d)) (assign_ids ?pfx uuid n ?cr))" unfolding assign_ids_keys .
  then show "distinct (map (makeEntryKey H) news)" by (simp add: news comp_def)
  have cr: "d \<in> set ds \<and> current_at H (makeEntryKey H (de_Entry d)) ?cs = []" if "d \<in> set ?cr" for d
  proof -
    have "d \<in> set (key_creates (at_key H (makeEntryKey H (de_Entry d)) ?cs ds))"
      unfolding plan_at_key(2) [OF s, symmetric] using that by simp
    then show ?thesis using key_creates_at [of d H] by (metis empty_iff entryState.select_convs(1) key_creates_def list.set(1))
  qed
  have noid: "\<forall>d\<in>set ?cr. e_ID (de_Entry d) = ''''" using cr assms(2) by blast
  show "list_all (\<lambda>e. e_ID e = '''') news \<and> pl_UUIDs p = n" if "?pfx = ''''"
  proof -
    have "assign_ids '''' uuid n xs = xs" for xs by (induction xs arbitrary: n) auto
    then show ?thesis using that noid by (auto simp: news p makePlan_UUIDs draws_def list_all_iff simp del: set_concat)
  qed
  show "map e_ID news = map (\<lambda>m. ?pfx @ uuid m) [n..<pl_UUIDs p]" if "?pfx \<noteq> ''''"
    using assign_ids_prefix [OF noid that] by (simp add: news p makePlan_UUIDs comp_def)
  show "\<exists>d\<in>set ds. current_at H (makeEntryKey H u) ?cs = [] \<and> declared_at H (makeEntryKey H u) ds \<noteq> [] \<and>
      (\<exists>i. u = (de_Entry d)\<lparr>e_ID := i\<rparr>)" if u: "u \<in> set news" for u
  proof -
    obtain x where x: "x \<in> set (assign_ids ?pfx uuid n ?cr)" "u = de_Entry x" using u unfolding news set_map by blast
    from x(1) obtain d i where d: "d \<in> set ?cr" "de_Entry x = (de_Entry d)\<lparr>e_ID := i\<rparr>" by (rule assign_ids_from)
    note d = d(1) d(2) [folded x(2)]
    then have "declared_at H (makeEntryKey H u) ds \<noteq> []" using cr [OF d(1)] by (auto simp: filter_empty_conv)
    with cr [OF d(1)] d(2) show ?thesis by auto
  qed
qed

lemma plan_creates_named:
  assumes "plan_of H L U cfg uuid n es ds p" "\<forall>d\<in>set ds. e_ID (de_Entry d) = ''''" "rc_EntryIDPrefix cfg \<noteq> ''''"
  shows "list_all (\<lambda>e. e_ID e \<noteq> '''') (entriesFromDeclaredEntries (pl_toCreate p))"
proof -
  have "'''' \<notin> set (map e_ID (entriesFromDeclaredEntries (pl_toCreate p)))"
    unfolding plan_creates_from(3) [OF assms] using assms(3) by auto
  then show ?thesis by (simp add: list_all_iff image_iff) metis
qed

lemma plan_creates:
  assumes plan: "plan_of H L U cfg uuid n es ds p" and noid: "\<forall>d\<in>set ds. e_ID (de_Entry d) = ''''"
    and uuid: "inj uuid" "rc_EntryIDPrefix cfg \<noteq> '''' \<Longrightarrow> \<forall>m\<ge>n. rc_EntryIDPrefix cfg @ uuid m \<notin> e_ID ` set es"
    and foreign: "\<forall>e\<in>set es. shouldProcessOrDeleteEntryID cfg e = (False, False) \<longrightarrow> declared_at H (makeEntryKey H e) ds = []"
  defines "news \<equiv> entriesFromDeclaredEntries (pl_toCreate p)"
  shows "creatable (apply_deletes (idsFromEntries (pl_toDelete p)) es) news"
proof -
  let ?V = "apply_deletes (idsFromEntries (pl_toDelete p)) es" and ?pfx = "rc_EntryIDPrefix cfg"
  note from_ = plan_creates_from [OF plan noid, folded news_def]
  have "list_all (\<lambda>e. e_ID e = '''') news \<or>
      distinct (map e_ID news) \<and> list_all (\<lambda>e. e_ID e \<noteq> '''' \<and> e_ID e \<notin> e_ID ` set ?V) news"
  proof (cases "?pfx = ''''")
    case False
    have "distinct (map e_ID news)" unfolding from_(3) [OF False] using uuid(1) by (auto simp: distinct_map inj_on_def)
    moreover have "\<exists>m\<ge>n. e_ID e = ?pfx @ uuid m" if "e \<in> set news" for e
    proof -
      have "e_ID e \<in> set (map e_ID news)" using that by simp
      then show ?thesis unfolding from_(3) [OF False] by auto
    qed
    moreover have "e_ID ` set ?V \<subseteq> e_ID ` set es" by (auto simp: apply_deletes_def)
    ultimately have "list_all (\<lambda>e. e_ID e \<noteq> '''' \<and> e_ID e \<notin> e_ID ` set ?V) news"
      using uuid(2) [OF False] False unfolding list_all_iff by (metis append_is_Nil_conv subsetD)
    with \<open>distinct (map e_ID news)\<close> show ?thesis by simp
  qed (use from_(2) in simp)
  moreover have "sorted_wrt (\<lambda>a b. \<not> same_identity a b) news"
    by (rule distinct_sorted_wrt [OF from_(1) same_identity_key])
  moreover have "\<not> same_identity u v" if u: "u \<in> set news" and v: "v \<in> set ?V" for u v
  proof
    assume "same_identity u v"
    then have key: "makeEntryKey H v = makeEntryKey H u" using same_identity_key by metis
    have "v \<in> set es" "\<not> cleaned_up cfg v"
      using v plan by (auto simp: apply_deletes_def idsFromEntries_def plan_of_def makePlan_plan)
    then have "processed cfg v" using foreign from_(4) [OF u] key by (auto simp: foreign_iff)
    with \<open>v \<in> set es\<close> from_(4) [OF u] key show False by (auto simp: filter_empty_conv)
  qed
  ultimately show ?thesis by (auto simp: creatable_def list_all_iff)
qed

subsection \<open>Successful calls\<close>

text \<open>The entries of the server by ID, as the entry list cache mirrors them.\<close>

definition by_id :: "Entry list \<Rightarrow> string \<Rightarrow> Entry option" where
  "by_id V i = find (\<lambda>e. e_ID e = i) V"

lemma by_id_Some: "distinct (map e_ID V) \<Longrightarrow> by_id V i = Some e \<longleftrightarrow> e \<in> set V \<and> e_ID e = i"
  unfolding by_id_def by (induction V) auto

lemma by_id_eqI:
  assumes "distinct (map e_ID V)" "\<And>i e. f i = Some e \<longleftrightarrow> e \<in> set V \<and> e_ID e = i"
  shows "by_id V = f"
  by (rule ext, rule option_ext) (simp add: by_id_Some [OF assms(1)] assms(2))

lemma by_id_cong: "distinct (map e_ID V) \<Longrightarrow> mset V' = mset V \<Longrightarrow> by_id V' = by_id V"
  using mset_eq_imp_distinct_iff [of "map e_ID V'" "map e_ID V"] mset_eq_setD [of V' V]
  by (intro by_id_eqI) (simp_all add: by_id_Some)

lemma foldl_remove: "foldl remove_entry v is i = (if i \<in> set is then None else v i)"
  by (induction "is" arbitrary: v) (auto simp: remove_entry_def)

lemma foldl_put:
  "distinct (map e_ID es) \<Longrightarrow> foldl put_entry v es i = (case by_id es i of None \<Rightarrow> v i | Some e \<Rightarrow> Some (stored e))"
proof (induction es arbitrary: v)
  case (Cons e es)
  then have "by_id es (e_ID e) = None" by (simp add: by_id_def find_None_iff) (metis image_eqI)
  with Cons show ?case by (auto simp: put_entry_def by_id_def split: option.split)
qed (simp add: by_id_def)

lemma ok_items_all: "all_ok (length xs) sts \<Longrightarrow> ok_items step v (zip xs sts) = foldl step v xs"
proof (induction xs arbitrary: v sts)
  case (Cons x xs)
  then obtain st sts' where "sts = st # sts'" by (cases sts) (auto simp: all_ok_def)
  with Cons show ?case by (simp add: ok_items_def)
qed (simp add: ok_items_def)

lemma by_id_deletes:
  assumes "distinct (map e_ID V)" "mset V' = mset (apply_deletes is V)"
  shows "by_id V' = foldl remove_entry (by_id V) is"
proof -
  have "distinct (map e_ID (apply_deletes is V))" using assms(1) by (simp add: apply_deletes_def distinct_map_filter_ids)
  then have "by_id V' = by_id (apply_deletes is V)" using assms(2) by (rule by_id_cong)
  also have "\<dots> = foldl remove_entry (by_id V) is"
    using assms(1) by (intro by_id_eqI) (auto simp: foldl_remove by_id_Some apply_deletes_def distinct_map_filter_ids)
  finally show ?thesis .
qed

lemma apply_update_by_id: "apply_update us c = (case by_id us (e_ID c) of None \<Rightarrow> c | Some u \<Rightarrow> stored u)"
  by (simp add: apply_update_def by_id_def)

lemma by_id_updates:
  assumes "distinct (map e_ID V)" "distinct (map e_ID us)" "e_ID ` set us \<subseteq> e_ID ` set V"
    and "mset V' = mset (map (apply_update us) V)"
  shows "by_id V' = foldl put_entry (by_id V) us"
proof -
  have d: "distinct (map e_ID (map (apply_update us) V))" using assms(1) by (simp add: comp_def apply_update_ID)
  then have "by_id V' = by_id (map (apply_update us) V)" using assms(4) by (rule by_id_cong)
  also have "\<dots> = foldl put_entry (by_id V) us"
  proof (rule by_id_eqI [OF d])
    fix i e
    show "foldl put_entry (by_id V) us i = Some e \<longleftrightarrow> e \<in> set (map (apply_update us) V) \<and> e_ID e = i"
    proof (cases "by_id us i")
      case None
      then have "apply_update us c = c" if "e_ID c = i" for c using that by (simp add: apply_update_by_id)
      with None show ?thesis
        by (auto simp: foldl_put [OF assms(2)] by_id_Some [OF assms(1)] apply_update_ID intro: rev_image_eqI)
    next
      case (Some u)
      then have u: "u \<in> set us" "e_ID u = i" by (auto simp: by_id_Some [OF assms(2)])
      then obtain c where "c \<in> set V" "e_ID c = i" using assms(3) by force
      moreover have "apply_update us c = stored u" if "e_ID c = i" for c using that Some by (simp add: apply_update_by_id)
      ultimately show ?thesis using Some u(2)
        by (auto simp: foldl_put [OF assms(2)] apply_update_ID intro: rev_image_eqI)
    qed
  qed
  finally show ?thesis .
qed

lemma created_stored:
  "list_all2 created_as es new \<Longrightarrow> list_all (\<lambda>e. e_ID e \<noteq> '''') es \<Longrightarrow> new = map stored es"
  by (induction rule: list_all2_induct) (auto simp: created_as_def)

lemma by_id_creates:
  assumes "distinct (map e_ID V)" "distinct (map e_ID es)" "list_all (\<lambda>e. e_ID e \<noteq> '''') es"
    and "list_all2 created_as es new" "e_ID ` set new \<inter> e_ID ` set V = {}" "mset V' = mset (V @ new)"
  shows "by_id V' = foldl put_entry (by_id V) es"
proof -
  have new: "new = map stored es" by (rule created_stored [OF assms(4,3)])
  then have "map e_ID new = map e_ID es" by simp
  then have d: "distinct (map e_ID (V @ new))" using assms(1,2,5) unfolding map_append distinct_append set_map by auto
  then have "by_id V' = by_id (V @ new)" using assms(6) by (rule by_id_cong)
  also have "\<dots> = foldl put_entry (by_id V) es"
  proof (rule by_id_eqI [OF d])
    fix i e
    show "foldl put_entry (by_id V) es i = Some e \<longleftrightarrow> e \<in> set (V @ new) \<and> e_ID e = i"
    proof (cases "by_id es i")
      case None
      then have "\<forall>x\<in>set es. e_ID x \<noteq> i" by (auto simp: by_id_def find_None_iff)
      with None show ?thesis by (auto simp: foldl_put [OF assms(2)] by_id_Some [OF assms(1)] new)
    next
      case (Some u)
      then have u: "u \<in> set es" "e_ID u = i" by (auto simp: by_id_Some [OF assms(2)])
      have "i \<in> e_ID ` set new" using u \<open>map e_ID new = map e_ID es\<close> by (metis image_eqI set_map)
      then have V: "e_ID x \<noteq> i" if "x \<in> set V" for x using that assms(5) by blast
      have "foldl put_entry (by_id V) es i = Some (stored u)" using Some by (simp add: foldl_put [OF assms(2)])
      moreover have "e = stored u" if e: "e \<in> set (V @ new)" "e_ID e = i"
      proof -
        obtain x where x: "x \<in> set es" "e = stored x" using V e by (auto simp: new)
        then have "x = u" using distinct_ids [OF assms(2) x(1) u(1)] e(2) u(2) by simp
        with x(2) show ?thesis by simp
      qed
      moreover have "stored u \<in> set (V @ new) \<and> e_ID (stored u) = i" using u by (simp add: new)
      ultimately show ?thesis by (metis option.inject)
    qed
  qed
  finally show ?thesis .
qed

text \<open>The calls change the entry list cache of the reconciler and nothing else of it.\<close>

definition kept :: "'c entryReconciler \<Rightarrow> 'c entryReconciler \<Rightarrow> bool" where
  "kept r r' \<longleftrightarrow> er_renderCache r' = er_renderCache r \<and> er_unsupportedFields r' = er_unsupportedFields r \<and>
     er_UUIDs r' = er_UUIDs r \<and> (er_entryCache r' = None \<longleftrightarrow> er_entryCache r = None)"

lemma kept_refl [simp]: "kept r r"
  by (simp add: kept_def)

lemma kept_trans: "kept a b \<Longrightarrow> kept b c \<Longrightarrow> kept a c"
  by (simp add: kept_def)

lemma kept_on_cache [simp]: "kept r (on_cache f r)"
  by (simp add: kept_def on_cache_def split: option.split)

lemma foldl_kept: "(\<And>a x. kept (g a) (g (f a x))) \<Longrightarrow> kept (g a) (g (foldl f a xs))"
  by (induction xs arbitrary: a) (auto intro: kept_trans)

lemma statuses_kept:
  "kept (fst rs) (fst (create_status rs ds))" "kept (fst rs) (fst (update_status rs ds))" "kept r (delete_status r es)"
  by (auto simp: create_status_def update_status_def delete_status_def Let_def split: prod.split)

lemma calls_kept:
  "deleteEntries cfg r w es = (w', r') \<Longrightarrow> kept r r'"
  "createEntries cfg r store w ds = (w', r', store') \<Longrightarrow> kept r r'"
  "updateEntries cfg r store w ds = (w', r', store') \<Longrightarrow> kept r r'"
proof -
  show "deleteEntries cfg r w es = (w', r') \<Longrightarrow> kept r r'"
    using foldl_kept [of "\<lambda>r. r" delete_status, OF statuses_kept(3)]
    by (auto simp: deleteEntries_def split: prod.splits option.splits)
  show "createEntries cfg r store w ds = (w', r', store') \<Longrightarrow> kept r r'"
    using foldl_kept [of fst create_status "(r, store)", OF statuses_kept(1)]
    by (auto simp: createEntries_def split: prod.splits option.splits) (metis fst_conv)
  show "updateEntries cfg r store w ds = (w', r', store') \<Longrightarrow> kept r r'"
    using foldl_kept [of fst update_status "(r, store)", OF statuses_kept(2)]
    by (auto simp: updateEntries_def split: prod.splits option.splits) (metis fst_conv)
qed

context entry_server
begin

lemma deleted:
  assumes "rc_EntryClient cfg = C" "inv w" "rec_ok tracked (by_id (view w)) r"
    and "distinct (idsFromEntries es)" "set (idsFromEntries es) \<subseteq> e_ID ` set (view w)"
  obtains w' r' where "(if es \<noteq> [] then deleteEntries cfg r w es else (w, r)) = (w', r')" "inv w'" "kept r r'"
    "rec_ok tracked (by_id (view w')) r'" "mset (view w') = mset (apply_deletes (idsFromEntries es) (view w))"
proof (cases "es = []")
  case True
  then show thesis using assms by (intro that [of w r]) (simp_all add: apply_deletes_def idsFromEntries_def)
next
  case False
  obtain w1 sts where c: "ec_DeleteEntries C w (idsFromEntries es) = (w1, sts, None)" "all_ok (length (idsFromEntries es)) sts"
    "inv w1" "mset (view w1) = mset (apply_deletes (idsFromEntries es) (view w))" using deletes [OF assms(2,4,5)] by blast
  obtain w' r' where d: "deleteEntries cfg r w es = (w', r')" by (cases "deleteEntries cfg r w es")
  have w': "w' = w1" using d c(1) assms(1) by (auto simp: deleteEntries_def)
  have "rec_ok tracked (by_id (view w')) r'"
  proof (rule deleteEntries_ok [where view = "\<lambda>w. by_id (view w)", OF _ assms(3) d])
    fix w2 sts2
    assume "ec_DeleteEntries (rc_EntryClient cfg) w (idsFromEntries es) = (w2, sts2, None)"
    then show "by_id (view w2) = ok_items remove_entry (by_id (view w)) (zip (idsFromEntries es) sts2)"
      using c assms(1) by_id_deletes [OF view_ids [OF assms(2)] c(4)] by (simp add: ok_items_all)
  qed
  then show thesis using False d c(3,4) calls_kept(1) [OF d] w' by (intro that [of w' r']) auto
qed

lemma created:
  assumes "rc_EntryClient cfg = C" "inv w" "rec_ok tracked (by_id (view w)) r"
    and "list_all ok (entriesFromDeclaredEntries ds)" "creatable (view w) (entriesFromDeclaredEntries ds)"
    and "\<forall>d\<in>set ds. ttls_ok (de_Entry d)"
    and "er_entryCache r \<noteq> None \<Longrightarrow> list_all (\<lambda>e. e_ID e \<noteq> '''') (entriesFromDeclaredEntries ds)"
  obtains w' r' store' new where "(if ds \<noteq> [] then createEntries cfg r store w ds else (w, r, store)) = (w', r', store')"
    "inv w'" "kept r r'" "rec_ok tracked (by_id (view w')) r'" "list_all2 created_as (entriesFromDeclaredEntries ds) new"
    "e_ID ` set new \<inter> e_ID ` set (view w) = {}" "mset (view w') = mset (view w @ new)"
proof (cases "ds = []")
  case True
  then show thesis using assms by (intro that [of w r store "[]"]) (simp_all add: entriesFromDeclaredEntries_def)
next
  case False
  let ?es = "entriesFromDeclaredEntries ds"
  obtain w1 sts new where c: "ec_CreateEntries C w ?es = (w1, sts, None)" "all_ok (length ?es) sts" "inv w1"
    "list_all2 created_as ?es new" "e_ID ` set new \<inter> e_ID ` set (view w) = {}" "mset (view w1) = mset (view w @ new)"
    using creates [OF assms(2,4,5)] by blast
  obtain w' r' store' where d: "createEntries cfg r store w ds = (w', r', store')" by (cases "createEntries cfg r store w ds")
  have w': "w' = w1" using d c(1) assms(1) by (auto simp: createEntries_def)
  have "rec_ok tracked (by_id (view w')) r'"
  proof (cases "er_entryCache r = None")
    case True
    then show ?thesis using calls_kept(2) [OF d] by (simp add: kept_def rec_ok_def)
  next
    case ids: False
    have "distinct (map e_ID ?es)" using assms(5,7) ids by (cases ?es) (auto simp: creatable_def)
    note view' = by_id_creates [OF view_ids [OF assms(2)] this assms(7) [OF ids] c(4-6)]
    show ?thesis
    proof (rule createEntries_ok [where view = "\<lambda>w. by_id (view w)", OF _ assms(3,6) d])
      fix w2 sts2
      assume "ec_CreateEntries (rc_EntryClient cfg) w ?es = (w2, sts2, None)"
      then show "by_id (view w2) = ok_items put_entry (by_id (view w)) (zip ?es sts2)"
        using c assms(1) view' by (simp add: ok_items_all)
    qed
  qed
  then show thesis using False d c(3-6) calls_kept(2) [OF d] w' by (intro that [of w' r' store' new]) auto
qed

lemma updated:
  assumes "rc_EntryClient cfg = C" "inv w" "rec_ok tracked (by_id (view w)) r"
    and "list_all ok (entriesFromDeclaredEntries ds)" "distinct (map e_ID (entriesFromDeclaredEntries ds))"
    and "e_ID ` set (entriesFromDeclaredEntries ds) \<subseteq> e_ID ` set (view w)" "\<forall>d\<in>set ds. ttls_ok (de_Entry d)"
  obtains w' r' store' where "(if ds \<noteq> [] then updateEntries cfg r store w ds else (w, r, store)) = (w', r', store')"
    "inv w'" "kept r r'" "rec_ok tracked (by_id (view w')) r'"
    "mset (view w') = mset (map (apply_update (entriesFromDeclaredEntries ds)) (view w))"
proof (cases "ds = []")
  case True
  then show thesis using assms
    by (intro that [of w r store]) (simp_all add: entriesFromDeclaredEntries_def apply_update_def [abs_def])
next
  case False
  let ?es = "entriesFromDeclaredEntries ds"
  obtain w1 sts where c: "ec_UpdateEntries C w ?es = (w1, sts, None)" "all_ok (length ?es) sts" "inv w1"
    "mset (view w1) = mset (map (apply_update ?es) (view w))" using updates [OF assms(2,4-6)] by blast
  obtain w' r' store' where d: "updateEntries cfg r store w ds = (w', r', store')" by (cases "updateEntries cfg r store w ds")
  have w': "w' = w1" using d c(1) assms(1) by (auto simp: updateEntries_def)
  have "rec_ok tracked (by_id (view w')) r'"
  proof (rule updateEntries_ok [where view = "\<lambda>w. by_id (view w)", OF _ assms(3,7) d])
    fix w2 sts2
    assume "ec_UpdateEntries (rc_EntryClient cfg) w ?es = (w2, sts2, None)"
    then show "by_id (view w2) = ok_items put_entry (by_id (view w)) (zip ?es sts2)"
      using c assms(1) by_id_updates [OF view_ids [OF assms(2)] assms(5,6) c(4)] by (simp add: ok_items_all)
  qed
  then show thesis using False d c(3,4) calls_kept(3) [OF d] w' by (intro that [of w' r' store']) auto
qed

lemma plan_accepted:
  assumes "plan_of H L U cfg uuid n es ds p" "distinct (map e_ID es)"
    and "\<forall>d\<in>set ds. e_ID (de_Entry d) = '''' \<and> ttls_ok (de_Entry d) \<and> ok (de_Entry d)"
  shows "list_all ok (entriesFromDeclaredEntries (pl_toUpdate p))" "list_all ok (entriesFromDeclaredEntries (pl_toCreate p))"
    and "\<forall>d\<in>set (pl_toUpdate p). ttls_ok (de_Entry d)" "\<forall>d\<in>set (pl_toCreate p). ttls_ok (de_Entry d)"
proof -
  let ?us = "entriesFromDeclaredEntries (pl_toUpdate p)" and ?news = "entriesFromDeclaredEntries (pl_toCreate p)"
  have noid: "\<forall>d\<in>set ds. e_ID (de_Entry d) = ''''" using assms(3) by blast
  have "ok u \<and> ttls_ok u" if u: "u \<in> set ?us \<union> set ?news" for u
  proof -
    have "\<exists>d\<in>set ds. \<exists>i. u = (de_Entry d)\<lparr>e_ID := i\<rparr>"
      using u plan_updates(3) [OF assms(1,2), of u] plan_creates_from(4) [OF assms(1) noid, of u] by (meson UnE)
    then obtain d i where d: "d \<in> set ds" "u = (de_Entry d)\<lparr>e_ID := i\<rparr>" by blast
    then have "ok (de_Entry d) \<and> ttls_ok (de_Entry d)" using assms(3) by blast
    then show ?thesis unfolding d(2) ok_ID by (simp add: ttls_ok_def)
  qed
  then show "list_all ok ?us" "list_all ok ?news" "\<forall>d\<in>set (pl_toUpdate p). ttls_ok (de_Entry d)"
    "\<forall>d\<in>set (pl_toCreate p). ttls_ok (de_Entry d)"
    by (simp_all add: list_all_iff entriesFromDeclaredEntries_def)
qed

text \<open>Carrying out the plan of a reconcile.\<close>

lemma carried_out:
  assumes client: "rc_EntryClient cfg = C" and w: "inv w" "mset es = mset (view w)"
    and r: "rec_ok tracked (by_id (view w)) r" "er_entryCache r \<noteq> None \<Longrightarrow> rc_EntryIDPrefix cfg \<noteq> ''''"
    and plan: "plan_of H L U cfg uuid n es ds p"
    and decl: "\<forall>d\<in>set ds. e_ID (de_Entry d) = '''' \<and> ttls_ok (de_Entry d) \<and> ok (de_Entry d)"
    and uuid: "inj uuid" "rc_EntryIDPrefix cfg \<noteq> '''' \<Longrightarrow> \<forall>m\<ge>n. rc_EntryIDPrefix cfg @ uuid m \<notin> e_ID ` set es"
    and foreign: "\<forall>e\<in>set es. shouldProcessOrDeleteEntryID cfg e = (False, False) \<longrightarrow> declared_at H (makeEntryKey H e) ds = []"
  obtains w' r' store' where "carryOut cfg r w p = (w', r', store')" "inv w'" "kept r r'"
    "rec_ok tracked (by_id (view w')) r'" "server_applies p es (view w')"
proof -
  let ?ids = "idsFromEntries (pl_toDelete p)" and ?us = "entriesFromDeclaredEntries (pl_toUpdate p)"
    and ?news = "entriesFromDeclaredEntries (pl_toCreate p)"
  have ids: "distinct (map e_ID es)" and es: "set es = set (view w)"
    using view_ids [OF w(1)] w(2) mset_eq_imp_distinct_iff [of "map e_ID es" "map e_ID (view w)"] mset_eq_setD [OF w(2)] by simp_all
  note del = plan_deletes [OF plan ids] and upd = plan_updates [OF plan ids]
  have noid: "\<forall>d\<in>set ds. e_ID (de_Entry d) = ''''" using decl by blast
  note cre = plan_creates [OF plan noid uuid foreign] and fine = plan_accepted [OF plan ids decl]
  obtain w1 r1 where d: "(if pl_toDelete p \<noteq> [] then deleteEntries cfg r w (pl_toDelete p) else (w, r)) = (w1, r1)" "inv w1"
    "kept r r1" "rec_ok tracked (by_id (view w1)) r1" "mset (view w1) = mset (apply_deletes ?ids (view w))"
    by (rule deleted [OF client w(1) r(1) del(1) del(2) [unfolded es]])
  have w1: "mset (view w1) = mset (apply_deletes ?ids es)" unfolding d(5) apply_deletes_def mset_filter w(2) ..
  have named: "list_all (\<lambda>e. e_ID e \<noteq> '''') ?news" if "er_entryCache r1 \<noteq> None"
    using plan_creates_named [OF plan noid] r(2) that d(3) [unfolded kept_def] by metis
  obtain w2 r2 store2 new where c: "(if pl_toCreate p \<noteq> [] then createEntries cfg r1 (pl_Store p) w1 (pl_toCreate p)
      else (w1, r1, pl_Store p)) = (w2, r2, store2)" "inv w2" "kept r1 r2" "rec_ok tracked (by_id (view w2)) r2"
    "list_all2 created_as ?news new" "e_ID ` set new \<inter> e_ID ` set (view w1) = {}" "mset (view w2) = mset (view w1 @ new)"
    by (rule created [OF client d(2,4) fine(2) cre [folded creatable_cong [OF w1]] fine(4) named])
  have "e_ID ` set ?us \<subseteq> e_ID ` set (view w2)"
    using upd(2) mset_eq_setD [OF w1] mset_eq_setD [OF c(7)] by auto
  then obtain w3 r3 store3 where u: "(if pl_toUpdate p \<noteq> [] then updateEntries cfg r2 store2 w2 (pl_toUpdate p)
      else (w2, r2, store2)) = (w3, r3, store3)" "inv w3" "kept r2 r3" "rec_ok tracked (by_id (view w3)) r3"
    "mset (view w3) = mset (map (apply_update ?us) (view w2))"
    by (rule updated [OF client c(2,4) fine(1) upd(1) _ fine(3)])
  have "mset (view w3) = mset (map (apply_update ?us) (apply_deletes ?ids es @ new))" by (simp add: u(5) c(7) w1)
  then have "server_applies p es (view w3)"
    unfolding server_applies_def using c(5,6) mset_eq_setD [OF w1] by (intro exI [of _ new]) simp
  moreover have "carryOut cfg r w p = (w3, r3, store3)" using d(1) c(1) u(1) by (simp add: carryOut_def Let_def)
  ultimately show thesis using u(2,4) kept_trans [OF kept_trans [OF d(3) c(3)] u(3)] by (intro that)
qed

end

end
