(* ===== verification/Collect_Spec.thy ===== *)
theory Collect_Spec
  imports Reconciler_Collect
begin

section \<open>Which entries are declared\<close>

text \<open>
  A specification of what the resources of a world declare, written without the loops, their
  accumulators and the render cache, and the proof that the reconciler collects exactly that: for
  every static entry what it renders to, and for every ClusterSPIFFEID, the regular ones first, what
  it renders to for the pods it selects in namespaces that are not ignored, where a fallback leaves
  out the pods that any regular one has an entry for.
\<close>

subsection \<open>Specification\<close>

text \<open>Of nodes with the same name the last one listed counts.\<close>

definition node_named :: "Node list \<Rightarrow> string \<Rightarrow> Node option" where
  "node_named nodes name = List.find (\<lambda>n. om_Name (node_Meta n) = name) (rev nodes)"

definition pod_entry ::
  "('w, 'c) entry_env \<Rightarrow> 'w ReconcilerConfig \<Rightarrow> 'w K8sClient \<Rightarrow> 'w \<Rightarrow> Node list \<Rightarrow> ParsedClusterSPIFFEIDSpec \<Rightarrow> Pod \<Rightarrow> Entry option" where
  "pod_entry E cfg K w nodes spec pod =
     (case (node_named nodes (ps_NodeName (pod_Spec pod)), podEndpoints K w spec pod) of
        (Some node, Inr eps) \<Rightarrow> (case render E cfg spec node pod eps of Inl _ \<Rightarrow> None | Inr e \<Rightarrow> Some e)
      | _ \<Rightarrow> None)"

text \<open>The pods a ClusterSPIFFEID selects, each with its parsed spec. A spec that cannot be parsed selects none, nor
  does one that cannot be hashed when there is a render cache.\<close>

definition pods_in :: "'w ReconcilerConfig \<Rightarrow> 'w K8sClient \<Rightarrow> 'w \<Rightarrow> ParsedClusterSPIFFEIDSpec \<Rightarrow> Namespace \<Rightarrow> Pod list" where
  "pods_in cfg K w spec ns =
     (if IsIgnored (rc_IgnoreNamespaces cfg) (om_Name (ns_Meta ns)) then []
      else case ListNamespacePods K w (om_Name (ns_Meta ns)) (ps_PodSelector spec) of Inl _ \<Rightarrow> [] | Inr pods \<Rightarrow> pods)"

definition selected_pods ::
  "('w, 'c) entry_env \<Rightarrow> 'w ReconcilerConfig \<Rightarrow> 'w K8sClient \<Rightarrow> 'w \<Rightarrow> bool \<Rightarrow> ClusterSPIFFEID \<Rightarrow> (ParsedClusterSPIFFEIDSpec \<times> Pod) list" where
  "selected_pods E cfg K w cached c =
     (case ParseClusterSPIFFEIDSpec (ee_crd E) (csid_Spec (bsi_Resource c)) of
        Inl _ \<Rightarrow> []
      | Inr spec \<Rightarrow>
          (if cached \<and> isl (computeObjectHash E spec) then []
           else case ListNamespaces K w (ps_NamespaceSelector spec) of
             Inl _ \<Rightarrow> []
           | Inr namespaces \<Rightarrow> map (Pair spec) (concat (map (pods_in cfg K w spec) namespaces))))"

text \<open>The entries of a ClusterSPIFFEID, each with the UID of its pod.\<close>

definition entries_of ::
  "('w, 'c) entry_env \<Rightarrow> 'w ReconcilerConfig \<Rightarrow> 'w K8sClient \<Rightarrow> 'w \<Rightarrow> bool \<Rightarrow> Node list \<Rightarrow> ClusterSPIFFEID \<Rightarrow> (string \<times> Entry) list" where
  "entries_of E cfg K w cached nodes c =
     List.map_filter (\<lambda>(spec, pod). map_option (Pair (om_UID (pod_Meta pod))) (pod_entry E cfg K w nodes spec pod))
       (selected_pods E cfg K w cached c)"

abbreviation sid_entry :: "nat \<Rightarrow> ClusterSPIFFEID \<Rightarrow> Entry \<Rightarrow> declaredEntry" where
  "sid_entry i c e \<equiv> \<lparr>de_Entry = e, de_By = \<lparr>by_Ref = BySPIFFEID i, by_Meta = csid_Meta (bsi_Resource c)\<rparr>\<rparr>"

definition sid_declared ::
  "('w, 'c) entry_env \<Rightarrow> 'w ReconcilerConfig \<Rightarrow> 'w K8sClient \<Rightarrow> 'w \<Rightarrow> bool \<Rightarrow> Node list \<Rightarrow> ClusterSPIFFEID list \<Rightarrow> declaredEntry list" where
  "sid_declared E cfg K w cached nodes sids =
     (let entries = entries_of E cfg K w cached nodes;
          regular = filter (\<lambda>c. \<not> is_fallback c) sids;
          covered = set (map fst (concat (map entries regular)))
      in concat (map (\<lambda>(i, c). [sid_entry i c e. (uid, e) \<leftarrow> entries c, is_fallback c \<longrightarrow> uid \<notin> covered])
           (enumerate 0 (regular @ filter is_fallback sids))))"

definition specified_entries ::
  "('w, 'c) entry_env \<Rightarrow> 'w ReconcilerConfig \<Rightarrow> bool \<Rightarrow> 'w \<Rightarrow> byStore \<Rightarrow> declaredEntry list" where
  "specified_entries E cfg cached w store =
     (if rk_ClusterStaticEntries (rc_Reconcile cfg) then static_declared (env_spiffeid E) (bs_StaticEntries store) else []) @
     (if rk_ClusterSPIFFEIDs (rc_Reconcile cfg) then
        (case rc_K8sClient cfg of
           None \<Rightarrow> []
         | Some K \<Rightarrow> (case ListNodes K w of Inl _ \<Rightarrow> [] | Inr nodes \<Rightarrow> sid_declared E cfg K w cached nodes (bs_SPIFFEIDs store)))
      else [])"

subsection \<open>The node map and one pod\<close>

lemma map_of_buildNodeMap:
  assumes "buildNodeMap K w = Inr nodeMap"
  obtains nodes where "ListNodes K w = Inr nodes" "map_of nodeMap = node_named nodes"
proof -
  have "map_of (foldl (\<lambda>m n. map_put (om_Name (node_Meta n)) n m) [] nodes) = node_named nodes" for nodes
    by (induction nodes rule: rev_induct) (auto simp: node_named_def fun_eq_iff map_of_map_put)
  with assms that show thesis by (auto simp: buildNodeMap_def bindE_eq_Inr)
qed

text \<open>Everything the current world has rendered is among the versions met.\<close>

definition sees ::
  "('w, 'c) entry_env \<Rightarrow> 'w ReconcilerConfig \<Rightarrow> 'w K8sClient \<Rightarrow> 'w \<Rightarrow> Node list \<Rightarrow> versions \<Rightarrow> ParsedClusterSPIFFEIDSpec \<times> Pod \<Rightarrow> bool" where
  "sees E cfg K w nodes seen sp \<longleftrightarrow>
     (\<forall>node eps. node_named nodes (ps_NodeName (pod_Spec (snd sp))) = Some node \<and> podEndpoints K w (fst sp) (snd sp) = Inr eps \<longrightarrow>
        seen (fst sp) node (snd sp) eps)"

text \<open>The render cache is not used, or it holds rendered entries of versions that are identified.\<close>

definition cache_sound ::
  "('w, 'c) entry_env \<Rightarrow> 'w ReconcilerConfig \<Rightarrow> ('c \<Rightarrow> (string \<times> cachedEntry) set) \<Rightarrow> versions \<Rightarrow> 'c option \<Rightarrow> bool" where
  "cache_sound E cfg content seen oc \<longleftrightarrow>
     (case oc of None \<Rightarrow> True | Some c \<Rightarrow> versions_identify E seen \<and> render_cache_ok E cfg content seen c)"

lemma er_renderPodEntry_exact:
  assumes "lru_lossy (ee_lru E) content" "cache_sound E cfg content seen oc" "map_of nodeMap = node_named nodes"
    and "oc \<noteq> None \<Longrightarrow> computeObjectHash E spec = Inr h \<and> sees E cfg K w nodes seen (spec, pod)"
    and "er_renderPodEntry E cfg K w oc spec pod h nodeMap = (oc', res)"
  shows "(case res of Inl _ \<Rightarrow> None | Inr e \<Rightarrow> Some e) = pod_entry E cfg K w nodes spec pod"
    and "cache_sound E cfg content seen oc'" "oc' = None \<longleftrightarrow> oc = None"
proof -
  have plain: "er_renderPodEntry E cfg K w None spec pod h nodeMap = (None, res') \<Longrightarrow>
      (case res' of Inl _ \<Rightarrow> None | Inr e \<Rightarrow> Some e) = pod_entry E cfg K w nodes spec pod" for res'
    by (auto simp: er_renderPodEntry_def pod_entry_def assms(3) split: option.splits sum.splits)
  have none: "fst (er_renderPodEntry E cfg K w None spec pod h nodeMap) = None"
    by (simp add: er_renderPodEntry_def split: option.splits sum.splits)
  have "(case res of Inl _ \<Rightarrow> None | Inr e \<Rightarrow> Some e) = pod_entry E cfg K w nodes spec pod \<and>
      cache_sound E cfg content seen oc' \<and> (oc' = None \<longleftrightarrow> oc = None)"
  proof (cases oc)
    case None
    then show ?thesis using assms(5) none plain [of res] by (auto simp: cache_sound_def)
  next
    case (Some c)
    have "seen spec node pod eps" if "map_of nodeMap (ps_NodeName (pod_Spec pod)) = Some node" "podEndpoints K w spec pod = Inr eps" for node eps
      using assms(4) Some that unfolding sees_def assms(3) by auto
    then obtain c' where c': "er_renderPodEntry E cfg K w (Some c) spec pod h nodeMap =
        (Some c', snd (er_renderPodEntry E cfg K w None spec pod h nodeMap))" "render_cache_ok E cfg content seen c'"
      using assms(2,4) Some render_cached [OF assms(1), of seen cfg c spec h nodeMap pod K w] by (auto simp: cache_sound_def)
    then have "oc' = Some c'" "res = snd (er_renderPodEntry E cfg K w None spec pod h nodeMap)" using assms(5) Some by simp_all
    with c'(2) show ?thesis using assms(2) Some plain [of res] none by (auto simp: cache_sound_def prod_eq_iff)
  qed
  then show "(case res of Inl _ \<Rightarrow> None | Inr e \<Rightarrow> Some e) = pod_entry E cfg K w nodes spec pod"
    "cache_sound E cfg content seen oc'" "oc' = None \<longleftrightarrow> oc = None" by blast+
qed

subsection \<open>The loops\<close>

text \<open>What the loops compute of the declared entries and the UIDs with a regular entry, pod by pod.\<close>

definition declare_pod ::
  "('w, 'c) entry_env \<Rightarrow> 'w ReconcilerConfig \<Rightarrow> 'w K8sClient \<Rightarrow> 'w \<Rightarrow> Node list \<Rightarrow> nat \<Rightarrow> ClusterSPIFFEID
     \<Rightarrow> declaredEntry list \<times> string set \<Rightarrow> ParsedClusterSPIFFEIDSpec \<times> Pod \<Rightarrow> declaredEntry list \<times> string set" where
  "declare_pod E cfg K w nodes i c p sp =
     (let uid = om_UID (pod_Meta (snd sp)) in
      if uid \<in> snd p \<and> is_fallback c then p
      else case pod_entry E cfg K w nodes (fst sp) (snd sp) of
        None \<Rightarrow> p
      | Some e \<Rightarrow> (fst p @ [sid_entry i c e], if is_fallback c then snd p else insert uid (snd p)))"

definition collects ::
  "('w, 'c) entry_env \<Rightarrow> 'w ReconcilerConfig \<Rightarrow> ('c \<Rightarrow> (string \<times> cachedEntry) set) \<Rightarrow> versions \<Rightarrow> bool \<Rightarrow> Entry list
     \<Rightarrow> declaredEntry list \<Rightarrow> 'c sid_acc \<Rightarrow> declaredEntry list \<times> string set \<Rightarrow> bool" where
  "collects E cfg content seen cached cur ds0 a p \<longleftrightarrow>
     state_matches (env_libs E) (sa_State a) cur (ds0 @ fst p) \<and> sa_NonFallbackApplied a = snd p \<and>
     cache_sound E cfg content seen (sa_renderCache a) \<and> (sa_renderCache a \<noteq> None \<longleftrightarrow> cached)"

lemma collects_stat [simp]:
  "collects E cfg content seen cached cur ds0 (sid_stat i f a) p = collects E cfg content seen cached cur ds0 a p"
  by (simp add: collects_def sid_stat_def)

lemma foldl_sim:
  "R a b \<Longrightarrow> (\<And>a b x. x \<in> set xs \<Longrightarrow> R a b \<Longrightarrow> R (f a x) (g b x)) \<Longrightarrow> R (foldl f a xs) (foldl g b xs)"
  by (induction xs arbitrary: a b) auto

lemma addPod_collects:
  assumes "lru_lossy (ee_lru E) content" "map_of nodeMap = node_named nodes"
    and "cached \<Longrightarrow> computeObjectHash E spec = Inr h \<and> sees E cfg K w nodes seen (spec, pod)"
    and inv: "collects E cfg content seen cached cur ds0 a p"
  shows "collects E cfg content seen cached cur ds0 (addPod E cfg K w nodeMap i (bsi_Resource c) spec h a pod)
    (declare_pod E cfg K w nodes i c p (spec, pod))"
proof -
  obtain oc res where r: "er_renderPodEntry E cfg K w (sa_renderCache a) spec pod h nodeMap = (oc, res)" by (metis surj_pair)
  have "cache_sound E cfg content seen (sa_renderCache a)" using inv by (simp add: collects_def)
  note exact = er_renderPodEntry_exact [OF assms(1) this assms(2) _ r]
  have hash: "sa_renderCache a \<noteq> None \<Longrightarrow> computeObjectHash E spec = Inr h \<and> sees E cfg K w nodes seen (spec, pod)"
    using assms(3) inv by (simp add: collects_def)
  have app: "sa_NonFallbackApplied a = snd p" using inv by (simp add: collects_def)
  show ?thesis
  proof (cases res)
    case (Inl e)
    then have "pod_entry E cfg K w nodes spec pod = None" using exact(1) [OF hash] by simp
    with Inl show ?thesis using inv r exact(2,3) [OF hash] app
      by (auto simp: addPod_def declare_pod_def collects_def sid_stat_def Let_def)
  next
    case (Inr e)
    then have "pod_entry E cfg K w nodes spec pod = Some e" using exact(1) [OF hash] by simp
    moreover have "state_matches (env_libs E) (AddDeclared (env_libs E) (sa_State a) e
        \<lparr>by_Ref = BySPIFFEID i, by_Meta = csid_Meta (bsi_Resource c)\<rparr>) cur (ds0 @ fst p @ [sid_entry i c e])"
      using inv state_matches_AddDeclared [of "env_libs E" "sa_State a" cur "ds0 @ fst p" e] by (simp add: collects_def)
    ultimately show ?thesis using Inr inv r exact(2,3) [OF hash] app
      by (auto simp: addPod_def declare_pod_def collects_def Let_def)
  qed
qed

lemma addNamespace_collects:
  assumes "lru_lossy (ee_lru E) content" "map_of nodeMap = node_named nodes"
    and "\<And>pod. cached \<Longrightarrow> pod \<in> set (pods_in cfg K w spec ns) \<Longrightarrow> computeObjectHash E spec = Inr h \<and> sees E cfg K w nodes seen (spec, pod)"
    and inv: "collects E cfg content seen cached cur ds0 a p"
  shows "collects E cfg content seen cached cur ds0 (addNamespace E cfg K w nodeMap i (bsi_Resource c) spec h a ns)
    (foldl (declare_pod E cfg K w nodes i c) p (map (Pair spec) (pods_in cfg K w spec ns)))"
proof -
  have "collects E cfg content seen cached cur ds0 (foldl (addPod E cfg K w nodeMap i (bsi_Resource c) spec h) (sid_stat i f a) pods)
      (foldl (\<lambda>p pod. declare_pod E cfg K w nodes i c p (spec, pod)) p pods)"
    if "pods = pods_in cfg K w spec ns" for f pods
    by (rule foldl_sim) (use inv that assms(3) in \<open>auto intro: addPod_collects [OF assms(1,2)]\<close>)
  then show ?thesis
    using inv by (auto simp: addNamespace_def pods_in_def foldl_map split: sum.split)
qed

lemma addClusterSPIFFEID_collects:
  assumes "lru_lossy (ee_lru E) content" "map_of nodeMap = node_named nodes"
    and "\<And>sp. cached \<Longrightarrow> sp \<in> set (selected_pods E cfg K w cached c) \<Longrightarrow> sees E cfg K w nodes seen sp"
    and inv: "collects E cfg content seen cached cur ds0 a p"
  shows "collects E cfg content seen cached cur ds0 (addClusterSPIFFEID E cfg K w nodeMap a (i, c))
    (foldl (declare_pod E cfg K w nodes i c) p (selected_pods E cfg K w cached c))"
proof (cases "ParseClusterSPIFFEIDSpec (ee_crd E) (csid_Spec (bsi_Resource c))")
  case (Inl e)
  then show ?thesis using inv by (simp add: addClusterSPIFFEID_def selected_pods_def)
next
  case spec: (Inr spec)
  have cached: "sa_renderCache a \<noteq> None \<longleftrightarrow> cached" using inv by (simp add: collects_def)
  define h where "h = (if cached then computeObjectHash E spec else Inr '''')"
  show ?thesis
  proof (cases h)
    case (Inl e)
    then have "selected_pods E cfg K w cached c = []" by (simp add: selected_pods_def spec h_def split: if_splits)
    then show ?thesis using inv Inl spec cached by (simp add: addClusterSPIFFEID_def h_def)
  next
    case hash: (Inr s)
    show ?thesis
    proof (cases "ListNamespaces K w (ps_NamespaceSelector spec)")
      case (Inl e)
      then have "selected_pods E cfg K w cached c = []" by (simp add: selected_pods_def spec)
      then show ?thesis using inv Inl spec cached hash by (simp add: addClusterSPIFFEID_def h_def)
    next
      case (Inr nss)
      have sel: "selected_pods E cfg K w cached c = map (Pair spec) (concat (map (pods_in cfg K w spec) nss))"
        using hash by (auto simp: selected_pods_def spec Inr h_def split: if_splits)
      have "collects E cfg content seen cached cur ds0 (foldl (addNamespace E cfg K w nodeMap i (bsi_Resource c) spec s) (sid_stat i f a) nss)
          (foldl (\<lambda>p ns. foldl (declare_pod E cfg K w nodes i c) p (map (Pair spec) (pods_in cfg K w spec ns))) p nss)" for f
      proof (rule foldl_sim)
        fix a p ns
        assume ns: "ns \<in> set nss" and inv: "collects E cfg content seen cached cur ds0 a p"
        show "collects E cfg content seen cached cur ds0 (addNamespace E cfg K w nodeMap i (bsi_Resource c) spec s a ns)
            (foldl (declare_pod E cfg K w nodes i c) p (map (Pair spec) (pods_in cfg K w spec ns)))"
          using assms(3) [unfolded sel] hash ns by (intro addNamespace_collects [OF assms(1,2) _ inv]) (auto simp: h_def)
      qed (use inv in simp)
      moreover have "foldl (\<lambda>p ns. foldl (declare_pod E cfg K w nodes i c) p (map (Pair spec) (pods_in cfg K w spec ns))) p nss =
          foldl (declare_pod E cfg K w nodes i c) p (selected_pods E cfg K w cached c)"
        unfolding sel by (induction nss arbitrary: p) simp_all
      ultimately show ?thesis using spec cached hash Inr by (simp add: addClusterSPIFFEID_def h_def)
    qed
  qed
qed

text \<open>What the loop over the pods of a regular resource adds, and what that of a fallback does.\<close>

lemma declare_regular:
  "\<not> is_fallback c \<Longrightarrow> foldl (declare_pod E cfg K w nodes i c) (ds, app) (selected_pods E cfg K w cached c) =
     (ds @ [sid_entry i c e. (uid, e) \<leftarrow> entries_of E cfg K w cached nodes c],
      app \<union> set (map fst (entries_of E cfg K w cached nodes c)))"
proof -
  assume c: "\<not> is_fallback c"
  have "foldl (declare_pod E cfg K w nodes i c) (ds, app) sps =
      (ds @ map (\<lambda>(uid, e). sid_entry i c e) (List.map_filter (\<lambda>(spec, pod). map_option (Pair (om_UID (pod_Meta pod)))
         (pod_entry E cfg K w nodes spec pod)) sps),
       app \<union> set (map fst (List.map_filter (\<lambda>(spec, pod). map_option (Pair (om_UID (pod_Meta pod)))
         (pod_entry E cfg K w nodes spec pod)) sps)))" for sps
    using c by (induction sps arbitrary: ds app) (auto simp: declare_pod_def Let_def List.map_filter_simps split: option.split prod.split)
  then show ?thesis by (simp add: entries_of_def concat_map_singleton split_beta)
qed

lemma declare_fallback:
  "is_fallback c \<Longrightarrow> foldl (declare_pod E cfg K w nodes i c) (ds, app) (selected_pods E cfg K w cached c) =
     (ds @ [sid_entry i c e. (uid, e) \<leftarrow> entries_of E cfg K w cached nodes c, uid \<notin> app], app)"
proof -
  assume c: "is_fallback c"
  have "foldl (declare_pod E cfg K w nodes i c) (ds, app) sps =
      (ds @ [sid_entry i c e. (uid, e) \<leftarrow> List.map_filter (\<lambda>(spec, pod). map_option (Pair (om_UID (pod_Meta pod)))
         (pod_entry E cfg K w nodes spec pod)) sps, uid \<notin> app], app)" for sps
    using c by (induction sps arbitrary: ds) (auto simp: declare_pod_def Let_def List.map_filter_simps split: option.split prod.split)
  then show ?thesis by (simp add: entries_of_def)
qed

definition declare_sid ::
  "('w, 'c) entry_env \<Rightarrow> 'w ReconcilerConfig \<Rightarrow> 'w K8sClient \<Rightarrow> 'w \<Rightarrow> bool \<Rightarrow> Node list
     \<Rightarrow> declaredEntry list \<times> string set \<Rightarrow> nat \<times> ClusterSPIFFEID \<Rightarrow> declaredEntry list \<times> string set" where
  "declare_sid E cfg K w cached nodes p ic =
     foldl (declare_pod E cfg K w nodes (fst ic) (snd ic)) p (selected_pods E cfg K w cached (snd ic))"

lemma enumerate_mem: "(i, c) \<in> set (enumerate n cs) \<Longrightarrow> c \<in> set cs"
  by (auto simp: in_set_enumerate_eq)

lemma declare_regulars:
  "\<forall>c\<in>set cs. \<not> is_fallback c \<Longrightarrow> foldl (declare_sid E cfg K w cached nodes) (ds, app) (enumerate n cs) =
     (ds @ concat (map (\<lambda>(i, c). [sid_entry i c e. (uid, e) \<leftarrow> entries_of E cfg K w cached nodes c]) (enumerate n cs)),
      app \<union> set (map fst (concat (map (entries_of E cfg K w cached nodes) cs))))"
  by (induction cs arbitrary: n ds app) (simp_all add: declare_sid_def declare_regular Un_assoc)

lemma declare_fallbacks:
  "\<forall>c\<in>set cs. is_fallback c \<Longrightarrow> foldl (declare_sid E cfg K w cached nodes) (ds, app) (enumerate n cs) =
     (ds @ concat (map (\<lambda>(i, c). [sid_entry i c e. (uid, e) \<leftarrow> entries_of E cfg K w cached nodes c, uid \<notin> app]) (enumerate n cs)), app)"
  by (induction cs arbitrary: n ds) (simp_all add: declare_sid_def declare_fallback)

lemma declare_sids:
  "fst (foldl (declare_sid E cfg K w cached nodes) ([], {})
     (enumerate 0 (filter (\<lambda>c. \<not> is_fallback c) sids @ filter is_fallback sids))) = sid_declared E cfg K w cached nodes sids"
proof -
  let ?reg = "filter (\<lambda>c. \<not> is_fallback c) sids" and ?fb = "filter is_fallback sids" and ?entries = "entries_of E cfg K w cached nodes"
  let ?app = "set (map fst (concat (map ?entries ?reg)))"
  have single: "concat (map (\<lambda>(uid, e). [f e]) xs) = map (\<lambda>(uid, e). f e) xs" for f :: "Entry \<Rightarrow> declaredEntry" and xs :: "(string \<times> Entry) list"
    by (induction xs) auto
  have reg: "map (\<lambda>(i, c). [sid_entry i c e. (uid, e) \<leftarrow> ?entries c, is_fallback c \<longrightarrow> uid \<notin> ?app]) (enumerate n ?reg) =
      map (\<lambda>(i, c). [sid_entry i c e. (uid, e) \<leftarrow> ?entries c]) (enumerate n ?reg)" for n
    by (rule map_cong [OF refl]) (auto dest!: enumerate_mem simp: single)
  have fb: "map (\<lambda>(i, c). [sid_entry i c e. (uid, e) \<leftarrow> ?entries c, is_fallback c \<longrightarrow> uid \<notin> ?app]) (enumerate n ?fb) =
      map (\<lambda>(i, c). [sid_entry i c e. (uid, e) \<leftarrow> ?entries c, uid \<notin> ?app]) (enumerate n ?fb)" for n
    by (rule map_cong [OF refl]) (auto dest!: enumerate_mem)
  show ?thesis
    unfolding sid_declared_def Let_def enumerate_append_eq foldl_append map_append concat_append reg fb
    by (subst declare_regulars, simp, subst declare_fallbacks, simp, simp only: fst_conv append_Nil Un_empty_left)
qed

lemma addClusterSPIFFEIDs_collects:
  assumes "lru_lossy (ee_lru E) content" "map_of nodeMap = node_named nodes" "state_matches (env_libs E) st cur ds0"
    and "cache_sound E cfg content seen oc"
    and "\<And>c sp. oc \<noteq> None \<Longrightarrow> c \<in> set (bs_SPIFFEIDs store) \<Longrightarrow> sp \<in> set (selected_pods E cfg K w True c) \<Longrightarrow>
      sees E cfg K w nodes seen sp"
    and a: "a = addClusterSPIFFEIDEntriesState E cfg K w oc st store nodeMap"
  shows "state_matches (env_libs E) (sa_State a) cur (ds0 @ sid_declared E cfg K w (oc \<noteq> None) nodes (bs_SPIFFEIDs store))"
    and "cache_sound E cfg content seen (sa_renderCache a)" "sa_renderCache a \<noteq> None \<longleftrightarrow> oc \<noteq> None"
proof -
  let ?sids = "bs_SPIFFEIDs store"
  let ?sorted = "filter (\<lambda>c. \<not> is_fallback c) ?sids @ filter is_fallback ?sids"
  have sort: "sort_by (\<lambda>x y. \<not> is_fallback x \<and> is_fallback y) ?sids = ?sorted" by (rule sort_by_rank)
  have set: "set ?sorted = set ?sids" by auto
  have "collects E cfg content seen (oc \<noteq> None) cur ds0 a
      (foldl (declare_sid E cfg K w (oc \<noteq> None) nodes) ([], {}) (enumerate 0 ?sorted))"
    unfolding a addClusterSPIFFEIDEntriesState_def Let_def sort
  proof (rule foldl_sim)
    fix a p ic
    assume ic: "ic \<in> set (enumerate 0 ?sorted)" and inv: "collects E cfg content seen (oc \<noteq> None) cur ds0 a p"
    obtain i c where i: "ic = (i, c)" by (cases ic)
    then have "c \<in> set ?sids" using enumerate_mem ic set by metis
    with assms(5) have "sees E cfg K w nodes seen sp" if "oc \<noteq> None" "sp \<in> set (selected_pods E cfg K w (oc \<noteq> None) c)" for sp
      using that by simp
    from addClusterSPIFFEID_collects [OF assms(1,2) this inv, where i = i]
    show "collects E cfg content seen (oc \<noteq> None) cur ds0 (addClusterSPIFFEID E cfg K w nodeMap a ic)
        (declare_sid E cfg K w (oc \<noteq> None) nodes p ic)"
      unfolding i declare_sid_def by simp
  qed (use assms(3,4) in \<open>simp add: collects_def\<close>)
  then show "state_matches (env_libs E) (sa_State a) cur (ds0 @ sid_declared E cfg K w (oc \<noteq> None) nodes ?sids)"
    "cache_sound E cfg content seen (sa_renderCache a)" "sa_renderCache a \<noteq> None \<longleftrightarrow> oc \<noteq> None"
    unfolding collects_def declare_sids by simp_all
qed

section \<open>Properties\<close>

text \<open>The versions that a reconcile of a world meets.\<close>

definition world_sees :: "('w, 'c) entry_env \<Rightarrow> 'w ReconcilerConfig \<Rightarrow> 'w \<Rightarrow> byStore \<Rightarrow> versions \<Rightarrow> bool" where
  "world_sees E cfg w store seen \<longleftrightarrow>
     (\<forall>K nodes c sp. rc_K8sClient cfg = Some K \<and> ListNodes K w = Inr nodes \<and> c \<in> set (bs_SPIFFEIDs store) \<and>
        sp \<in> set (selected_pods E cfg K w True c) \<longrightarrow> sees E cfg K w nodes seen sp)"

lemma sid_declared_ids:
  assumes "d \<in> set (sid_declared E cfg K w cached nodes sids)"
  shows "e_ID (de_Entry d) = ''''"
proof -
  have "e_ID e = ''''" if "pod_entry E cfg K w nodes spec pod = Some e" for spec pod e
    using that by (auto simp: pod_entry_def for_pod_def dest: render_for_pod split: option.splits sum.splits)
  with assms show ?thesis
    by (auto simp: sid_declared_def Let_def entries_of_def List.map_filter_def split: if_splits)
qed

lemma specified_ids:
  assumes "d \<in> set (specified_entries E cfg cached w store)"
  shows "e_ID (de_Entry d) = ''''"
proof (cases "d \<in> set (static_declared (env_spiffeid E) (bs_StaticEntries store))")
  case False
  with assms have "d \<in> set (case rc_K8sClient cfg of None \<Rightarrow> []
      | Some K \<Rightarrow> (case ListNodes K w of Inl _ \<Rightarrow> [] | Inr nodes \<Rightarrow> sid_declared E cfg K w cached nodes (bs_SPIFFEIDs store)))"
    by (cases "rk_ClusterStaticEntries (rc_Reconcile cfg)"; cases "rk_ClusterSPIFFEIDs (rc_Reconcile cfg)")
      (simp_all add: specified_entries_def)
  then show ?thesis by simp (blast dest: sid_declared_ids)
qed (simp add: static_declared_ids)


text \<open>The sample has a fallback that selects two pods, listed before a regular resource that selects one of them.\<close>

definition sample_parsed :: "bool \<Rightarrow> ParsedClusterSPIFFEIDSpec" where
  "sample_parsed fallback = projr (ParseClusterSPIFFEIDSpec mem_crd (csid_Spec (sample_sid fallback)))"

definition collect_seen :: versions where
  "collect_seen s n p q \<longleftrightarrow> (\<exists>b. s = sample_parsed b) \<and> n = sample_node \<and> p \<in> {sample_pod, other_pod} \<and> q = []"

lemma sample_parse: "ParseClusterSPIFFEIDSpec mem_crd (csid_Spec (sample_sid b)) = Inr (sample_parsed b)"
  by (cases b) (simp_all add: sample_parsed_def ParseClusterSPIFFEIDSpec_def sample_sid_def mem_crd_def)

lemma collect_versions: "versions_identify mem_env collect_seen"
proof -
  have "ps_Hint (sample_parsed True) = ''fb''" "ps_Hint (sample_parsed False) = ''reg''" by code_simp+
  then have "ps_Hint (sample_parsed b) = ps_Hint (sample_parsed b') \<Longrightarrow> same_but_selectors (sample_parsed b) (sample_parsed b')" for b b'
    by (cases b; cases b') (simp_all add: same_but_selectors_def)
  then show ?thesis
    by (auto simp: versions_identify_def collect_seen_def mem_env_def other_pod_def sample_pod_def sample_node_def)
qed

lemma collect_world_sees: "world_sees mem_env mem_cfg collect_world collect_store collect_seen"
proof -
  have "\<not> ps_AutoPopulateDNSNames (sample_parsed True)" "\<not> ps_AutoPopulateDNSNames (sample_parsed False)" by code_simp+
  then have auto_dns: "\<not> ps_AutoPopulateDNSNames (sample_parsed b)" for b by (cases b) simp_all
  have pods: "p = sample_pod \<or> p = other_pod" if "p \<in> set (pods_in mem_cfg mem_k8s collect_world spec ns)" for p spec ns
    using that by (auto simp: pods_in_def ListNamespacePods_def mem_k8s_def collect_world_def split: if_splits)
  have "fst sp = sample_parsed b \<and> snd sp \<in> {sample_pod, other_pod}"
    if "sp \<in> set (selected_pods mem_env mem_cfg mem_k8s collect_world True \<lparr>bsi_Resource = sample_sid b, bsi_NextStatus = x\<rparr>)" for sp b x
    using that by (auto simp: selected_pods_def sample_parse mem_env_def dest!: pods split: if_splits)
  moreover have "c = \<lparr>bsi_Resource = sample_sid True, bsi_NextStatus = initSPIFFEIDStatus\<rparr> \<or>
      c = \<lparr>bsi_Resource = sample_sid False, bsi_NextStatus = initSPIFFEIDStatus\<rparr>" if "c \<in> set (bs_SPIFFEIDs collect_store)" for c
    using that by (simp add: collect_store_def collect_world_def)
  moreover have "node = sample_node" if "node_named nodes name = Some node" "ListNodes mem_k8s collect_world = Inr nodes" for nodes name node
    using that by (auto simp: ListNodes_def mem_k8s_def collect_world_def node_named_def split: if_splits)
  ultimately show ?thesis
    unfolding world_sees_def sees_def collect_seen_def
    by (fastforce simp: podEndpoints_def auto_dns mem_cfg_def)
qed


end
