(* ===== verification/Entry_Declared.thy ===== *)
theory Entry_Declared
  imports Collect_Spec
begin

section \<open>What the resources declare\<close>

text \<open>
  The entries that the resources of a world declare, as the reconciler collects them, apart from the
  entries the server has: collecting beside any current entries declares the same. What the server
  should hold does not depend on the order in which the resources are listed, on their positions in
  the lists, or on their resource versions, which every update of a status changes.
\<close>

subsection \<open>Collecting beside the entries of the server\<close>

definition declared_in_state :: "entriesState \<Rightarrow> declaredEntry list" where
  "declared_in_state st = concat (map es_Declared (map snd st))"

definition declared_entries ::
  "('w, 'c) entry_env \<Rightarrow> 'w ReconcilerConfig \<Rightarrow> 'c option \<Rightarrow> 'w \<Rightarrow> ('c option \<times> declaredEntry list) result option" where
  "declared_entries E cfg renderCache w =
     (case (if rk_ClusterStaticEntries (rc_Reconcile cfg) then listClusterStaticEntries E cfg w else Some (Inr [])) of
        None \<Rightarrow> None
      | Some (Inl e) \<Rightarrow> Some (Inl e)
      | Some (Inr statics) \<Rightarrow>
     (case (if rk_ClusterSPIFFEIDs (rc_Reconcile cfg) then listClusterSPIFFEIDs cfg w else Some (Inr [])) of
        None \<Rightarrow> None
      | Some (Inl e) \<Rightarrow> Some (Inl e)
      | Some (Inr sids) \<Rightarrow>
     (case collect E cfg ((Reconciler E cfg)\<lparr>er_renderCache := renderCache\<rparr>) w []
             \<lparr>bs_StaticEntries = statics, bs_SPIFFEIDs = sids\<rparr> of
        None \<Rightarrow> None
      | Some (r, Inl e) \<Rightarrow> Some (Inl e)
      | Some (r, Inr (st, store)) \<Rightarrow> Some (Inr (er_renderCache r, declared_in_state st)))))"

text \<open>Two states that differ in their current entries only.\<close>

definition same_declared :: "entry_libs \<Rightarrow> Entry list \<Rightarrow> entriesState \<Rightarrow> entriesState \<Rightarrow> bool" where
  "same_declared H cur st st0 \<longleftrightarrow> (\<exists>ds. state_matches H st cur ds \<and> state_matches H st0 [] ds)"

lemma same_declared_Add:
  "same_declared H cur st st0 \<Longrightarrow> same_declared H cur (AddDeclared H st e b) (AddDeclared H st0 e b)"
  unfolding same_declared_def using state_matches_AddDeclared by blast

lemma same_declared_current: "same_declared H cur (foldl (AddCurrent H) [] cur) []"
  unfolding same_declared_def using state_matches_AddCurrents [OF state_matches_empty, of H cur] state_matches_empty by auto

lemma state_matches_declared:
  assumes "same_declared H cur st st0"
  shows "state_matches H st cur (declared_in_state st0)"
proof -
  obtain ds where ds: "state_matches H st cur ds" "state_matches H st0 [] ds" using assms by (auto simp: same_declared_def)
  have self: "ranges_over st0 st0" by (simp add: ranges_over_def)
  have "declared_at H k (declared_in_state st0) = declared_at H k ds" for k
  proof -
    have "declared_at H k (declared_in_state st0) =
        es_Declared (case map_of st0 k of None \<Rightarrow> \<lparr>es_Current = [], es_Declared = []\<rparr> | Some s \<Rightarrow> s)"
      unfolding declared_in_state_def
    proof (rule filter_concat_keys)
      show "distinct (map fst st0)" using ds(2) by (simp add: state_matches_def)
      show "makeEntryKey H (de_Entry x) = k'" if "(k', s) \<in> set st0" "x \<in> set (es_Declared s)" for k' s x
        using that state_in [OF ds(2) self that(1)] by simp
    qed simp
    then show ?thesis using state_of_key [OF ds(2) self, of k] by simp
  qed
  then show ?thesis using ds(1) by (simp add: state_matches_def)
qed

definition static_sim :: "entry_libs \<Rightarrow> Entry list \<Rightarrow> nat \<times> entriesState \<times> byStore \<Rightarrow> nat \<times> entriesState \<times> byStore \<Rightarrow> bool" where
  "static_sim H cur a a0 \<longleftrightarrow> fst a = fst a0 \<and> snd (snd a) = snd (snd a0) \<and> same_declared H cur (fst (snd a)) (fst (snd a0))"

lemma addStatic_sim:
  "same_declared (env_libs E) cur st st0 \<Longrightarrow>
     static_sim (env_libs E) cur (addClusterStaticEntryEntriesState E st store) (addClusterStaticEntryEntriesState E st0 store)"
  unfolding addClusterStaticEntryEntriesState_def
  by (rule foldl_sim)
    (auto simp: static_sim_def addStaticEntry_def same_declared_Add split: sum.splits prod.splits)

definition sid_sim :: "entry_libs \<Rightarrow> Entry list \<Rightarrow> 'c sid_acc \<Rightarrow> 'c sid_acc \<Rightarrow> bool" where
  "sid_sim H cur a a0 \<longleftrightarrow> sa_renderCache a0 = sa_renderCache a \<and> sa_Store a0 = sa_Store a \<and>
     sa_NonFallbackApplied a0 = sa_NonFallbackApplied a \<and> same_declared H cur (sa_State a) (sa_State a0)"

lemma sid_sim_foldl:
  "sid_sim H cur a a0 \<Longrightarrow> (\<And>a a0 x. sid_sim H cur a a0 \<Longrightarrow> sid_sim H cur (f a x) (f a0 x)) \<Longrightarrow>
     sid_sim H cur (foldl f a xs) (foldl f a0 xs)"
  by (rule foldl_sim)

lemma sid_sim_stat: "sid_sim H cur a a0 \<Longrightarrow> sid_sim H cur (sid_stat i f a) (sid_stat i f a0)"
  by (auto simp: sid_sim_def sid_stat_def)

lemma addPod_sim:
  assumes "sid_sim (env_libs E) cur a a0"
  shows "sid_sim (env_libs E) cur (addPod E cfg K w nodeMap i c spec h a pod) (addPod E cfg K w nodeMap i c spec h a0 pod)"
proof -
  obtain oc res where "er_renderPodEntry E cfg K w (sa_renderCache a) spec pod h nodeMap = (oc, res)" by (metis surj_pair)
  then show ?thesis
    using assms by (cases res) (auto simp: addPod_def sid_sim_def sid_stat_def same_declared_Add Let_def)
qed

lemma addNamespace_sim:
  assumes "sid_sim (env_libs E) cur a a0"
  shows "sid_sim (env_libs E) cur (addNamespace E cfg K w nodeMap i c spec h a ns) (addNamespace E cfg K w nodeMap i c spec h a0 ns)"
  using assms by (auto simp: addNamespace_def intro: sid_sim_stat sid_sim_foldl [OF sid_sim_stat] addPod_sim split: sum.split)

lemma addClusterSPIFFEID_sim:
  assumes "sid_sim (env_libs E) cur a a0"
  shows "sid_sim (env_libs E) cur (addClusterSPIFFEID E cfg K w nodeMap a ic) (addClusterSPIFFEID E cfg K w nodeMap a0 ic)"
proof -
  have "sa_renderCache a0 = sa_renderCache a" using assms by (auto simp: sid_sim_def)
  then show ?thesis
    using assms by (auto simp: addClusterSPIFFEID_def Let_def intro: sid_sim_foldl [OF sid_sim_stat] addNamespace_sim split: sum.split)
qed

lemma addClusterSPIFFEIDs_sim:
  "same_declared (env_libs E) cur st st0 \<Longrightarrow>
     sid_sim (env_libs E) cur (addClusterSPIFFEIDEntriesState E cfg K w c st store nodeMap)
       (addClusterSPIFFEIDEntriesState E cfg K w c st0 store nodeMap)"
  unfolding addClusterSPIFFEIDEntriesState_def Let_def
  by (intro sid_sim_foldl addClusterSPIFFEID_sim) (simp add: sid_sim_def)

lemma collect_sim:
  assumes "collect E cfg r0 w [] store = Some (r0', Inr (st0, store'))" "er_renderCache r = er_renderCache r0"
  obtains r' st where "collect E cfg r w cur store = Some (r', Inr (st, store'))" "er_renderCache r' = er_renderCache r0'"
    "er_entryCache r' = er_entryCache r" "er_unsupportedFields r' = er_unsupportedFields r" "er_UUIDs r' = er_UUIDs r"
    "state_matches (env_libs E) st cur (declared_in_state st0)"
proof -
  let ?st = "foldl (AddCurrent (env_libs E)) [] cur"
  let ?statics = "\<lambda>st. if rk_ClusterStaticEntries (rc_Reconcile cfg) then addClusterStaticEntryEntriesState E st store else (0, st, store)"
  obtain f s1 store1 f0 s10 store10 where s: "?statics ?st = (f, s1, store1)" "?statics [] = (f0, s10, store10)" by (metis surj_pair)
  have "static_sim (env_libs E) cur (?statics ?st) (?statics [])"
    using addStatic_sim [OF same_declared_current] same_declared_current by (auto simp: static_sim_def)
  then have sim: "f0 = f" "store10 = store1" "same_declared (env_libs E) cur s1 s10" by (simp_all add: static_sim_def s)
  show thesis
  proof (cases "rk_ClusterSPIFFEIDs (rc_Reconcile cfg)")
    case False
    then show thesis using assms s sim state_matches_declared [OF sim(3)]
      by (intro that [of "r\<lparr>er_StaticEntryFailures := er_StaticEntryFailures r + f\<rparr>" s1]) (auto simp: collect_def)
  next
    case True
    with assms(1) s(2) obtain K nodeMap where K: "rc_K8sClient cfg = Some K" "buildNodeMap K w = Inr nodeMap"
      by (auto simp: collect_def Let_def split: option.splits sum.splits)
    let ?add = "\<lambda>st. addClusterSPIFFEIDEntriesState E cfg K w (er_renderCache r) st store1 nodeMap"
    have r0': "er_renderCache r0' = sa_renderCache (?add s10)" "st0 = sa_State (?add s10)" "store' = sa_Store (?add s10)"
      using assms True s(2) K sim(1,2) by (auto simp: collect_def Let_def)
    have st: "sid_sim (env_libs E) cur (?add s1) (?add s10)" by (rule addClusterSPIFFEIDs_sim [OF sim(3)])
    then have "state_matches (env_libs E) (sa_State (?add s1)) cur (declared_in_state st0)"
      unfolding r0'(2) sid_sim_def by (blast intro: state_matches_declared)
    with st show thesis
      using True s(1) K r0'(1,3)
      by (intro that [of "r\<lparr>er_StaticEntryFailures := er_StaticEntryFailures r + f, er_renderCache := er_renderCache r0'\<rparr>"
            "sa_State (?add s1)"]) (auto simp: collect_def Let_def sid_sim_def)
  qed
qed

subsection \<open>Declarations\<close>

text \<open>What matters of a declared entry: the entry, and the metadata of the resource without its version.\<close>

definition declared_as :: "declaredEntry \<Rightarrow> Entry \<times> ObjectMeta" where
  "declared_as d = (de_Entry d, (by_Meta (de_By d))\<lparr>om_ResourceVersion := ''''\<rparr>)"

definition same_declarations :: "declaredEntry list \<Rightarrow> declaredEntry list \<Rightarrow> bool" where
  "same_declarations ds ds' \<longleftrightarrow> mset (map declared_as ds) = mset (map declared_as ds')"

text \<open>Of two different entries for a key one is preferred.\<close>

definition decided :: "entry_libs \<Rightarrow> declaredEntry list \<Rightarrow> bool" where
  "decided H ds \<longleftrightarrow> (\<forall>d\<in>set ds. sane_by (de_By d)) \<and>
     (\<forall>a\<in>set ds. \<forall>b\<in>set ds. makeEntryKey H (de_Entry a) = makeEntryKey H (de_Entry b) \<and> de_Entry a \<noteq> de_Entry b \<longrightarrow>
        prefers (by_Meta (de_By a)) (by_Meta (de_By b)) \<or> prefers (by_Meta (de_By b)) (by_Meta (de_By a)))"

lemma unversioned_eq:
  fixes m n :: ObjectMeta
  assumes "m\<lparr>om_ResourceVersion := v\<rparr> = n\<lparr>om_ResourceVersion := v\<rparr>"
  shows "om_CreationTimestamp m = om_CreationTimestamp n" "om_DeletionTimestamp m = om_DeletionTimestamp n" "om_UID m = om_UID n"
  using assms by (cases m; cases n; simp)+

lemma declared_as_eq:
  assumes "declared_as a = declared_as b"
  shows "de_Entry a = de_Entry b" "sane_by (de_By a) = sane_by (de_By b)"
    and "prefers (by_Meta (de_By a)) m = prefers (by_Meta (de_By b)) m" "prefers m (by_Meta (de_By a)) = prefers m (by_Meta (de_By b))"
  using assms unversioned_eq [of "''''" "by_Meta (de_By a)" "by_Meta (de_By b)"]
  by (simp_all add: declared_as_def sane_by_def prefers_def)

lemma same_declarations_sym: "same_declarations ds ds' \<Longrightarrow> same_declarations ds' ds"
  by (simp add: same_declarations_def)

lemma same_declarations_Nil: "same_declarations a b \<Longrightarrow> a = [] \<longleftrightarrow> b = []"
  by (auto simp: same_declarations_def)

lemma same_declarations_mem:
  assumes "same_declarations ds ds'" "d \<in> set ds"
  obtains d' where "d' \<in> set ds'" "declared_as d' = declared_as d"
proof -
  have "set (map declared_as ds) = set (map declared_as ds')"
    using assms(1) unfolding same_declarations_def by (rule mset_eq_setD)
  then have "declared_as d \<in> set (map declared_as ds')" using assms(2) by (metis image_eqI set_map)
  then obtain d' where "d' \<in> set ds'" "declared_as d = declared_as d'" by auto
  then show thesis using that by metis
qed

lemma same_declarations_at:
  assumes "same_declarations ds ds'"
  shows "same_declarations (declared_at H k ds) (declared_at H k ds')"
proof -
  have "map declared_as (declared_at H k xs) = filter (\<lambda>p. makeEntryKey H (fst p) = k) (map declared_as xs)" for xs
    by (induction xs) (auto simp: declared_as_def)
  with assms show ?thesis unfolding same_declarations_def by (metis mset_filter)
qed

lemma decided_at: "decided H ds \<Longrightarrow> decided H (declared_at H k ds)"
  by (auto simp: decided_def)

lemma preferred_declarations:
  assumes same: "same_declarations a b" and key: "\<forall>d\<in>set a. makeEntryKey H (de_Entry d) = k" and dec: "decided H a" and "a \<noteq> []"
  shows "de_Entry (preferred a) = de_Entry (preferred b)"
proof -
  have "b \<noteq> []" using assms(4) same_declarations_Nil [OF same] by simp
  obtain p where p: "p \<in> set b" "declared_as p = declared_as (preferred a)"
    using same_declarations_mem [OF same preferred_in [OF assms(4)]] .
  obtain q where q: "q \<in> set a" "declared_as q = declared_as (preferred b)"
    using same_declarations_mem [OF same_declarations_sym [OF same] preferred_in [OF \<open>b \<noteq> []\<close>]] .
  have sane: "\<forall>d\<in>set a. sane_by (de_By d)" using dec by (simp add: decided_def)
  then have "\<forall>d\<in>set b. sane_by (de_By d)"
    using same_declarations_mem [OF same_declarations_sym [OF same]] declared_as_eq(2) by metis
  from preferred_least [OF this p(1)] have "\<not> prefers (by_Meta (de_By (preferred a))) (by_Meta (de_By q))"
    using declared_as_eq(3) [OF p(2)] declared_as_eq(4) [OF q(2)] by simp
  with preferred_least [OF sane q(1)] have "de_Entry q = de_Entry (preferred a)"
    using dec q(1) preferred_in [OF assms(4)] key unfolding decided_def by metis
  with declared_as_eq(1) [OF q(2)] show ?thesis by simp
qed

text \<open>The server is in sync with all lists of the same declarations or with none.\<close>

lemma synced_declarations:
  assumes "same_declarations ds ds'" "decided H ds"
  shows "synced L H U cs ds = synced L H U cs ds'"
proof -
  have "key_synced L U (at_key H k cs ds) = key_synced L U (at_key H k cs ds')" for k
  proof (cases "declared_at H k ds = []")
    case True
    with same_declarations_Nil [OF same_declarations_at [OF assms(1), of H k]] show ?thesis by (simp add: key_synced_def)
  next
    case False
    note same = same_declarations_at [OF assms(1), of H k]
    have "de_Entry (preferred (declared_at H k ds)) = de_Entry (preferred (declared_at H k ds'))"
      by (rule preferred_declarations [OF same _ decided_at [OF assms(2)] False, of k]) simp
    then show ?thesis using False same_declarations_Nil [OF same]
      by (cases "current_at H k cs") (simp_all add: key_synced_def adopt_def)
  qed
  then show ?thesis by (simp add: synced_def)
qed

end
