(* ===== verification/Entry_Converge.thy ===== *)
theory Entry_Converge
  imports Entry_Calls Entry_Declared
begin

section \<open>Convergence of the entries\<close>

text \<open>
  A reconcile of the entries as a whole, over the client and the contract of the server: it probes
  for unsupported fields, lists the resources and the entries, from the entry list cache or page by
  page, collects what the resources declare, carries out its plan in batches and updates the
  statuses. Afterwards the server is in sync with the declarations and entries of others are as they
  were, and while nothing else changes the next reconcile changes nothing.
\<close>

subsection \<open>Listing\<close>

abbreviation managed :: "'w ReconcilerConfig \<Rightarrow> Entry \<Rightarrow> bool" where
  "managed cfg e \<equiv> processed cfg e \<or> cleaned_up cfg e"

text \<open>The entry list cache is not loaded yet, or it agrees with the server, or it is due for a reload.\<close>

definition cache_usable :: "'w ReconcilerConfig \<Rightarrow> Entry list \<Rightarrow> 'c entryReconciler \<Rightarrow> bool" where
  "cache_usable cfg V r \<longleftrightarrow>
     (case er_entryCache r of None \<Rightarrow> True
      | Some c \<Rightarrow> lc_entries c = None \<or> cache_ok (managed cfg) (by_id V) c)"

lemma rec_ok_usable: "rec_ok (managed cfg) (by_id V) r \<Longrightarrow> cache_usable cfg V r"
  by (auto simp: rec_ok_def cache_usable_def split: option.splits)

lemma cache_usable_cong:
  "distinct (map e_ID V) \<Longrightarrow> mset V' = mset V \<Longrightarrow> er_entryCache r' = er_entryCache r \<Longrightarrow>
     cache_usable cfg V r \<Longrightarrow> cache_usable cfg V' r'"
  using by_id_cong [of V V'] by (auto simp: cache_usable_def split: option.splits)

text \<open>A cache that agrees with the server shows the managed entries, and only those.\<close>

lemma snapshot_view:
  assumes "cache_ok (managed cfg) (by_id V) c" "lc_nextReload c \<noteq> time_zero" "distinct (map e_ID V)" "\<And>m. ranges_over (rng m) m"
  obtains es where "splitEntries cfg (cache_snapshot rng c) = splitEntries cfg es" "mset es = mset V"
proof -
  let ?snap = "cache_snapshot rng c" and ?foreign = "filter (\<lambda>e. \<not> managed cfg e) V"
  let ?es = "filter (processed cfg) ?snap @ filter (cleaned_up cfg) ?snap @ ?foreign"
  have rng: "mset (rng m) = mset m" for m using assms(4) by (simp add: ranges_over_def)
  have c: "cache_wf c" "cache_lookup c i = Some e \<Longrightarrow> by_id V i = Some e" "by_id V i = Some e \<Longrightarrow> managed cfg e \<Longrightarrow> cache_lookup c i = Some e" for i e
    using assms(1,2) unfolding cache_ok_def cache_loaded_def by blast+
  have mem: "e \<in> set ?snap \<and> managed cfg e \<longleftrightarrow> e \<in> set V \<and> managed cfg e" for e
    unfolding snapshot_iff_lookup [OF rng c(1)] using c(2,3) by_id_Some [OF assms(3)] by blast
  have snap: "distinct ?snap" "distinct V" using snapshot_distinct [OF rng c(1)] assms(3) by (auto simp: distinct_map)
  have "distinct ?es" using snap by (auto simp: cleaned_up_iff)
  moreover have "set ?es = set V" using mem by auto
  ultimately have "mset ?es = mset V" using snap(2) set_eq_iff_mset_eq_distinct by blast
  moreover have "splitEntries cfg ?snap = splitEntries cfg ?es"
    by (auto simp: splitEntries_def filter_empty_conv cleaned_up_iff intro!: filter_cong)
  ultimately show thesis by (rule that [rotated])
qed

context entry_server
begin

lemma listed:
  assumes "rc_EntryClient cfg = C" "inv w" "time_zero \<le> ee_Now E w" "cache_usable cfg (view w) r"
    and "\<And>m. ranges_over (ee_rangeEntries E m) m"
  obtains r' es where "er_listEntries E cfg r [] w = Some (w, r', Inr (splitEntries cfg es))" "mset es = mset (view w)"
    "kept r r'" "rec_ok (managed cfg) (by_id (view w)) r'"
proof (cases "\<exists>c. er_entryCache r = Some c \<and> cache_fresh c (ee_Now E w) (filter_key [])")
  case True
  then obtain c where c: "er_entryCache r = Some c" "cache_fresh c (ee_Now E w) (filter_key [])" by blast
  then have ok: "cache_ok (managed cfg) (by_id (view w)) c" "lc_nextReload c \<noteq> time_zero"
    using assms(3,4) by (auto simp: cache_usable_def cache_fresh_def)
  obtain es where es: "splitEntries cfg (cache_snapshot (ee_rangeEntries E) c) = splitEntries cfg es" "mset es = mset (view w)"
    by (rule snapshot_view [OF ok view_ids [OF assms(2)] assms(5)])
  show thesis
    using er_listEntries_hit [of r c E w "[]" cfg, OF c] ok(1) c(1) es
    by (intro that [of "r\<lparr>er_EntryListCacheHits := er_EntryListCacheHits r + 1\<rparr>" es]) (simp_all add: kept_def rec_ok_def)
next
  case False
  obtain es where es: "ec_ListEntries (rc_EntryClient cfg) w [] = Some (w, Inr es)" "mset es = mset (view w)"
    using lists [OF assms(2)] assms(1) by auto
  obtain r' where r': "er_listEntries E cfg r [] w = Some (w, r', Inr (splitEntries cfg es))"
    "er_entryCache r' = map_option (\<lambda>c. cache_replace c (ee_Now E w) (filter_key [])
      (fst (splitEntries cfg es) @ snd (splitEntries cfg es))) (er_entryCache r)"
    using er_listEntries_miss [of r E w "[]" cfg, OF _ es(1)] False by blast
  have ids: "distinct (map e_ID es)" "set es = set (view w)"
    using view_ids [OF assms(2)] es(2) mset_eq_imp_distinct_iff [of "map e_ID es" "map e_ID (view w)"] mset_eq_setD [OF es(2)] by simp_all
  note view = by_id_Some [OF view_ids [OF assms(2)]]
  have "cache_ok (\<lambda>e. True \<and> managed cfg e) (by_id (view w)) (cache_replace c (ee_Now E w) (filter_key [])
      (fst (splitEntries cfg es) @ snd (splitEntries cfg es)))" for c
    using ids view by (intro reload_ok [where es = es and cfg = cfg]) auto
  then have "rec_ok (managed cfg) (by_id (view w)) r'" using r'(2) by (auto simp: rec_ok_def split: option.splits)
  moreover have "kept r r'"
    using r' False es(1) by (cases "er_entryCache r") (auto simp: er_listEntries_def Let_def kept_def split_beta)
  ultimately show thesis using that r'(1) es(2) by blast
qed

end

subsection \<open>Entries of others\<close>

abbreviation probe_of :: "'w ReconcilerConfig \<Rightarrow> Entry" where
  "probe_of cfg \<equiv> probe_entry (td_Name (rc_TrustDomain cfg)) (rc_EntryIDPrefix cfg)"

text \<open>Nobody else uses the IDs the reconciler draws or the probe entry, and join token entries and entries the
  configuration does not manage have keys that nothing declares.\<close>

definition unclaimed :: "('w, 'c) entry_env \<Rightarrow> 'w ReconcilerConfig \<Rightarrow> declaredEntry list \<Rightarrow> nat \<Rightarrow> Entry list \<Rightarrow> bool" where
  "unclaimed E cfg ds n V \<longleftrightarrow>
     (rc_EntryIDPrefix cfg \<noteq> '''' \<longrightarrow> (\<forall>m\<ge>n. rc_EntryIDPrefix cfg @ ee_uuid E m \<notin> e_ID ` set V)) \<and>
     creatable V [probe_of cfg] \<and>
     (\<forall>e\<in>set V. isJoinTokenEntry e \<or> \<not> managed cfg e \<longrightarrow> declared_at (env_libs E) (makeEntryKey (env_libs E) e) ds = [])"

lemma unclaimed_cong: "mset V = mset V' \<Longrightarrow> unclaimed E cfg ds n V = unclaimed E cfg ds n V'"
  using mset_eq_setD [of V V'] creatable_cong [of V V'] by (simp add: unclaimed_def)

lemma unclaimed_declarations:
  assumes "same_declarations ds ds'"
  shows "unclaimed E cfg ds n V = unclaimed E cfg ds' n V"
  unfolding unclaimed_def same_declarations_Nil [OF same_declarations_at [OF assms]] ..

text \<open>After a plan is carried out, the server has what it had and what was declared.\<close>

lemma applied_from:
  assumes plan: "plan_of H L U cfg uuid n es ds p" and noid: "\<forall>d\<in>set ds. e_ID (de_Entry d) = ''''"
    and ids: "distinct (map e_ID es)" and applied: "server_applies p es es'" "e \<in> set es'" "e \<notin> set es"
  obtains d i where "d \<in> set ds" "e = (stored (de_Entry d))\<lparr>e_ID := i\<rparr>" "processed cfg e"
    "i \<in> e_ID ` set es \<or> rc_EntryIDPrefix cfg = '''' \<or> (\<exists>m\<in>{n..<pl_UUIDs p}. i = rc_EntryIDPrefix cfg @ uuid m)"
proof -
  let ?us = "entriesFromDeclaredEntries (pl_toUpdate p)" and ?news = "entriesFromDeclaredEntries (pl_toCreate p)"
  obtain new where new: "list_all2 created_as ?news new"
    "mset es' = mset (map (apply_update ?us) (apply_deletes (idsFromEntries (pl_toDelete p)) es @ new))"
    using applied(1) by (auto simp: server_applies_def)
  obtain x where x: "x \<in> set (apply_deletes (idsFromEntries (pl_toDelete p)) es @ new)" "e = apply_update ?us x"
    using applied(2) mset_eq_setD [OF new(2)] by auto
  show thesis
  proof (cases "by_id ?us (e_ID x)")
    case (Some u)
    then have e: "e = stored u" using x(2) by (simp add: apply_update_by_id)
    have "u \<in> set ?us" using Some by (simp add: by_id_Some [OF plan_updates(1) [OF plan ids]])
    then obtain d c where d: "d \<in> set ds" "c \<in> set es" "processed cfg c" "u = (de_Entry d)\<lparr>e_ID := e_ID c\<rparr>"
      using plan_updates(3) [OF plan ids] by blast
    moreover have "processed cfg e = processed cfg c" unfolding e d(4) by (simp add: processed_iff stored_def)
    ultimately show thesis by (intro that [of d "e_ID c"]) (simp_all add: e stored_def)
  next
    case None
    then have "e = x" using x(2) by (simp add: apply_update_by_id)
    then have "e \<in> set new" using x(1) applied(3) by (auto simp: apply_deletes_def)
    then obtain u where u: "u \<in> set ?news" "created_as u e" using list_all2_right_elem [OF new(1)] by blast
    obtain d i where d: "d \<in> set ds" "u = (de_Entry d)\<lparr>e_ID := i\<rparr>" using plan_creates_from(4) [OF plan noid u(1)] by blast
    have e: "e = (stored (de_Entry d))\<lparr>e_ID := e_ID e\<rparr>" using u(2) by (simp add: d(2) created_as_def stored_def)
    show thesis
    proof (cases "rc_EntryIDPrefix cfg = ''''")
      case True
      then show thesis using d(1) e by (intro that [of d "e_ID e"]) (simp_all add: processed_iff)
    next
      case False
      have "e_ID u \<in> set (map e_ID ?news)" using u(1) by simp
      then obtain m where m: "m \<in> {n..<pl_UUIDs p}" "e_ID u = rc_EntryIDPrefix cfg @ uuid m"
        unfolding plan_creates_from(3) [OF plan noid False] by auto
      then have "e_ID e = rc_EntryIDPrefix cfg @ uuid m" using u(2) False by (auto simp: created_as_def)
      then show thesis using d(1) e m(1) by (intro that [of d "e_ID e"]) (auto simp: processed_iff HasPrefix_iff)
    qed
  qed
qed

lemma unclaimed_after:
  assumes plan: "plan_of (env_libs E) L U cfg (ee_uuid E) n es ds p" and ids: "distinct (map e_ID es)"
    and applied: "server_applies p es es'" and before: "unclaimed E cfg ds n es"
    and uuid: "inj (ee_uuid E)" "\<And>m. ee_uuid E m \<noteq> ''spire-controller-manager.unsupported-fields-test''"
    and decl: "\<forall>d\<in>set ds. e_ID (de_Entry d) = '''' \<and> \<not> isJoinTokenEntry (de_Entry d) \<and> \<not> same_identity (probe_of cfg) (de_Entry d)"
  shows "unclaimed E cfg ds (pl_UUIDs p) es'"
proof -
  let ?pfx = "rc_EntryIDPrefix cfg"
  have noid: "\<forall>d\<in>set ds. e_ID (de_Entry d) = ''''" using decl by blast
  have UUIDs: "n \<le> pl_UUIDs p" using plan by (auto simp: plan_of_def makePlan_UUIDs)
  have probe: "e_ID (probe_of cfg) = (if ?pfx \<noteq> '''' then ?pfx @ ''spire-controller-manager.unsupported-fields-test'' else '''')"
    by (simp add: probe_entry_def Let_def)
  have old: "?pfx \<noteq> '''' \<Longrightarrow> e_ID (probe_of cfg) \<notin> e_ID ` set es" "v \<in> set es \<Longrightarrow> \<not> same_identity (probe_of cfg) v"
    "?pfx \<noteq> '''' \<Longrightarrow> n \<le> m \<Longrightarrow> ?pfx @ ee_uuid E m \<notin> e_ID ` set es" for v m
    using before probe unfolding unclaimed_def creatable_def list_all_iff by (simp, simp, blast)
  note from_ = applied_from [OF plan noid ids applied]
  have ids': "e_ID e \<in> e_ID ` set es \<or> (\<exists>m\<in>{n..<pl_UUIDs p}. e_ID e = ?pfx @ ee_uuid E m)" if "?pfx \<noteq> []" "e \<in> set es'" for e
  proof (cases "e \<in> set es")
    case False
    with that show ?thesis by (elim from_ [OF that(2)]) auto
  qed simp
  have "?pfx @ ee_uuid E m \<noteq> e_ID e" if "?pfx \<noteq> []" "pl_UUIDs p \<le> m" "e \<in> set es'" for m e
    using ids' [OF that(1,3)] old(3) [OF that(1), of m] that(2) UUIDs injD [OF uuid(1)] by fastforce
  moreover have "e_ID (probe_of cfg) \<noteq> e_ID e" if "?pfx \<noteq> []" "e \<in> set es'" for e
    using ids' [OF that] old(1) [OF that(1)] uuid(2) that(1) unfolding probe by (metis append_same_eq same_append_eq)
  moreover have "\<not> same_identity (probe_of cfg) e" if "e \<in> set es'" for e
  proof (cases "e \<in> set es")
    case False
    then show ?thesis using decl by (elim from_ [OF that]) simp
  qed (rule old(2))
  moreover have "declared_at (env_libs E) (makeEntryKey (env_libs E) e) ds = []" if "e \<in> set es'" "isJoinTokenEntry e \<or> \<not> managed cfg e" for e
  proof (cases "e \<in> set es")
    case True
    then show ?thesis using before that(2) unfolding unclaimed_def by blast
  next
    case False
    then have "processed cfg e \<and> \<not> isJoinTokenEntry e"
      using decl by (elim from_ [OF that(1)]) (simp add: isJoinTokenEntry_def stored_def)
    with that(2) show ?thesis by blast
  qed
  ultimately show ?thesis using probe by (auto simp: unclaimed_def creatable_def list_all_iff)
qed

subsection \<open>In sync\<close>

text \<open>What a reconcile brings about: the processed entries are those declared, and nothing is left to clean up.\<close>

definition in_sync :: "('w, 'c) entry_env \<Rightarrow> 'w ReconcilerConfig \<Rightarrow> declaredEntry list \<Rightarrow> Entry list \<Rightarrow> bool" where
  "in_sync E cfg ds V \<longleftrightarrow>
     synced (env_spiffeid E) (env_libs E) {} (filter (processed cfg) V) ds \<and> filter (cleaned_up cfg) V = []"

lemma synced_perm:
  assumes "mset cs' = mset cs" "\<forall>e\<in>set cs. isJoinTokenEntry e \<longrightarrow> declared_at H (makeEntryKey H e) ds = []" "synced L H U cs ds"
  shows "synced L H U cs' ds"
proof -
  have "key_synced L U (at_key H k cs' ds)" for k
  proof -
    have k: "key_synced L U (at_key H k cs ds)" using assms(3) by (simp add: synced_def)
    have perm: "mset (current_at H k cs') = mset (current_at H k cs)" using assms(1) by (metis mset_filter)
    show ?thesis
    proof (cases "declared_at H k ds = []")
      case True
      then show ?thesis using k mset_eq_setD [OF perm] by (simp add: key_synced_def list_all_iff)
    next
      case False
      with k obtain c rest where c: "current_at H k cs = c # rest" "list_all isJoinTokenEntry rest"
        by (auto simp: key_synced_def split: list.splits)
      have "rest = []"
      proof (rule ccontr)
        assume "rest \<noteq> []"
        then obtain e where e: "e \<in> set rest" by (cases rest) auto
        then have "e \<in> set (current_at H k cs)" using c(1) by simp
        with e c(2) assms(2) False show False by (auto simp: list_all_iff)
      qed
      then have "current_at H k cs' = current_at H k cs" using perm c(1) by (simp add: mset_single)
      then show ?thesis using k by simp
    qed
  qed
  then show ?thesis by (simp add: synced_def)
qed

lemma in_sync_perm:
  assumes "mset V' = mset V" "unclaimed E cfg ds n V" "in_sync E cfg ds V"
  shows "in_sync E cfg ds V'"
proof -
  have "mset (filter P V') = mset (filter P V)" for P using assms(1) by (metis mset_filter)
  moreover have "\<forall>e\<in>set (filter (processed cfg) V). isJoinTokenEntry e \<longrightarrow> declared_at (env_libs E) (makeEntryKey (env_libs E) e) ds = []"
    using assms(2) by (simp add: unclaimed_def)
  ultimately show ?thesis
    using assms(3) synced_perm [of "filter (processed cfg) V'"] unfolding in_sync_def by (metis mset_zero_iff_right)
qed

lemma in_sync_declarations: "same_declarations ds ds' \<Longrightarrow> decided (env_libs E) ds \<Longrightarrow> in_sync E cfg ds V = in_sync E cfg ds' V"
  unfolding in_sync_def using synced_declarations by blast

text \<open>When the server is in sync, the plan asks nothing of it.\<close>

lemma in_sync_applied:
  assumes "plan_of (env_libs E) (env_spiffeid E) {} cfg uuid n es ds p" "in_sync E cfg ds es" "server_applies p es es'"
  shows "mset es' = mset es"
proof -
  obtain st kvs store where s: "state_matches (env_libs E) st (filter (processed cfg) es) ds" "ranges_over kvs st"
    "p = makePlan (env_spiffeid E) (rc_EntryIDPrefix cfg) uuid {} store n (map snd kvs) (filter (cleaned_up cfg) es)"
    using assms(1) by (auto simp: plan_of_def)
  then have "pl_toDelete p = []" "pl_toCreate p = []" "pl_toUpdate p = []"
    using plan_empty_iff_synced [OF s(1,2), of "env_spiffeid E" "rc_EntryIDPrefix cfg" uuid "{}" store n] assms(2)
    by (simp_all add: in_sync_def)
  with assms(3) show ?thesis
    by (auto simp: server_applies_def entriesFromDeclaredEntries_def idsFromEntries_def apply_deletes_def apply_update_def [abs_def])
qed

subsection \<open>The world around the reconciler\<close>

text \<open>What the reconciler relies on beside the server, in the worlds of \<open>inv\<close>: the resources can be listed and
  declare the entries \<open>ds\<close>, whatever their order and versions, given a render cache that is \<open>good\<close>, which it
  stays; a status update changes neither the entries of the server nor what is declared; maps are iterated over in
  some order, the clock is past the zero time, and UUIDs are never drawn twice. Declared entries are ones
  the server accepts, their TTLs are whole seconds of 32 bits (others the reconciler would update for ever), and none
  is a join token entry or the probe; where several are declared for a key, the most preferred one is determined.\<close>

locale entry_declares =
  fixes inv :: "'w \<Rightarrow> bool" and view :: "'w \<Rightarrow> Entry list" and ok :: "Entry \<Rightarrow> bool" and E :: "('w, 'c) entry_env"
    and cfg :: "'w ReconcilerConfig" and ds :: "declaredEntry list" and good :: "'c option \<Rightarrow> bool"
  assumes declares: "inv w \<Longrightarrow> good c \<Longrightarrow>
      \<exists>c' ds'. declared_entries E cfg c w = Some (Inr (c', ds')) \<and> good c' \<and> same_declarations ds ds'"
    and static_status: "rc_K8sClient cfg = Some K \<Longrightarrow> inv w \<Longrightarrow>
      inv (fst (k8s_UpdateStaticEntryStatus K w s)) \<and> view (fst (k8s_UpdateStaticEntryStatus K w s)) = view w"
    and spiffeid_status: "rc_K8sClient cfg = Some K \<Longrightarrow> inv w \<Longrightarrow>
      inv (fst (k8s_UpdateSPIFFEIDStatus K w i)) \<and> view (fst (k8s_UpdateSPIFFEIDStatus K w i)) = view w"
    and valid: "\<forall>d\<in>set ds. e_ID (de_Entry d) = '''' \<and> ttls_ok (de_Entry d) \<and> ok (de_Entry d) \<and>
      \<not> isJoinTokenEntry (de_Entry d) \<and> \<not> same_identity (probe_of cfg) (de_Entry d)"
    and decides: "decided (env_libs E) ds"
    and order: "ranges_over (ee_range E st) st" "ranges_over (ee_rangeEntries E kvs) kvs"
    and clock: "inv w \<Longrightarrow> time_zero \<le> ee_Now E w"
    and uuids: "inj (ee_uuid E)" "ee_uuid E m \<noteq> ''spire-controller-manager.unsupported-fields-test''"
    and probe_ok: "ok (probe_of cfg)"
    and sources: "sources_present cfg"

text \<open>What a reconcile starts from, and leaves.\<close>

definition ready ::
  "('w \<Rightarrow> bool) \<Rightarrow> ('w \<Rightarrow> Entry list) \<Rightarrow> ('w, 'c) entry_env \<Rightarrow> 'w ReconcilerConfig \<Rightarrow> declaredEntry list \<Rightarrow> ('c option \<Rightarrow> bool)
     \<Rightarrow> 'w \<Rightarrow> 'c entryReconciler \<Rightarrow> bool" where
  "ready I view E cfg ds good w r \<longleftrightarrow>
     I w \<and> good (er_renderCache r) \<and> er_unsupportedFields r = {} \<and>
     (er_entryCache r \<noteq> None \<longrightarrow> rc_EntryIDPrefix cfg \<noteq> '''') \<and> cache_usable cfg (view w) r \<and>
     unclaimed E cfg ds (er_UUIDs r) (view w)"

context entry_declares
begin

lemma updateStatuses_view:
  assumes "inv w" "updateStatuses cfg w store = Some w'"
  shows "inv w' \<and> view w' = view w"
proof -
  have s: "inv (updateStaticStatus (rc_K8sClient cfg) w c) \<and> view (updateStaticStatus (rc_K8sClient cfg) w c) = view w" if "inv w" for w c
    using static_status [OF _ that] that by (auto simp: updateStaticStatus_def split: option.split)
  have statics: "inv w \<Longrightarrow> inv (foldl (updateStaticStatus (rc_K8sClient cfg)) w cs) \<and>
      view (foldl (updateStaticStatus (rc_K8sClient cfg)) w cs) = view w" for w cs
    by (induction cs arbitrary: w) (simp_all add: s)
  have None [simp]: "foldl (updateSPIFFEIDStatus (rc_K8sClient cfg)) None cs = None" for cs
    by (induction cs) (simp_all add: updateSPIFFEIDStatus_def)
  have sids: "foldl (updateSPIFFEIDStatus (rc_K8sClient cfg)) (Some w) cs = Some w' \<Longrightarrow> inv w \<Longrightarrow> inv w' \<and> view w' = view w" for w w' cs
  proof (induction cs arbitrary: w)
    case (Cons c cs)
    then obtain w1 where w1: "updateSPIFFEIDStatus (rc_K8sClient cfg) (Some w) c = Some w1"
      by (cases "updateSPIFFEIDStatus (rc_K8sClient cfg) (Some w) c") simp_all
    then have "inv w1 \<and> view w1 = view w"
      using spiffeid_status [OF _ Cons.prems(2)] Cons.prems(2) by (auto simp: updateSPIFFEIDStatus_def split: option.splits if_splits)
    with Cons.IH [of w1] Cons.prems(1) w1 show ?case by simp
  qed simp
  show ?thesis
    using sids [of "foldl (updateStaticStatus (rc_K8sClient cfg)) w (bs_StaticEntries store)"] statics [OF assms(1)] assms(2)
    by (simp add: updateStatuses_def)
qed

lemma valid_declarations: "same_declarations ds ds' \<Longrightarrow> d \<in> set ds' \<Longrightarrow> e_ID (de_Entry d) = '''' \<and> ttls_ok (de_Entry d) \<and> ok (de_Entry d) \<and>
    \<not> isJoinTokenEntry (de_Entry d) \<and> \<not> same_identity (probe_of cfg) (de_Entry d)"
  using same_declarations_mem [OF same_declarations_sym] declared_as_eq(1) valid by metis

end

text \<open>With the server, and with the hint filter off: with it the listing leaves out entries whose hint nothing declares any
  more, and those are never deleted.\<close>

locale entry_convergence = entry_declares inv view ok E cfg ds good + entry_server inv view ok "rc_EntryClient cfg"
  for inv view ok and E :: "('w, 'c) entry_env" and cfg ds good +
  assumes no_hints: "\<not> rc_EnableEntryListHintFilter cfg"
begin

abbreviation rdy :: "'w \<Rightarrow> 'c entryReconciler \<Rightarrow> bool" where
  "rdy \<equiv> ready inv view E cfg ds good"

lemma probed:
  assumes "rdy w r"
  obtains w1 r1 where "(if er_nextGetUnsupportedFields r < ee_Now E w then recalculateUnsupportFields E cfg r w else Some (w, r)) = Some (w1, r1)"
    "rdy w1 r1" "mset (view w1) = mset (view w)"
proof (cases "er_nextGetUnsupportedFields r < ee_Now E w")
  case True
  have "inv w" "creatable (view w) [probe_of cfg]" using assms by (auto simp: ready_def unclaimed_def)
  with probes [OF _ probe_ok] obtain w1 where w1: "inv w1" "mset (view w1) = mset (view w)"
    "ec_GetUnsupportedFields (rc_EntryClient cfg) w (td_Name (rc_TrustDomain cfg)) (rc_EntryIDPrefix cfg) = Some (w1, Inr {})" by blast
  let ?r = "r\<lparr>er_unsupportedFields := {}, er_nextGetUnsupportedFields := ee_Now E w1 + 10 * Minute\<rparr>"
  have "rdy w1 ?r"
    using assms w1(1) cache_usable_cong [OF view_ids w1(2), of ?r r cfg] unclaimed_cong [OF w1(2), of E cfg] by (simp add: ready_def)
  then show thesis using True w1(2,3) by (intro that [of w1 ?r]) (simp_all add: recalculateUnsupportFields_def)
qed (use assms that in auto)

text \<open>Carrying out the plan made for the entries that were listed, and what it leaves.\<close>

abbreviation plan_for :: "'c entryReconciler \<Rightarrow> byStore \<Rightarrow> entriesState \<Rightarrow> Entry list \<Rightarrow> plan" where
  "plan_for r store st es \<equiv> makePlan (env_spiffeid E) (rc_EntryIDPrefix cfg) (ee_uuid E) (er_unsupportedFields r) store (er_UUIDs r)
     (map snd (ee_range E st)) (filter (cleaned_up cfg) es)"

lemma plan_carried:
  assumes rdy: "rdy w r" and rec: "rec_ok (managed cfg) (by_id (view w)) r" and es: "mset es = mset (view w)"
    and same: "same_declarations ds ds'" and st: "state_matches (env_libs E) st (filter (processed cfg) es) ds'"
    and r': "er_entryCache r' = er_entryCache r"
  obtains w2 r2 store2 where "carryOut cfg r' w (plan_for r store st es) = (w2, r2, store2)" "inv w2" "kept r' r2"
    "rec_ok (managed cfg) (by_id (view w2)) r2" "unclaimed E cfg ds (pl_UUIDs (plan_for r store st es)) (view w2)"
    "in_sync E cfg ds (view w2)" "mset (filter (\<lambda>e. \<not> managed cfg e) (view w2)) = mset (filter (\<lambda>e. \<not> managed cfg e) (view w))"
    "in_sync E cfg ds (view w) \<longrightarrow> mset (view w2) = mset (view w)"
proof -
  let ?p = "plan_for r store st es"
  have inv: "inv w" and U: "er_unsupportedFields r = {}" and pfx: "er_entryCache r \<noteq> None \<Longrightarrow> rc_EntryIDPrefix cfg \<noteq> ''''"
    using rdy by (auto simp: ready_def)
  have before: "unclaimed E cfg ds' (er_UUIDs r) es"
    using rdy unclaimed_cong [OF es, of E cfg] unclaimed_declarations [OF same, of E cfg] by (simp add: ready_def)
  have ids: "distinct (map e_ID es)"
    using view_ids [OF inv] es mset_eq_imp_distinct_iff [of "map e_ID es" "map e_ID (view w)"] by simp
  have decl: "\<forall>d\<in>set ds'. e_ID (de_Entry d) = '''' \<and> ttls_ok (de_Entry d) \<and> ok (de_Entry d)"
    and decl': "\<forall>d\<in>set ds'. e_ID (de_Entry d) = '''' \<and> \<not> isJoinTokenEntry (de_Entry d) \<and> \<not> same_identity (probe_of cfg) (de_Entry d)"
    and fresh: "rc_EntryIDPrefix cfg \<noteq> '''' \<Longrightarrow> \<forall>m\<ge>er_UUIDs r. rc_EntryIDPrefix cfg @ ee_uuid E m \<notin> e_ID ` set es"
    and keys: "\<forall>e\<in>set es. shouldProcessOrDeleteEntryID cfg e = (False, False) \<longrightarrow> declared_at (env_libs E) (makeEntryKey (env_libs E) e) ds' = []"
      "\<forall>e\<in>set es. isJoinTokenEntry e \<longrightarrow> declared_at (env_libs E) (makeEntryKey (env_libs E) e) ds' = []"
    using valid_declarations [OF same] before unfolding unclaimed_def foreign_iff by blast+
  have plan: "plan_of (env_libs E) (env_spiffeid E) {} cfg (ee_uuid E) (er_UUIDs r) es ds' ?p"
    unfolding plan_of_def U using st order(1) by blast
  have rec': "rec_ok (managed cfg) (by_id (view w)) r'" "er_entryCache r' \<noteq> None \<Longrightarrow> rc_EntryIDPrefix cfg \<noteq> ''''"
    using rec pfx r' by (simp_all add: rec_ok_def)
  obtain w2 r2 store2 where co: "carryOut cfg r' w ?p = (w2, r2, store2)" "inv w2" "kept r' r2"
    "rec_ok (managed cfg) (by_id (view w2)) r2" "server_applies ?p es (view w2)"
    by (rule carried_out [OF refl inv es rec' plan decl uuids(1) fresh keys(1)])
  have "\<forall>d\<in>set ds'. e_ID (de_Entry d) = '''' \<and> ttls_ok (de_Entry d)" using decl by blast
  note conv = plan_converges [OF st order(1) refl ids this keys(2) co(5)]
  have "in_sync E cfg ds (view w2)"
    using conv(1,2) U in_sync_declarations [OF same decides, of cfg "view w2"] by (simp add: in_sync_def)
  moreover have "mset (view w2) = mset (view w)" if "in_sync E cfg ds (view w)"
  proof -
    have "in_sync E cfg ds' es" using in_sync_perm [OF es _ that] rdy in_sync_declarations [OF same decides] by (auto simp: ready_def)
    from in_sync_applied [OF plan this co(5)] es show ?thesis by simp
  qed
  moreover have "unclaimed E cfg ds (pl_UUIDs ?p) (view w2)"
    using unclaimed_after [OF plan ids co(5) before uuids decl'] unclaimed_declarations [OF same, of E cfg] by simp
  moreover have "mset (filter (\<lambda>e. \<not> managed cfg e) (view w2)) = mset (filter (\<lambda>e. \<not> managed cfg e) (view w))"
    using conv(3) es by simp
  ultimately show thesis using that [OF co(1-4)] by blast
qed

lemma entries_step:
  assumes rdy: "rdy w r" and rec: "rec_ok (managed cfg) (by_id (view w)) r" and es: "mset es = mset (view w)"
    and col: "collect E cfg r0 w [] store = Some (r0', Inr (st0, store'))" "er_renderCache r = er_renderCache r0" "good (er_renderCache r0')"
    and same: "same_declarations ds (declared_in_state st0)" and sids: "rk_ClusterSPIFFEIDs (rc_Reconcile cfg) \<or> bs_SPIFFEIDs store = []"
  obtains w' r' where "reconcile_entries E cfg r w store (filter (processed cfg) es) (filter (cleaned_up cfg) es) = Some (w', r')"
    "rdy w' r'" "in_sync E cfg ds (view w')" "mset (filter (\<lambda>e. \<not> managed cfg e) (view w')) = mset (filter (\<lambda>e. \<not> managed cfg e) (view w))"
    "in_sync E cfg ds (view w) \<longrightarrow> mset (view w') = mset (view w)"
proof -
  let ?cs = "filter (processed cfg) es" and ?del = "filter (cleaned_up cfg) es"
  obtain r1 st where r1: "collect E cfg r w ?cs store = Some (r1, Inr (st, store'))" "er_renderCache r1 = er_renderCache r0'"
    "er_entryCache r1 = er_entryCache r" "er_unsupportedFields r1 = er_unsupportedFields r" "er_UUIDs r1 = er_UUIDs r"
    "state_matches (env_libs E) st ?cs (declared_in_state st0)" by (rule collect_sim [OF col(1,2)])
  let ?p = "plan_for r store' st es" and ?r = "r1\<lparr>er_UUIDs := pl_UUIDs (plan_for r store' st es)\<rparr>"
  have cache: "er_entryCache ?r = er_entryCache r" using r1(3) by simp
  obtain w2 r2 store2 where co: "carryOut cfg ?r w ?p = (w2, r2, store2)" "inv w2" "kept ?r r2"
    "rec_ok (managed cfg) (by_id (view w2)) r2" "unclaimed E cfg ds (pl_UUIDs ?p) (view w2)" "in_sync E cfg ds (view w2)"
    "mset (filter (\<lambda>e. \<not> managed cfg e) (view w2)) = mset (filter (\<lambda>e. \<not> managed cfg e) (view w))"
    "in_sync E cfg ds (view w) \<longrightarrow> mset (view w2) = mset (view w)"
    by (rule plan_carried [OF rdy rec es same r1(6) cache])
  have entries: "reconcile_entries E cfg r w store ?cs ?del = (case updateStatuses cfg w2 store2 of None \<Rightarrow> None | Some w \<Rightarrow> Some (w, r2))"
    by (simp add: reconcile_entries_def r1(1,4,5) co(1))
  then obtain w3 where w3: "updateStatuses cfg w2 store2 = Some w3"
    using reconcile_entries_returns [OF sources sids, of E r w ?cs ?del] by (cases "updateStatuses cfg w2 store2") auto
  have after: "inv w3" "view w3 = view w2" using updateStatuses_view [OF co(2) w3] by simp_all
  then have "rdy w3 r2" using rdy co(3,5) col(3) r1(2-4) rec_ok_usable [OF co(4)] by (auto simp: ready_def kept_def)
  then show thesis using entries w3 co(6-8) after(2) by (intro that [of w3 r2]) simp_all
qed

lemma reconcile_step:
  assumes "rdy w r"
  obtains w' r' where "reconcile E cfg r w = Some (w', r')" "rdy w' r'" "in_sync E cfg ds (view w')"
    "mset (filter (\<lambda>e. \<not> managed cfg e) (view w')) = mset (filter (\<lambda>e. \<not> managed cfg e) (view w))"
    "in_sync E cfg ds (view w) \<longrightarrow> mset (view w') = mset (view w)"
proof -
  obtain w1 r1 where p: "(if er_nextGetUnsupportedFields r < ee_Now E w then recalculateUnsupportFields E cfg r w else Some (w, r)) = Some (w1, r1)"
    "rdy w1 r1" "mset (view w1) = mset (view w)" by (rule probed [OF assms])
  have inv: "inv w1" and good: "good (er_renderCache r1)" and usable: "cache_usable cfg (view w1) r1" using p(2) by (auto simp: ready_def)
  let ?statics = "if rk_ClusterStaticEntries (rc_Reconcile cfg) then listClusterStaticEntries E cfg w1 else Some (Inr [])"
  let ?sids = "if rk_ClusterSPIFFEIDs (rc_Reconcile cfg) then listClusterSPIFFEIDs cfg w1 else Some (Inr [])"
  let ?r0 = "(Reconciler E cfg)\<lparr>er_renderCache := er_renderCache r1\<rparr>"
  obtain ss cs r0' st0 store' where d: "?statics = Some (Inr ss)" "?sids = Some (Inr cs)"
    "collect E cfg ?r0 w1 [] \<lparr>bs_StaticEntries = ss, bs_SPIFFEIDs = cs\<rparr> = Some (r0', Inr (st0, store'))"
    "good (er_renderCache r0')" "same_declarations ds (declared_in_state st0)"
    using declares [OF inv good] unfolding declared_entries_def by (auto split: option.splits sum.splits prod.splits)
  obtain r2 es where l: "er_listEntries E cfg r1 [] w1 = Some (w1, r2, Inr (splitEntries cfg es))" "mset es = mset (view w1)"
    "kept r1 r2" "rec_ok (managed cfg) (by_id (view w1)) r2" by (rule listed [where E = E, OF refl inv clock [OF inv] usable order(2)])
  have r2: "rdy w1 r2" "er_renderCache r2 = er_renderCache ?r0"
    using p(2) l(3) rec_ok_usable [OF l(4)] by (simp_all add: ready_def kept_def)
  have sids: "rk_ClusterSPIFFEIDs (rc_Reconcile cfg) \<or> bs_SPIFFEIDs \<lparr>bs_StaticEntries = ss, bs_SPIFFEIDs = cs\<rparr> = []"
    using d(2) by (auto split: if_splits)
  have hints: "entryListHints cfg cs ss = []" using no_hints by (simp add: entryListHints_def)
  obtain w' r' where s: "reconcile_entries E cfg r2 w1 \<lparr>bs_StaticEntries = ss, bs_SPIFFEIDs = cs\<rparr> (filter (processed cfg) es) (filter (cleaned_up cfg) es) = Some (w', r')"
    "rdy w' r'" "in_sync E cfg ds (view w')" "mset (filter (\<lambda>e. \<not> managed cfg e) (view w')) = mset (filter (\<lambda>e. \<not> managed cfg e) (view w1))"
    "in_sync E cfg ds (view w1) \<longrightarrow> mset (view w') = mset (view w1)"
    by (rule entries_step [OF r2(1) l(4,2) d(3) r2(2) d(4,5) sids])
  have "reconcile E cfg r w = Some (w', r')"
    unfolding reconcile_def p(1) option.case prod.case d(1,2) sum.case hints l(1) using s(1) by (simp add: splitEntries_def)
  moreover have "mset (filter P (view w1)) = mset (filter P (view w))" for P using p(3) by (metis mset_filter)
  moreover have "in_sync E cfg ds (view w) \<Longrightarrow> in_sync E cfg ds (view w1)"
    using in_sync_perm [OF p(3)] assms unfolding ready_def by blast
  ultimately show thesis using s(2-5) p(3) by (intro that [of w' r']) simp_all
qed

end

text \<open>A reconciler that has just been set up is ready when the world is.\<close>

lemma Reconciler_ready:
  assumes "I w" "good (er_renderCache (Reconciler E cfg))" "unclaimed E cfg ds 0 (view w)"
    and "rc_EnableEntryListCache cfg \<Longrightarrow> rc_EntryIDPrefix cfg \<noteq> ''''"
  shows "ready I view E cfg ds good w (Reconciler E cfg)"
  using assms by (simp add: ready_def cache_usable_def Reconciler_def)

subsection \<open>The reference world\<close>

text \<open>A static entry, and a configuration that reconciles it.\<close>

definition rpc_declared :: declaredEntry where
  "rpc_declared = sample_declared\<lparr>de_Entry := (de_Entry sample_declared)\<lparr>e_FederatesWith := [], e_DNSNames := [], e_Hint := ''''\<rparr>\<rparr>"

definition rpc_configured :: "mem_world ReconcilerConfig \<Rightarrow> bool" where
  "rpc_configured cfg \<longleftrightarrow> rk_ClusterStaticEntries (rc_Reconcile cfg) \<and> rk_ClusterSPIFFEIDs (rc_Reconcile cfg) \<and> reconcileClass cfg '''' \<and>
     rc_TrustDomain cfg = TrustDomain ''td'' \<and> rc_EntryIDPrefix cfg = ''scm.'' \<and> rc_EntryIDPrefixCleanup cfg = Some '''' \<and>
     \<not> rc_EnableEntryListHintFilter cfg"

definition rpc_cfg :: "mem_world ReconcilerConfig" where
  "rpc_cfg = mem_cfg\<lparr>rc_EntryClient := NewEntryClient ref_spiffeid mem_rpc\<rparr>"

abbreviation rpc_inv :: "mem_world \<Rightarrow> bool" where
  "rpc_inv \<equiv> mem_inv sample_world"

lemma rpc_inv_fields:
  assumes "rpc_inv w"
  shows "m_static w = m_static sample_world" "m_spiffeids w = []" "m_nodes w = []" "m_now w = 1000"
proof -
  have "w\<lparr>m_entries := []\<rparr> = sample_world\<lparr>m_entries := []\<rparr>" using assms by (simp add: mem_inv_def)
  then show "m_static w = m_static sample_world" "m_spiffeids w = []" "m_nodes w = []" "m_now w = 1000"
    by (cases w, simp add: sample_world_def)+
qed

lemma rpc_declares:
  assumes "rpc_configured cfg" "rc_K8sClient cfg = Some mem_k8s" "rpc_inv w"
  shows "declared_entries mem_env cfg c w = Some (Inr (c, [rpc_declared]))"
proof -
  let ?statics = "map (\<lambda>c. \<lparr>bse_Resource = c, bse_NextStatus = initStaticStatus\<rparr>) (m_static sample_world)"
  let ?add = "addClusterStaticEntryEntriesState mem_env [] \<lparr>bs_StaticEntries = ?statics, bs_SPIFFEIDs = []\<rparr>"
  have world: "m_static w = m_static sample_world" "m_spiffeids w = []" "m_nodes w = []" using rpc_inv_fields [OF assms(3)] by simp_all
  have "listClusterStaticEntries mem_env cfg w = Some (Inr ?statics)" "listClusterSPIFFEIDs cfg w = Some (Inr [])"
    using assms(1,2) world
    by (simp_all add: listClusterStaticEntries_def listClusterSPIFFEIDs_def ListClusterStaticEntries_def ListClusterSPIFFEIDs_def mem_k8s_def
        rpc_configured_def sample_world_def sample_static_def)
  moreover have "buildNodeMap mem_k8s w = Inr []" using world by (simp add: buildNodeMap_def ListNodes_def mem_k8s_def)
  moreover have "declared_in_state (fst (snd ?add)) = [rpc_declared]" by code_simp
  moreover have "bs_SPIFFEIDs (snd (snd ?add)) = []" by code_simp
  ultimately show ?thesis using assms(1,2)
    by (simp add: declared_entries_def rpc_configured_def collect_def addClusterSPIFFEIDEntriesState_def split_beta)
qed

lemma rpc_valid:
  "\<forall>d\<in>set [rpc_declared]. e_ID (de_Entry d) = '''' \<and> ttls_ok (de_Entry d) \<and> valid_entry ref_spiffeid (de_Entry d) \<and>
     \<not> isJoinTokenEntry (de_Entry d) \<and> \<not> same_identity (probe_entry ''td'' ''scm.'') (de_Entry d)"
  "valid_entry ref_spiffeid (probe_entry ''td'' ''scm.'')" "decided (env_libs mem_env) [rpc_declared]"
  by (code_simp, code_simp, simp add: decided_def, code_simp)

lemma rpc_entry_declares:
  assumes "rpc_configured cfg" "rc_K8sClient cfg = Some mem_k8s"
  shows "entry_declares rpc_inv m_entries (valid_entry ref_spiffeid) mem_env cfg [rpc_declared] (\<lambda>c. True)"
proof
  fix w c m
  show "\<exists>c' ds'. declared_entries mem_env cfg c w = Some (Inr (c', ds')) \<and> True \<and> same_declarations [rpc_declared] ds'"
    if "rpc_inv w" using rpc_declares [OF assms that, of c] by (simp add: same_declarations_def)
  show "\<forall>d\<in>set [rpc_declared]. e_ID (de_Entry d) = '''' \<and> ttls_ok (de_Entry d) \<and> valid_entry ref_spiffeid (de_Entry d) \<and>
      \<not> isJoinTokenEntry (de_Entry d) \<and> \<not> same_identity (probe_of cfg) (de_Entry d)"
    "valid_entry ref_spiffeid (probe_of cfg)" "decided (env_libs mem_env) [rpc_declared]"
    using rpc_valid assms(1) unfolding rpc_configured_def by simp_all
  show "time_zero \<le> ee_Now mem_env w" if "rpc_inv w"
    using rpc_inv_fields [OF that] by (simp add: mem_env_def time_zero_def Second_def)
  show "ee_uuid mem_env m \<noteq> ''spire-controller-manager.unsupported-fields-test''" "inj (ee_uuid mem_env)"
    by (simp_all add: mem_env_def inj_def)
  show "sources_present cfg" using assms by (simp add: sources_present_def)
qed (use assms in \<open>auto simp: mem_k8s_def mem_env_def ranges_over_def\<close>)

lemma rpc_cfg_configured: "rpc_configured rpc_cfg" "rc_K8sClient rpc_cfg = Some mem_k8s" "rc_EntryClient rpc_cfg = NewEntryClient ref_spiffeid mem_rpc"
  by (simp_all add: rpc_configured_def rpc_cfg_def mem_cfg_def reconcileClass_def)

interpretation mem_convergence: entry_convergence rpc_inv m_entries "valid_entry ref_spiffeid" mem_env rpc_cfg "[rpc_declared]" "\<lambda>c. True"
  using rpc_entry_declares [OF rpc_cfg_configured(1,2)] mem_entry_api.server rpc_cfg_configured(1)
  by (intro entry_convergence.intro entry_convergence_axioms.intro) (simp_all add: rpc_cfg_configured(3) rpc_configured_def)

text \<open>An entry to update, one to clean up, and one of others.\<close>

definition rpc_world :: mem_world where
  "rpc_world = sample_world\<lparr>m_entries :=
     [stored (sample_entry\<lparr>e_ID := ''scm.1''\<rparr>), stored (sample_entry\<lparr>e_ID := ''old''\<rparr>),
      stored (sample_entry\<lparr>e_ID := ''other.1'', e_SPIFFEID := ID (TrustDomain ''td'') ''/other''\<rparr>)]\<rparr>"

lemma rpc_ready:
  assumes "rpc_configured cfg"
  shows "ready rpc_inv m_entries mem_env cfg [rpc_declared] (\<lambda>c. True) rpc_world (Reconciler mem_env cfg)"
proof -
  have cfg: "rc_TrustDomain cfg = TrustDomain ''td''" "rc_EntryIDPrefix cfg = ''scm.''" "rc_EntryIDPrefixCleanup cfg = Some ''''"
    using assms by (simp_all add: rpc_configured_def)
  have inv: "rpc_inv rpc_world" unfolding mem_inv_def by (intro conjI) (simp add: rpc_world_def, code_simp+)
  have keys: "makeEntryKey (env_libs mem_env) (de_Entry rpc_declared) \<noteq>
      makeEntryKey (env_libs mem_env) (sample_entry\<lparr>e_ID := ''other.1'', e_SPIFFEID := ID (TrustDomain ''td'') ''/other''\<rparr>)" by code_simp
  have "managed cfg (stored (sample_entry\<lparr>e_ID := ''scm.1''\<rparr>))" "managed cfg (stored (sample_entry\<lparr>e_ID := ''old''\<rparr>))"
    by (simp_all add: processed_iff cleaned_up_iff cfg stored_def HasPrefix_iff ContainsChar_def)
  moreover have "list_all (\<lambda>e. \<not> isJoinTokenEntry e) (m_entries rpc_world)" "creatable (m_entries rpc_world) [probe_entry ''td'' ''scm.'']"
    by code_simp+
  moreover have "''scm.'' @ ee_uuid mem_env m \<notin> e_ID ` set (m_entries rpc_world)" for m by (simp add: rpc_world_def mem_env_def stored_def)
  ultimately have "unclaimed mem_env cfg [rpc_declared] 0 (m_entries rpc_world)"
    using keys by (simp add: unclaimed_def cfg) (simp add: rpc_world_def)
  with inv cfg(2) show ?thesis by (intro Reconciler_ready) simp_all
qed

section \<open>Properties\<close>

lemma api_convergence:
  assumes "entry_api L A I view create update delete created updated deleted" "rc_EntryClient cfg = NewEntryClient L A"
    and "entry_declares I view (valid_entry L) E cfg ds good" "\<not> rc_EnableEntryListHintFilter cfg"
  shows "entry_convergence I view (valid_entry L) E cfg ds good"
  using entry_api.server [OF assms(1)] assms(2-4) by (simp add: entry_convergence_def entry_convergence_axioms_def)

text \<open>C1: a reconcile of the entries converges. Over the client of pkg/spireapi and an API that keeps the contract of the SPIRE
  API, with the hint filter off, and from any state in which the entry list cache is empty, agrees with the server or
  is due for a reload, a reconcile returns. Afterwards the processed entries are in sync with the declarations, nothing is left to clean up,
  the entries of others are as they were, and the state is again one to start from: the next reconcile returns
  as well and changes no entry. Conditions on the environment: the resources can be listed and declare the same valid
  entries with TTLs of whole seconds; join token entries and entries of others have keys that nothing declares, and
  nobody uses the probe entry or the IDs that will be drawn (\<open>unclaimed\<close>, part of \<open>ready\<close>).\<close>

theorem reconcile_converges:
  assumes "entry_api L A I view create update delete created updated deleted" "rc_EntryClient cfg = NewEntryClient L A"
    and "entry_declares I view (valid_entry L) E cfg ds good" "\<not> rc_EnableEntryListHintFilter cfg" "ready I view E cfg ds good w r"
  shows "\<exists>w' r' w'' r''. reconcile E cfg r w = Some (w', r') \<and> ready I view E cfg ds good w' r' \<and>
    synced (env_spiffeid E) (env_libs E) {} (fst (splitEntries cfg (view w'))) ds \<and> snd (splitEntries cfg (view w')) = [] \<and>
    mset (filter (\<lambda>e. shouldProcessOrDeleteEntryID cfg e = (False, False)) (view w')) =
      mset (filter (\<lambda>e. shouldProcessOrDeleteEntryID cfg e = (False, False)) (view w)) \<and>
    reconcile E cfg r' w' = Some (w'', r'') \<and> mset (view w'') = mset (view w')"
proof -
  note conv = entry_convergence.reconcile_step [OF api_convergence [OF assms(1-4)]]
  obtain w' r' where 1: "reconcile E cfg r w = Some (w', r')" "ready I view E cfg ds good w' r'" "in_sync E cfg ds (view w')"
    "mset (filter (\<lambda>e. \<not> managed cfg e) (view w')) = mset (filter (\<lambda>e. \<not> managed cfg e) (view w))"
    by (rule conv [OF assms(5)])
  obtain w'' r'' where "reconcile E cfg r' w' = Some (w'', r'')" "mset (view w'') = mset (view w')"
    by (rule conv [OF 1(2)]) (use 1(3) in blast)
  with 1 show ?thesis by (auto simp: in_sync_def foreign_iff)
qed

theorem reconcile_converges_witness:
  "\<exists>w' r' w'' r''. reconcile mem_env rpc_cfg (Reconciler mem_env rpc_cfg) rpc_world = Some (w', r') \<and>
     synced ref_spiffeid (env_libs mem_env) {} (fst (splitEntries rpc_cfg (m_entries w'))) [rpc_declared] \<and>
     reconcile mem_env rpc_cfg r' w' = Some (w'', r'') \<and> mset (m_entries w'') = mset (m_entries w')"
proof -
  have "env_spiffeid mem_env = ref_spiffeid" by (simp add: env_spiffeid_def mem_env_def mem_crd_def)
  with reconcile_converges [OF mem_entry_api.entry_api_axioms rpc_cfg_configured(3) mem_convergence.entry_declares_axioms mem_convergence.no_hints
      rpc_ready [OF rpc_cfg_configured(1)]] show ?thesis by fastforce
qed

subsection \<open>The reconcile loop\<close>

text \<open>Others may change the world, but not the entries of the server.\<close>

abbreviation entries_kept :: "('w \<Rightarrow> bool) \<Rightarrow> ('w \<Rightarrow> Entry list) \<Rightarrow> 'w \<times> 'c entryReconciler \<Rightarrow> 'w \<times> 'c entryReconciler \<Rightarrow> bool" where
  "entries_kept I view wr wr' \<equiv> I (fst wr') \<and> view (fst wr') = view (fst wr) \<and> snd wr' = snd wr"

sublocale entry_convergence \<subseteq> reconcile_action "\<lambda>(w, r). ready inv view E cfg ds good w r" "\<lambda>(w, r). in_sync E cfg ds (view w)"
  "entry_action E cfg" "entries_kept inv view"
proof
  fix wr wr' :: "'w \<times> 'c entryReconciler"
  assume r: "case wr of (w, r) \<Rightarrow> rdy w r"
  show "case wr' of (w, r) \<Rightarrow> rdy w r" "case wr' of (w, r) \<Rightarrow> in_sync E cfg ds (view w)" if a: "entry_action E cfg wr = Some wr'"
  proof -
    have "rdy (fst wr) (snd wr)" using r by (simp add: split_beta)
    then obtain w' r' where "reconcile E cfg (snd wr) (fst wr) = Some (w', r')" "rdy w' r'" "in_sync E cfg ds (view w')"
      by (rule reconcile_step)
    then show "case wr' of (w, r) \<Rightarrow> rdy w r" "case wr' of (w, r) \<Rightarrow> in_sync E cfg ds (view w)" using a by (auto simp: split_beta)
  qed
  show "case wr' of (w, r) \<Rightarrow> rdy w r" if "entries_kept inv view wr wr'" using r that by (auto simp: ready_def)
  show "case wr' of (w, r) \<Rightarrow> in_sync E cfg ds (view w)" if "case wr of (w, r) \<Rightarrow> in_sync E cfg ds (view w)" "entries_kept inv view wr wr'"
    using that by auto
qed

context entry_convergence
begin

text \<open>While the declarations stay the same and nobody else changes the entries, the loop waits only when the server is in sync,
  and every reconcile it starts returns.\<close>

lemma entry_loop:
  assumes "runs (entry_Config E cfg gc) (entries_kept inv view) (New (w, r) now) es s" "rdy w r"
  shows "lp_phase s = Waiting d \<Longrightarrow> in_sync E cfg ds (view (fst (lp_world s)))"
    and "\<exists>x. cf_Reconcile (entry_Config E cfg gc) (lp_world s) = Some x"
proof -
  show "in_sync E cfg ds (view (fst (lp_world s)))" if "lp_phase s = Waiting d"
    using loop_post [OF assms(1) _ _ that] assms(2) by (simp add: entry_Config_def split_beta)
  have "rdy (fst (lp_world s)) (snd (lp_world s))" using loop_inv [OF assms(1)] assms(2) by (simp add: entry_Config_def split_beta)
  then obtain x where "reconcile E cfg (snd (lp_world s)) (fst (lp_world s)) = Some x" by (rule reconcile_step)
  then show "\<exists>x. cf_Reconcile (entry_Config E cfg gc) (lp_world s) = Some x" by (simp add: entry_Config_def split_beta)
qed

end

end
