(* ===== verification/Trust_Domain_Api.thy ===== *)
theory Trust_Domain_Api
  imports Batch Paging
begin

section \<open>The trust domain client (pkg/spireapi/trustdomainapi.go)\<close>

text \<open>
  The client of the SPIRE trust domain API, over the gRPC stub \<open>TrustDomainAPI\<close> as its parameter.
  The library functions the conversions use are bundled in \<open>td_libs\<close>.
\<close>

subsection \<open>Definitions\<close>

record td_libs =
  tl_spiffeid :: spiffeid_lib
  tl_x509 :: x509_lib
  tl_url :: url_lib

record 'w TrustDomainAPI =
  rpc_ListFR :: "'w \<Rightarrow> string \<Rightarrow> int \<Rightarrow> 'w \<times> (api_FederationRelationship list \<times> string) result"
  rpc_BatchCreateFR :: "'w \<Rightarrow> api_FederationRelationship list \<Rightarrow> 'w \<times> api_Status option list result"
  rpc_BatchUpdateFR :: "'w \<Rightarrow> api_FederationRelationship list \<Rightarrow> 'w \<times> api_Status option list result"
  rpc_BatchDeleteFR :: "'w \<Rightarrow> string list \<Rightarrow> 'w \<times> api_Status option list result"

text \<open>The interface \<open>TrustDomainClient\<close>.\<close>

record 'w TrustDomainClient =
  tc_ListFR :: "'w \<Rightarrow> ('w \<times> FederationRelationship list result) option"
  tc_CreateFR :: "'w \<Rightarrow> FederationRelationship list \<Rightarrow> 'w \<times> Status list \<times> err option"
  tc_UpdateFR :: "'w \<Rightarrow> FederationRelationship list \<Rightarrow> 'w \<times> Status list \<times> err option"
  tc_DeleteFR :: "'w \<Rightarrow> TrustDomain list \<Rightarrow> 'w \<times> Status list \<times> err option"

definition ListFederationRelationships ::
  "'w TrustDomainAPI \<Rightarrow> td_libs \<Rightarrow> 'w \<Rightarrow> ('w \<times> FederationRelationship list result) option" where
  "ListFederationRelationships A T w =
     (case page_loop (\<lambda>w pageToken. rpc_ListFR A w pageToken federationRelationshipListPageSize) [] '''' w of
        None \<Rightarrow> None
      | Some (w', r) \<Rightarrow>
          Some (w', bindE r (federationRelationshipsFromAPI (tl_spiffeid T) (tl_x509 T) (tl_url T))))"

text \<open>The closures of the create and update calls convert the range first and send nothing when a
  relationship of it does not convert.\<close>

definition send_converted ::
  "td_libs \<Rightarrow> ('w \<Rightarrow> api_FederationRelationship list \<Rightarrow> 'w \<times> api_Status option list result)
     \<Rightarrow> 'w \<Rightarrow> FederationRelationship list \<Rightarrow> 'w \<times> api_Status option list result" where
  "send_converted T rpc w frs =
     (case federationRelationshipsToAPI (tl_spiffeid T) (tl_x509 T) (tl_url T) frs of
        Inl e \<Rightarrow> (w, Inl e)
      | Inr out \<Rightarrow> rpc w out)"

definition CreateFederationRelationships ::
  "'w TrustDomainAPI \<Rightarrow> td_libs \<Rightarrow> 'w \<Rightarrow> FederationRelationship list \<Rightarrow> 'w \<times> Status list \<times> err option" where
  "CreateFederationRelationships A T w frs =
     (case runBatch (length frs) federationRelationshipCreateBatchSize
             (batch_rpc (send_converted T (rpc_BatchCreateFR A)) (\<lambda>s. s) frs) (w, [])
      of ((w', statuses), err) \<Rightarrow> (w', statuses, err))"

definition UpdateFederationRelationships ::
  "'w TrustDomainAPI \<Rightarrow> td_libs \<Rightarrow> 'w \<Rightarrow> FederationRelationship list \<Rightarrow> 'w \<times> Status list \<times> err option" where
  "UpdateFederationRelationships A T w frs =
     (case runBatch (length frs) federationRelationshipUpdateBatchSize
             (batch_rpc (send_converted T (rpc_BatchUpdateFR A)) (\<lambda>s. s) frs) (w, [])
      of ((w', statuses), err) \<Rightarrow> (w', statuses, err))"

definition DeleteFederationRelationships ::
  "'w TrustDomainAPI \<Rightarrow> 'w \<Rightarrow> TrustDomain list \<Rightarrow> 'w \<times> Status list \<times> err option" where
  "DeleteFederationRelationships A w tds =
     (case runBatch (length tds) federationRelationshipDeleteBatchSize
             (batch_rpc (\<lambda>w tds. rpc_BatchDeleteFR A w (trustDomainsToAPI tds)) (\<lambda>s. s) tds) (w, [])
      of ((w', statuses), err) \<Rightarrow> (w', statuses, err))"

definition NewTrustDomainClient :: "td_libs \<Rightarrow> 'w TrustDomainAPI \<Rightarrow> 'w TrustDomainClient" where
  "NewTrustDomainClient T A =
     \<lparr>tc_ListFR = ListFederationRelationships A T,
      tc_CreateFR = CreateFederationRelationships A T,
      tc_UpdateFR = UpdateFederationRelationships A T,
      tc_DeleteFR = DeleteFederationRelationships A\<rparr>"

subsection \<open>Correctness\<close>

abbreviation valid_frs :: "td_libs \<Rightarrow> FederationRelationship list \<Rightarrow> bool" where
  "valid_frs T \<equiv> list_all (valid_fr (tl_spiffeid T) (tl_x509 T) (tl_url T))"

lemma ListFederationRelationships_iff_pages:
  "ListFederationRelationships A T w = Some (w', Inr frs) \<longleftrightarrow>
     (\<exists>as. pages (\<lambda>w tok. rpc_ListFR A w tok federationRelationshipListPageSize) w '''' as w' \<and>
        federationRelationshipsFromAPI (tl_spiffeid T) (tl_x509 T) (tl_url T) as = Inr frs)"
  by (auto simp: ListFederationRelationships_def bindE_eq_Inr simp flip: page_loop_iff_pages
      split: option.splits prod.splits)

text \<open>A listed relationship can be compared without a nil dereference.\<close>

lemma ListFederationRelationships_profiles:
  assumes "ListFederationRelationships A T w = Some (w', Inr frs)" "fr \<in> set frs"
  shows "fr_BundleEndpointProfile fr \<noteq> None"
proof -
  let ?from = "federationRelationshipFromAPI (tl_spiffeid T) (tl_x509 T) (tl_url T)"
  obtain as where "mapE ?from as = Inr frs"
    using assms(1) unfolding ListFederationRelationships_iff_pages federationRelationshipsFromAPI_def
    by blast
  then obtain a where "?from a = Inr fr" using assms(2) by (blast dest: mapE_elem)
  then show ?thesis by (rule federationRelationshipFromAPI_profile)
qed

text \<open>Relationships that do not convert stop the call before anything of their range is sent.\<close>

lemma send_converted_error:
  "federationRelationshipsToAPI (tl_spiffeid T) (tl_x509 T) (tl_url T) frs = Inl e \<Longrightarrow>
     send_converted T rpc w frs = (w, Inl e)"
  by (simp add: send_converted_def)

lemma DeleteFederationRelationships_itemwise:
  assumes "serves_itemwise (rpc_BatchDeleteFR A) step out"
  shows "DeleteFederationRelationships A w tds = (foldl step w (trustDomainsToAPI tds),
    map statusFromAPI (step_results step out w (trustDomainsToAPI tds)), None)"
  using runBatch_itemwise [OF serves_itemwise_map [OF assms, of td_Name]]
  by (simp add: DeleteFederationRelationships_def trustDomainsToAPI_def foldl_map step_results_map)

end
