(* ===== verification/Federation_Reconciler.thy ===== *)
theory Federation_Reconciler
  imports Trust_Domain_Api Crd_Api
begin

section \<open>The federation relationship reconciler (pkg/spirefederationrelationship)\<close>

text \<open>
  Every reconcile lists the federation relationships of the server and the
  ClusterFederatedTrustDomains, and deletes, creates and updates relationships until they agree.
  Go maps are association lists; the order in which a \<open>range\<close> visits them is a parameter. A
  reconcile that does not return, or that panics, has the value \<open>None\<close>.
\<close>

subsection \<open>Definitions\<close>

record 'w fed_ReconcilerConfig =
  fc_TrustDomainClient :: "'w TrustDomainClient"
  fc_K8sClient :: "'w K8sClient option"
  fc_ClassName :: string
  fc_WatchClassless :: bool
  fc_StaticManifestPath :: "string option"
  fc_ExpandEnvStaticManifests :: bool
  fc_GCInterval :: Duration

text \<open>The status of a ClusterFederatedTrustDomain is never written, so the state leaves it out.\<close>

record clusterFederatedTrustDomainState =
  fs_ClusterFederatedTrustDomain :: crd_ClusterFederatedTrustDomain
  fs_FederationRelationship :: FederationRelationship

type_synonym currentRelationships = "(TrustDomain \<times> FederationRelationship) list"
type_synonym declaredTrustDomains = "(TrustDomain \<times> clusterFederatedTrustDomainState) list"

record 'w fed_env =
  fe_crd :: crd_libs
  fe_loader :: "'w \<Rightarrow> crd_ClusterFederatedTrustDomain loader"
  fe_rangeCurrent :: "currentRelationships \<Rightarrow> currentRelationships"
  fe_rangeDeclared :: "declaredTrustDomains \<Rightarrow> declaredTrustDomains"

definition fed_reconcileClass :: "'w fed_ReconcilerConfig \<Rightarrow> string \<Rightarrow> bool" where
  "fed_reconcileClass cfg className \<longleftrightarrow>
     (className = '''' \<and> fc_WatchClassless cfg) \<or> className = fc_ClassName cfg"

definition listFederationRelationships ::
  "'w fed_ReconcilerConfig \<Rightarrow> 'w \<Rightarrow> ('w \<times> currentRelationships result) option" where
  "listFederationRelationships cfg w =
     (case tc_ListFR (fc_TrustDomainClient cfg) w of
        None \<Rightarrow> None
      | Some (w', r) \<Rightarrow>
          Some (w', bindE r (\<lambda>frs. Inr (foldl (\<lambda>m fr. map_put (fr_TrustDomain fr) fr m) [] frs))))"

definition cftd_less :: "crd_ClusterFederatedTrustDomain \<Rightarrow> crd_ClusterFederatedTrustDomain \<Rightarrow> bool" where
  "cftd_less a b \<longleftrightarrow>
     (let ta = om_CreationTimestamp (cftd_Meta a); tb = om_CreationTimestamp (cftd_Meta b) in
      if ta < tb then True
      else if ta > tb then False
      else om_UID (cftd_Meta a) < om_UID (cftd_Meta b))"

definition sortClusterFederatedTrustDomainsByCreationDate ::
  "crd_ClusterFederatedTrustDomain list \<Rightarrow> crd_ClusterFederatedTrustDomain list" where
  "sortClusterFederatedTrustDomainsByCreationDate cftds = sort_by cftd_less cftds"

definition addTrustDomain ::
  "'w fed_env \<Rightarrow> 'w fed_ReconcilerConfig \<Rightarrow> declaredTrustDomains \<Rightarrow> crd_ClusterFederatedTrustDomain \<Rightarrow> declaredTrustDomains" where
  "addTrustDomain E cfg m c =
     (if \<not> fed_reconcileClass cfg (cf_ClassName (cftd_Spec c)) then m
      else case ParseClusterFederatedTrustDomainSpec (fe_crd E) (cftd_Spec c) of
        Inl _ \<Rightarrow> m
      | Inr fr \<Rightarrow>
          (case map_of m (fr_TrustDomain fr) of
             Some existing \<Rightarrow> m
           | None \<Rightarrow> map_put (fr_TrustDomain fr)
               \<lparr>fs_ClusterFederatedTrustDomain = c, fs_FederationRelationship = fr\<rparr> m))"

definition listClusterFederatedTrustDomains ::
  "'w fed_env \<Rightarrow> 'w fed_ReconcilerConfig \<Rightarrow> 'w \<Rightarrow> declaredTrustDomains result option" where
  "listClusterFederatedTrustDomains E cfg w =
     (case (case fc_K8sClient cfg of
              Some K \<Rightarrow> Some (ListClusterFederatedTrustDomains K w)
            | None \<Rightarrow>
                (case fc_StaticManifestPath cfg of
                   None \<Rightarrow> None
                 | Some path \<Rightarrow>
                     Some (static_ListClusterFederatedTrustDomains (fe_loader E w) path (fc_ExpandEnvStaticManifests cfg))))
      of None \<Rightarrow> None
      | Some res \<Rightarrow>
          Some (bindE res (\<lambda>cftds.
            Inr (foldl (addTrustDomain E cfg) [] (sortClusterFederatedTrustDomainsByCreationDate cftds)))))"

subsubsection \<open>The plan\<close>

record fed_plan =
  fp_toDelete :: "FederationRelationship list"
  fp_toCreate :: "FederationRelationship list"
  fp_toUpdate :: "FederationRelationship list"

definition fed_planDeletes :: "currentRelationships \<Rightarrow> declaredTrustDomains \<Rightarrow> FederationRelationship list" where
  "fed_planDeletes current declared =
     map snd (filter (\<lambda>(td, fr). map_of declared td = None) current)"

text \<open>The comparison dereferences the profile of the current relationship; with a nil profile the
  reconcile panics.\<close>

definition fed_planStep ::
  "currentRelationships \<Rightarrow> fed_plan option \<Rightarrow> TrustDomain \<times> clusterFederatedTrustDomainState \<Rightarrow> fed_plan option" where
  "fed_planStep current op ts =
     (case op of
        None \<Rightarrow> None
      | Some p \<Rightarrow>
          (let (trustDomain, s) = ts; fr = fs_FederationRelationship s in
           case map_of current trustDomain of
             None \<Rightarrow> Some (p\<lparr>fp_toCreate := fp_toCreate p @ [fr]\<rparr>)
           | Some currentRelationship \<Rightarrow>
               (case fr_Equal currentRelationship fr of
                  None \<Rightarrow> None
                | Some True \<Rightarrow> Some p
                | Some False \<Rightarrow> Some (p\<lparr>fp_toUpdate := fp_toUpdate p @ [fr]\<rparr>))))"

definition fed_makePlan :: "'w fed_env \<Rightarrow> currentRelationships \<Rightarrow> declaredTrustDomains \<Rightarrow> fed_plan option" where
  "fed_makePlan E current declared =
     foldl (fed_planStep current)
       (Some \<lparr>fp_toDelete = fed_planDeletes (fe_rangeCurrent E current) declared, fp_toCreate = [], fp_toUpdate = []\<rparr>)
       (fe_rangeDeclared E declared)"

subsubsection \<open>Carrying out the plan\<close>

definition trustDomainIDsFromFederationRelationships :: "FederationRelationship list \<Rightarrow> TrustDomain list" where
  "trustDomainIDsFromFederationRelationships frs = map fr_TrustDomain frs"

text \<open>The statuses of a call are only logged, each with the relationship at its index; a status without
  one is an index out of range.\<close>

definition logStatuses :: "FederationRelationship list \<Rightarrow> 'w \<times> Status list \<times> err option \<Rightarrow> 'w option" where
  "logStatuses frs res =
     (case res of
        (w, statuses, Some e) \<Rightarrow> Some w
      | (w, statuses, None) \<Rightarrow> if length statuses \<le> length frs then Some w else None)"

definition createFederationRelationships ::
  "'w fed_ReconcilerConfig \<Rightarrow> 'w \<Rightarrow> FederationRelationship list \<Rightarrow> 'w option" where
  "createFederationRelationships cfg w frs = logStatuses frs (tc_CreateFR (fc_TrustDomainClient cfg) w frs)"

definition updateFederationRelationships ::
  "'w fed_ReconcilerConfig \<Rightarrow> 'w \<Rightarrow> FederationRelationship list \<Rightarrow> 'w option" where
  "updateFederationRelationships cfg w frs = logStatuses frs (tc_UpdateFR (fc_TrustDomainClient cfg) w frs)"

definition deleteFederationRelationships ::
  "'w fed_ReconcilerConfig \<Rightarrow> 'w \<Rightarrow> FederationRelationship list \<Rightarrow> 'w option" where
  "deleteFederationRelationships cfg w frs =
     logStatuses frs (tc_DeleteFR (fc_TrustDomainClient cfg) w (trustDomainIDsFromFederationRelationships frs))"

definition fed_carryOut :: "'w fed_ReconcilerConfig \<Rightarrow> 'w \<Rightarrow> fed_plan \<Rightarrow> 'w option" where
  "fed_carryOut cfg w p =
     Option.bind (if fp_toDelete p \<noteq> [] then deleteFederationRelationships cfg w (fp_toDelete p) else Some w) (\<lambda>w.
     Option.bind (if fp_toCreate p \<noteq> [] then createFederationRelationships cfg w (fp_toCreate p) else Some w) (\<lambda>w.
     if fp_toUpdate p \<noteq> [] then updateFederationRelationships cfg w (fp_toUpdate p) else Some w))"

definition fed_reconcile :: "'w fed_env \<Rightarrow> 'w fed_ReconcilerConfig \<Rightarrow> 'w \<Rightarrow> 'w option" where
  "fed_reconcile E cfg w =
     (case listFederationRelationships cfg w of
        None \<Rightarrow> None
      | Some (w, Inl e) \<Rightarrow> Some w
      | Some (w, Inr current) \<Rightarrow>
          (case listClusterFederatedTrustDomains E cfg w of
             None \<Rightarrow> None
           | Some (Inl e) \<Rightarrow> Some w
           | Some (Inr declared) \<Rightarrow>
               (case fed_makePlan E current declared of
                  None \<Rightarrow> None
                | Some p \<Rightarrow> fed_carryOut cfg w p)))"

section \<open>Which ClusterFederatedTrustDomain wins\<close>

interpretation cftd_order: strict_weak_order "UNIV :: crd_ClusterFederatedTrustDomain set" cftd_less
  by unfold_locales (auto simp: cftd_less_def Let_def split: if_splits)

abbreviation declares ::
  "'w fed_env \<Rightarrow> 'w fed_ReconcilerConfig \<Rightarrow> crd_ClusterFederatedTrustDomain \<Rightarrow> FederationRelationship \<Rightarrow> bool" where
  "declares E cfg c fr \<equiv> fed_reconcileClass cfg (cf_ClassName (cftd_Spec c)) \<and>
     ParseClusterFederatedTrustDomainSpec (fe_crd E) (cftd_Spec c) = Inr fr"

text \<open>The first resource of the list that declares a trust domain is the one that is kept.\<close>

definition first_declaring ::
  "'w fed_env \<Rightarrow> 'w fed_ReconcilerConfig \<Rightarrow> crd_ClusterFederatedTrustDomain list \<Rightarrow> TrustDomain
     \<Rightarrow> clusterFederatedTrustDomainState option" where
  "first_declaring E cfg cs td =
     (case find (\<lambda>c. \<exists>fr. declares E cfg c fr \<and> fr_TrustDomain fr = td) cs of
        None \<Rightarrow> None
      | Some c \<Rightarrow> Some \<lparr>fs_ClusterFederatedTrustDomain = c,
          fs_FederationRelationship = projr (ParseClusterFederatedTrustDomainSpec (fe_crd E) (cftd_Spec c))\<rparr>)"

lemma addTrustDomain_fold:
  "map_of (foldl (addTrustDomain E cfg) m cs) td =
     (case map_of m td of Some s \<Rightarrow> Some s | None \<Rightarrow> first_declaring E cfg cs td)"
proof (induction cs arbitrary: m)
  case (Cons c cs)
  have "map_of (addTrustDomain E cfg m c) td =
      (case map_of m td of Some s \<Rightarrow> Some s | None \<Rightarrow> first_declaring E cfg [c] td)"
    by (cases "ParseClusterFederatedTrustDomainSpec (fe_crd E) (cftd_Spec c)")
      (auto simp: addTrustDomain_def first_declaring_def map_of_map_put split: option.splits)
  then show ?case by (auto simp: Cons.IH first_declaring_def split: option.splits)
qed (simp add: first_declaring_def split: option.split)

lemma addTrustDomain_distinct:
  "distinct (map fst m) \<Longrightarrow> distinct (map fst (foldl (addTrustDomain E cfg) m cs))"
  by (induction cs arbitrary: m) (auto simp: addTrustDomain_def distinct_map_put split: option.splits sum.splits)

lemma first_declaring_sorted:
  assumes "first_declaring E cfg (sort_by cftd_less cs) td = Some s"
  shows "fs_ClusterFederatedTrustDomain s \<in> set cs"
    and "declares E cfg (fs_ClusterFederatedTrustDomain s) (fs_FederationRelationship s)"
    and "fr_TrustDomain (fs_FederationRelationship s) = td"
    and "c \<in> set cs \<Longrightarrow> declares E cfg c fr \<Longrightarrow> fr_TrustDomain fr = td \<Longrightarrow> \<not> cftd_less c (fs_ClusterFederatedTrustDomain s)"
proof -
  let ?P = "\<lambda>c. \<exists>fr. declares E cfg c fr \<and> fr_TrustDomain fr = td" and ?xs = "sort_by cftd_less cs"
  obtain i where i: "i < length ?xs" "?P (?xs ! i)" "\<forall>j<i. \<not> ?P (?xs ! j)"
    and s: "s = \<lparr>fs_ClusterFederatedTrustDomain = ?xs ! i,
      fs_FederationRelationship = projr (ParseClusterFederatedTrustDomainSpec (fe_crd E) (cftd_Spec (?xs ! i)))\<rparr>"
    using assms unfolding first_declaring_def by (auto simp: find_Some_iff split: option.splits)
  show "fs_ClusterFederatedTrustDomain s \<in> set cs" using i(1) s nth_mem [OF i(1)] by simp
  show "declares E cfg (fs_ClusterFederatedTrustDomain s) (fs_FederationRelationship s)"
    "fr_TrustDomain (fs_FederationRelationship s) = td" using i(2) s by auto
  assume c: "c \<in> set cs" "declares E cfg c fr" "fr_TrustDomain fr = td"
  then obtain k where k: "k < length ?xs" "?xs ! k = c" by (metis in_set_conv_nth set_sort_by)
  then have "i \<le> k" using i(3) c by (metis leI)
  have sorted: "sorted_wrt (\<lambda>a b. \<not> cftd_less b a) ?xs" by (rule cftd_order.sorted_sort_by) simp
  have "\<not> cftd_less (?xs ! k) (?xs ! i)"
  proof (cases "i = k")
    case True
    then show ?thesis using cftd_order.asym by blast
  next
    case False
    with \<open>i \<le> k\<close> k(1) show ?thesis using sorted by (simp add: sorted_wrt_iff_nth_less)
  qed
  with k(2) s show "\<not> cftd_less c (fs_ClusterFederatedTrustDomain s)" by simp
qed

lemma first_declaring_None_iff:
  "first_declaring E cfg (sort_by cftd_less cs) td = None \<longleftrightarrow>
     (\<forall>c\<in>set cs. \<forall>fr. declares E cfg c fr \<longrightarrow> fr_TrustDomain fr \<noteq> td)"
proof -
  have "first_declaring E cfg (sort_by cftd_less cs) td = None \<longleftrightarrow>
      find (\<lambda>c. \<exists>fr. declares E cfg c fr \<and> fr_TrustDomain fr = td) (sort_by cftd_less cs) = None"
    by (simp add: first_declaring_def split: option.split)
  then show ?thesis by (auto simp: find_None_iff)
qed

text \<open>What a listing of ClusterFederatedTrustDomains returns.\<close>

definition lists_cftds ::
  "'w fed_env \<Rightarrow> 'w fed_ReconcilerConfig \<Rightarrow> 'w \<Rightarrow> crd_ClusterFederatedTrustDomain list \<Rightarrow> bool" where
  "lists_cftds E cfg w cs \<longleftrightarrow>
     (case fc_K8sClient cfg of
        Some K \<Rightarrow> ListClusterFederatedTrustDomains K w = Inr cs
      | None \<Rightarrow> (case fc_StaticManifestPath cfg of None \<Rightarrow> False
          | Some path \<Rightarrow> static_ListClusterFederatedTrustDomains (fe_loader E w) path (fc_ExpandEnvStaticManifests cfg) = Inr cs))"

lemma listClusterFederatedTrustDomains_iff:
  "listClusterFederatedTrustDomains E cfg w = Some (Inr m) \<longleftrightarrow>
     (\<exists>cs. lists_cftds E cfg w cs \<and> m = foldl (addTrustDomain E cfg) [] (sort_by cftd_less cs))"
  by (auto simp: listClusterFederatedTrustDomains_def lists_cftds_def bindE_eq_Inr
      sortClusterFederatedTrustDomainsByCreationDate_def split: option.splits)

lemma declared_lookup:
  "listClusterFederatedTrustDomains E cfg w = Some (Inr m) \<Longrightarrow> lists_cftds E cfg w cs \<Longrightarrow>
     map_of m td = first_declaring E cfg (sort_by cftd_less cs) td"
  unfolding listClusterFederatedTrustDomains_iff
  by (auto simp: addTrustDomain_fold lists_cftds_def split: option.splits)

lemma declared_distinct: "listClusterFederatedTrustDomains E cfg w = Some (Inr m) \<Longrightarrow> distinct (map fst m)"
  unfolding listClusterFederatedTrustDomains_iff by (auto intro: addTrustDomain_distinct)

section \<open>What the plan is\<close>

abbreviation missing :: "currentRelationships \<Rightarrow> TrustDomain \<times> clusterFederatedTrustDomainState \<Rightarrow> bool" where
  "missing current ts \<equiv> map_of current (fst ts) = None"

abbreviation differs :: "currentRelationships \<Rightarrow> TrustDomain \<times> clusterFederatedTrustDomainState \<Rightarrow> bool" where
  "differs current ts \<equiv> \<exists>fr. map_of current (fst ts) = Some fr \<and> fr_Equal fr (fs_FederationRelationship (snd ts)) = Some False"

abbreviation frs_of :: "declaredTrustDomains \<Rightarrow> FederationRelationship list" where
  "frs_of \<equiv> map (\<lambda>ts. fs_FederationRelationship (snd ts))"

abbreviation has_profiles :: "currentRelationships \<Rightarrow> bool" where
  "has_profiles current \<equiv> \<forall>td fr. map_of current td = Some fr \<longrightarrow> fr_BundleEndpointProfile fr \<noteq> None"

lemma fed_planStep_fold:
  assumes "has_profiles current"
  shows "foldl (fed_planStep current) (Some p) declared =
    Some (p\<lparr>fp_toCreate := fp_toCreate p @ frs_of (filter (missing current) declared),
            fp_toUpdate := fp_toUpdate p @ frs_of (filter (differs current) declared)\<rparr>)"
proof (induction declared arbitrary: p)
  case (Cons ts declared)
  obtain td s where ts: "ts = (td, s)" by (cases ts)
  show ?case
  proof (cases "map_of current td")
    case None
    then have "fed_planStep current (Some p) ts = Some (p\<lparr>fp_toCreate := fp_toCreate p @ [fs_FederationRelationship s]\<rparr>)"
      by (simp add: ts fed_planStep_def)
    with None show ?thesis by (simp add: Cons.IH ts)
  next
    case (Some fr)
    with assms obtain b where "fr_Equal fr (fs_FederationRelationship s) = Some b"
      using fr_Equal_no_panic [of fr "fs_FederationRelationship s"] by blast
    moreover from this Some have "fed_planStep current (Some p) ts =
        Some (if b then p else p\<lparr>fp_toUpdate := fp_toUpdate p @ [fs_FederationRelationship s]\<rparr>)"
      by (cases b) (simp_all add: ts fed_planStep_def)
    ultimately show ?thesis using Some by (cases b) (simp_all add: Cons.IH ts)
  qed
qed simp

definition fed_orders :: "'w fed_env \<Rightarrow> bool" where
  "fed_orders E \<longleftrightarrow> (\<forall>m. mset (fe_rangeCurrent E m) = mset m) \<and> (\<forall>m. mset (fe_rangeDeclared E m) = mset m)"

lemma fed_makePlan_plan:
  assumes "has_profiles current"
  shows "fed_makePlan E current declared = Some
    \<lparr>fp_toDelete = map snd (filter (\<lambda>(td, fr). map_of declared td = None) (fe_rangeCurrent E current)),
     fp_toCreate = frs_of (filter (missing current) (fe_rangeDeclared E declared)),
     fp_toUpdate = frs_of (filter (differs current) (fe_rangeDeclared E declared))\<rparr>"
  by (simp add: fed_makePlan_def fed_planDeletes_def fed_planStep_fold [OF assms])

lemma lookup_by_key:
  "map_of (foldl (\<lambda>m fr. map_put (fr_TrustDomain fr) fr m) m frs) td =
     (case map_of (map (\<lambda>fr. (fr_TrustDomain fr, fr)) (rev frs)) td of Some fr \<Rightarrow> Some fr | None \<Rightarrow> map_of m td)"
  by (induction frs arbitrary: m) (auto simp: map_of_map_put map_add_def split: option.splits)

lemma current_distinct:
  "distinct (map fst m) \<Longrightarrow> distinct (map fst (foldl (\<lambda>m fr. map_put (fr_TrustDomain fr) fr m) m frs))"
  by (induction frs arbitrary: m) (auto simp: distinct_map_put)

end
