(* ===== verification/Federation_Converge.thy ===== *)
theory Federation_Converge
  imports Federation_Reconciler
begin

section \<open>Convergence of the federation relationships\<close>

text \<open>
  Two interfaces as locales. \<open>trust_domain_server\<close> is what the reconciler relies on of its client:
  a listing shows the relationships of the server, and the batched calls change those they name.
  \<open>trust_domain_api\<close> is what the SPIRE API documents of its RPCs, one item at a time; the client of
  pkg/spireapi over such an API is a \<open>trust_domain_server\<close>, whatever the batch and page sizes.
\<close>

abbreviation by_td :: "FederationRelationship list \<Rightarrow> (TrustDomain \<times> FederationRelationship) list" where
  "by_td frs \<equiv> map (\<lambda>fr. (fr_TrustDomain fr, fr)) frs"

lemma map_of_by_td: "distinct (map fr_TrustDomain frs) \<Longrightarrow>
    map_of (by_td frs) td = Some fr \<longleftrightarrow> fr \<in> set frs \<and> fr_TrustDomain fr = td"
  by (subst map_of_eq_Some_iff) (auto simp: comp_def)

lemma map_of_by_td_None: "map_of (by_td frs) td = None \<longleftrightarrow> td \<notin> fr_TrustDomain ` set frs"
  by (auto simp: map_of_eq_None_iff image_image)

lemma by_td_TrustDomain: "map_of (by_td frs) td = Some fr \<Longrightarrow> fr \<in> set frs \<and> fr_TrustDomain fr = td"
  by (auto dest: map_of_SomeD)

lemma map_of_rev_by_td: "distinct (map fr_TrustDomain frs) \<Longrightarrow> map_of (by_td (rev frs)) = map_of (by_td frs)"
proof (rule ext)
  fix td
  assume d: "distinct (map fr_TrustDomain frs)"
  then have "distinct (map fr_TrustDomain (rev frs))" by (simp flip: rev_map)
  with d have "map_of (by_td (rev frs)) td = Some fr \<longleftrightarrow> map_of (by_td frs) td = Some fr" for fr
    by (simp add: map_of_by_td)
  then show "map_of (by_td (rev frs)) td = map_of (by_td frs) td" by (rule option_ext)
qed

text \<open>The relationships a reconcile leads to: those of the declared trust domains, current where the
  current one is equal, declared otherwise.\<close>

definition target :: "(TrustDomain \<Rightarrow> FederationRelationship option) \<Rightarrow> declaredTrustDomains
    \<Rightarrow> TrustDomain \<Rightarrow> FederationRelationship option" where
  "target V declared td =
     (case map_of declared td of
        None \<Rightarrow> None
      | Some s \<Rightarrow>
          (case V td of
             None \<Rightarrow> Some (fs_FederationRelationship s)
           | Some fr \<Rightarrow> if fr_Equal fr (fs_FederationRelationship s) = Some True then Some fr
                       else Some (fs_FederationRelationship s)))"

subsection \<open>The client as the reconciler uses it\<close>

locale trust_domain_server =
  fixes view :: "'w \<Rightarrow> TrustDomain \<Rightarrow> FederationRelationship option"
    and ok :: "FederationRelationship \<Rightarrow> bool"
    and C :: "'w TrustDomainClient"
  assumes list_view: "\<exists>frs. tc_ListFR C w = Some (w, Inr frs) \<and> distinct (map fr_TrustDomain frs) \<and>
      view w = map_of (by_td frs)"
    and profile: "view w td = Some fr \<Longrightarrow> fr_BundleEndpointProfile fr \<noteq> None"
    and create_view: "distinct (map fr_TrustDomain frs) \<Longrightarrow> list_all ok frs \<Longrightarrow>
      \<forall>fr\<in>set frs. view w (fr_TrustDomain fr) = None \<Longrightarrow>
      \<exists>w' sts. tc_CreateFR C w frs = (w', sts, None) \<and> length sts = length frs \<and> view w' = view w ++ map_of (by_td frs)"
    and update_view: "distinct (map fr_TrustDomain frs) \<Longrightarrow> list_all ok frs \<Longrightarrow>
      \<forall>fr\<in>set frs. view w (fr_TrustDomain fr) \<noteq> None \<Longrightarrow>
      \<exists>w' sts. tc_UpdateFR C w frs = (w', sts, None) \<and> length sts = length frs \<and> view w' = view w ++ map_of (by_td frs)"
    and delete_view: "distinct tds \<Longrightarrow> \<forall>td\<in>set tds. view w td \<noteq> None \<Longrightarrow>
      \<exists>w' sts. tc_DeleteFR C w tds = (w', sts, None) \<and> length sts = length tds \<and> view w' = (view w) |` (- set tds)"
begin

lemma listed:
  assumes "fc_TrustDomainClient cfg = C"
  obtains current where "listFederationRelationships cfg w = Some (w, Inr current)" "map_of current = view w"
    "distinct (map fst current)"
proof -
  obtain frs where frs: "tc_ListFR C w = Some (w, Inr frs)" "distinct (map fr_TrustDomain frs)"
    "view w = map_of (by_td frs)" using list_view by blast
  let ?m = "foldl (\<lambda>m fr. map_put (fr_TrustDomain fr) fr m) [] frs"
  have "map_of ?m = map_of (by_td (rev frs))" by (rule ext) (simp add: lookup_by_key split: option.split)
  with frs assms show thesis
    by (intro that [of ?m]) (simp_all add: listFederationRelationships_def map_of_rev_by_td current_distinct)
qed

lemma carried:
  assumes C: "fc_TrustDomainClient cfg = C"
    and del: "distinct (map fr_TrustDomain (fp_toDelete p))" "\<forall>fr\<in>set (fp_toDelete p). view w (fr_TrustDomain fr) \<noteq> None"
    and cre: "distinct (map fr_TrustDomain (fp_toCreate p))" "\<forall>fr\<in>set (fp_toCreate p). view w (fr_TrustDomain fr) = None"
      "list_all ok (fp_toCreate p)"
    and upd: "distinct (map fr_TrustDomain (fp_toUpdate p))" "\<forall>fr\<in>set (fp_toUpdate p). view w (fr_TrustDomain fr) \<noteq> None"
      "list_all ok (fp_toUpdate p)"
    and disj: "fr_TrustDomain ` set (fp_toUpdate p) \<inter> fr_TrustDomain ` set (fp_toDelete p) = {}"
  obtains w' where "fed_carryOut cfg w p = Some w'"
    "view w' = ((view w) |` (- fr_TrustDomain ` set (fp_toDelete p))) ++ map_of (by_td (fp_toCreate p))
      ++ map_of (by_td (fp_toUpdate p))"
proof -
  let ?D = "fr_TrustDomain ` set (fp_toDelete p)"
  obtain w1 where w1: "(if fp_toDelete p \<noteq> [] then deleteFederationRelationships cfg w (fp_toDelete p) else Some w) = Some w1"
    "view w1 = (view w) |` (- ?D)"
    using delete_view [of "map fr_TrustDomain (fp_toDelete p)" w] del C
    by (cases "fp_toDelete p = []") (auto simp: deleteFederationRelationships_def logStatuses_def restrict_map_def
        trustDomainIDsFromFederationRelationships_def)
  have absent: "\<forall>fr\<in>set (fp_toCreate p). view w1 (fr_TrustDomain fr) = None"
    using cre(2) w1(2) by (simp add: restrict_map_def)
  obtain w2 where w2: "(if fp_toCreate p \<noteq> [] then createFederationRelationships cfg w1 (fp_toCreate p) else Some w1) = Some w2"
    "view w2 = view w1 ++ map_of (by_td (fp_toCreate p))"
    using create_view [of "fp_toCreate p" w1] cre C absent
    by (cases "fp_toCreate p = []") (auto simp: createFederationRelationships_def logStatuses_def)
  have "\<forall>fr\<in>set (fp_toUpdate p). view w2 (fr_TrustDomain fr) \<noteq> None"
    using upd(2) disj w1(2) w2(2) by (auto simp: restrict_map_def map_add_def split: option.splits)
  then obtain w3 where w3: "(if fp_toUpdate p \<noteq> [] then updateFederationRelationships cfg w2 (fp_toUpdate p) else Some w2) = Some w3"
    "view w3 = view w2 ++ map_of (by_td (fp_toUpdate p))"
    using update_view [of "fp_toUpdate p" w2] upd C
    by (cases "fp_toUpdate p = []") (auto simp: updateFederationRelationships_def logStatuses_def)
  have "fed_carryOut cfg w p = Some w3" unfolding fed_carryOut_def w1(1) bind.bind_lunit w2(1) w3(1) ..
  with w1(2) w2(2) w3(2) show thesis by (intro that [of w3]) simp_all
qed

end

subsection \<open>The plan moves the server to its target\<close>

text \<open>What the plan of the view \<open>V\<close> does to it.\<close>

abbreviation planned ::
  "'w fed_env \<Rightarrow> currentRelationships \<Rightarrow> declaredTrustDomains \<Rightarrow> fed_plan" where
  "planned E current declared \<equiv>
    \<lparr>fp_toDelete = map snd (filter (\<lambda>(td, fr). map_of declared td = None) (fe_rangeCurrent E current)),
     fp_toCreate = frs_of (filter (missing current) (fe_rangeDeclared E declared)),
     fp_toUpdate = frs_of (filter (differs current) (fe_rangeDeclared E declared))\<rparr>"

definition keyed :: "declaredTrustDomains \<Rightarrow> bool" where
  "keyed declared \<longleftrightarrow> distinct (map fst declared) \<and> (\<forall>ts\<in>set declared. fr_TrustDomain (fs_FederationRelationship (snd ts)) = fst ts)"

lemma keyed_declared:
  assumes "listClusterFederatedTrustDomains E cfg w = Some (Inr declared)"
  shows "keyed declared"
proof -
  obtain cs where cs: "lists_cftds E cfg w cs" using assms by (auto simp: listClusterFederatedTrustDomains_iff)
  have "fr_TrustDomain (fs_FederationRelationship s) = td" if "(td, s) \<in> set declared" for td s
    using first_declaring_sorted(3) [of E cfg cs td s] declared_lookup [OF assms cs, of td]
      map_of_is_SomeI [OF declared_distinct [OF assms] that] by simp
  then show ?thesis using declared_distinct [OF assms] by (auto simp: keyed_def)
qed

lemma frs_of_tds: "keyed declared \<Longrightarrow> set xs \<subseteq> set declared \<Longrightarrow> map fr_TrustDomain (frs_of xs) = map fst xs"
  by (auto simp: keyed_def)

lemma keyed_range:
  assumes "mset xs = mset declared" "keyed declared"
  shows "keyed xs" "map_of xs = map_of declared" "set xs = set declared"
proof -
  show s: "set xs = set declared" using assms(1) by (metis set_mset_mset)
  have "distinct (map fst xs)" using assms mset_eq_imp_distinct_iff [of "map fst xs" "map fst declared"] by (simp add: keyed_def)
  then show "keyed xs" using assms(2) s by (simp add: keyed_def)
  show "map_of xs = map_of declared"
    using assms s \<open>distinct (map fst xs)\<close> by (intro map_of_inject_set [THEN iffD2]) (auto simp: keyed_def)
qed

lemma by_td_frs_of:
  assumes "keyed xs"
  shows "map_of (by_td (frs_of xs)) td = map_option fs_FederationRelationship (map_of xs td)"
  using assms by (induction xs) (auto simp: keyed_def)

lemma keyed_filter: "keyed xs \<Longrightarrow> keyed (filter P xs)"
  by (induction xs) (auto simp: keyed_def)

lemma map_of_filter_key:
  "distinct (map fst xs) \<Longrightarrow> map_of (filter P xs) td =
     (case map_of xs td of None \<Rightarrow> None | Some s \<Rightarrow> if P (td, s) then Some s else None)"
  by (induction xs) (auto simp: map_of_eq_None_iff [symmetric] split: option.splits dest: map_of_SomeD)

lemma parsed_profile:
  "ParseClusterFederatedTrustDomainSpec L spec = Inr fr \<Longrightarrow> fr_BundleEndpointProfile fr \<noteq> None"
  by (auto simp: ParseClusterFederatedTrustDomainSpec_def bindE_eq_Inr)

lemma declared_profile:
  assumes "listClusterFederatedTrustDomains E cfg w = Some (Inr declared)" "map_of declared td = Some s"
  shows "fr_BundleEndpointProfile (fs_FederationRelationship s) \<noteq> None"
proof -
  obtain cs where cs: "lists_cftds E cfg w cs" using assms(1) by (auto simp: listClusterFederatedTrustDomains_iff)
  then show ?thesis
    using first_declaring_sorted(2) [of E cfg cs td s] declared_lookup [OF assms(1) cs, of td] assms(2) parsed_profile by auto
qed

lemma target_idem:
  assumes "\<And>td s. map_of declared td = Some s \<Longrightarrow> fr_BundleEndpointProfile (fs_FederationRelationship s) \<noteq> None"
  shows "target (target V declared) declared = target V declared"
proof
  fix td
  show "target (target V declared) declared td = target V declared td"
    using fr_Equal_refl [OF assms, of td] by (auto simp: target_def split: option.splits)
qed

lemma keyed_current:
  assumes "map_of current = map_of (by_td frs)" "distinct (map fst current)" "mset xs = mset current"
  shows "map fr_TrustDomain (map snd (filter P xs)) = map fst (filter P xs)"
    and "distinct (map fst (filter P xs))" "set xs = set current" "td \<in> fst ` set xs \<longleftrightarrow> map_of current td \<noteq> None"
proof -
  show s: "set xs = set current" using assms(3) by (metis set_mset_mset)
  have "fr_TrustDomain fr = td" if "(td, fr) \<in> set xs" for td fr
    using that by_td_TrustDomain [of frs td fr] map_of_is_SomeI [OF assms(2), of td fr] s assms(1) by simp
  then show "map fr_TrustDomain (map snd (filter P xs)) = map fst (filter P xs)" by auto
  have "distinct (map fst xs)" using assms(2,3) mset_eq_imp_distinct_iff [of "map fst xs" "map fst current"] by simp
  then show "distinct (map fst (filter P xs))" by (metis distinct_map_filter)
  show "td \<in> fst ` set xs \<longleftrightarrow> map_of current td \<noteq> None" unfolding s by (simp add: map_of_eq_None_iff)
qed

lemma planned_lookup:
  assumes "keyed declared" "mset xs = mset declared"
  shows "map_of (by_td (frs_of (filter P xs))) td =
    (case map_of declared td of None \<Rightarrow> None | Some s \<Rightarrow> if P (td, s) then Some (fs_FederationRelationship s) else None)"
  using by_td_frs_of [OF keyed_filter] map_of_filter_key [of xs] keyed_range [OF assms(2,1)]
  by (simp add: keyed_def split: option.split)

lemma planned_deletes:
  assumes "map_of current = map_of (by_td frs)" "distinct (map fst current)" "mset xs = mset current"
  shows "fr_TrustDomain ` set (map snd (filter (\<lambda>(td, fr). map_of declared td = None) xs)) =
    {td. map_of declared td = None \<and> map_of current td \<noteq> None}"
proof -
  note rc = keyed_current [OF assms]
  have "fr_TrustDomain ` set (map snd (filter (\<lambda>(td, fr). map_of declared td = None) xs)) =
      set (map fst (filter (\<lambda>(td, fr). map_of declared td = None) xs))"
    unfolding rc(1) [symmetric] by (simp add: image_image)
  also have "\<dots> = {td \<in> fst ` set xs. map_of declared td = None}" by force
  finally show ?thesis using rc(4) by auto
qed

lemma planned_merge:
  assumes "fed_orders E" "keyed declared"
    and profile: "\<And>td fr. map_of current td = Some fr \<Longrightarrow> fr_BundleEndpointProfile fr \<noteq> None"
  shows "(map_of current) |` (- {td. map_of declared td = None \<and> map_of current td \<noteq> None})
      ++ map_of (by_td (fp_toCreate (planned E current declared)))
      ++ map_of (by_td (fp_toUpdate (planned E current declared))) = target (map_of current) declared"
proof
  fix td
  have ms: "mset (fe_rangeDeclared E declared) = mset declared" using assms(1) by (simp add: fed_orders_def)
  have equal: "fr_Equal fr (fs_FederationRelationship s) = Some True \<or> fr_Equal fr (fs_FederationRelationship s) = Some False"
    if "map_of current td = Some fr" for fr s
    using fr_Equal_no_panic [OF profile [OF that], of "fs_FederationRelationship s"] by (metis (full_types))
  show "((map_of current) |` (- {td. map_of declared td = None \<and> map_of current td \<noteq> None})
      ++ map_of (by_td (fp_toCreate (planned E current declared)))
      ++ map_of (by_td (fp_toUpdate (planned E current declared)))) td = target (map_of current) declared td"
    unfolding fed_plan.simps map_add_def planned_lookup [OF assms(2) ms] target_def
    by (cases "map_of declared td"; cases "map_of current td") (use equal in \<open>auto simp: restrict_map_def\<close>)
qed

context trust_domain_server
begin

lemma planned_reaches_target:
  assumes C: "fc_TrustDomainClient cfg = C" and E: "fed_orders E" and D: "keyed declared"
    and ok: "\<forall>ts\<in>set declared. ok (fs_FederationRelationship (snd ts))"
    and cur: "map_of current = view w" "distinct (map fst current)"
  obtains w' where "fed_carryOut cfg w (planned E current declared) = Some w'" "view w' = target (view w) declared"
proof -
  let ?rc = "fe_rangeCurrent E current" and ?rd = "fe_rangeDeclared E declared" and ?p = "planned E current declared"
  obtain frs where "view w = map_of (by_td frs)" using list_view by blast
  with cur(1) have frs: "map_of current = map_of (by_td frs)" by simp
  have ms: "mset ?rc = mset current" "mset ?rd = mset declared" using E by (simp_all add: fed_orders_def)
  note rc = keyed_current [OF frs cur(2) ms(1)] and rd = keyed_range [OF ms(2) D]
  have tds: "map fr_TrustDomain (frs_of (filter P ?rd)) = map fst (filter P ?rd)" "distinct (map fst (filter P ?rd))" for P
    using frs_of_tds [OF rd(1), of "filter P ?rd"] keyed_filter [OF rd(1), of P] by (auto simp: keyed_def)
  have mem: "map_of declared td = Some s \<and> fr_TrustDomain (fs_FederationRelationship s) = td" if "(td, s) \<in> set ?rd" for td s
    using that rd(1) map_of_is_SomeI [of ?rd td s] by (force simp: keyed_def simp flip: rd(2))
  have del: "fr_TrustDomain ` set (fp_toDelete ?p) = {td. map_of declared td = None \<and> map_of current td \<noteq> None}"
    unfolding fed_plan.simps by (rule planned_deletes [OF frs cur(2) ms(1)])
  obtain w' where w': "fed_carryOut cfg w ?p = Some w'"
    "view w' = ((view w) |` (- fr_TrustDomain ` set (fp_toDelete ?p))) ++ map_of (by_td (fp_toCreate ?p))
      ++ map_of (by_td (fp_toUpdate ?p))"
  proof (rule carried [OF C, of ?p w])
    show "distinct (map fr_TrustDomain (fp_toDelete ?p))" unfolding fed_plan.simps rc(1) by (rule rc(2))
    show "\<forall>fr\<in>set (fp_toDelete ?p). view w (fr_TrustDomain fr) \<noteq> None" using del unfolding cur(1) by blast
    show "distinct (map fr_TrustDomain (fp_toCreate ?p))" "distinct (map fr_TrustDomain (fp_toUpdate ?p))"
      unfolding fed_plan.simps tds(1) by (rule tds(2))+
    show "list_all ok (fp_toCreate ?p)" "list_all ok (fp_toUpdate ?p)"
      using ok rd(3) by (auto simp: list_all_iff)
    show "\<forall>fr\<in>set (fp_toCreate ?p). view w (fr_TrustDomain fr) = None"
      "\<forall>fr\<in>set (fp_toUpdate ?p). view w (fr_TrustDomain fr) \<noteq> None"
      "fr_TrustDomain ` set (fp_toUpdate ?p) \<inter> fr_TrustDomain ` set (fp_toDelete ?p) = {}"
      using mem cur(1) unfolding del by fastforce+
  qed
  have "fr_BundleEndpointProfile fr \<noteq> None" if "map_of current td = Some fr" for td fr
    using profile that unfolding cur(1) by blast
  note merge = planned_merge [OF E D this]
  have "view w' = target (view w) declared"
    using w'(2) merge unfolding del cur(1) [symmetric] by (rule trans)
  with w'(1) show thesis by (rule that)
qed

lemma reconcile_planned:
  assumes "fc_TrustDomainClient cfg = C" "listClusterFederatedTrustDomains E cfg w = Some (Inr declared)"
  obtains current where "fed_reconcile E cfg w = fed_carryOut cfg w (planned E current declared)"
    "map_of current = view w" "distinct (map fst current)"
proof -
  obtain current where c: "listFederationRelationships cfg w = Some (w, Inr current)" "map_of current = view w"
    "distinct (map fst current)" by (rule listed [OF assms(1)])
  have "has_profiles current" using profile c(2) by simp
  with c assms(2) show thesis by (intro that [of current]) (simp_all add: fed_reconcile_def fed_makePlan_plan)
qed

lemma converges:
  assumes "fc_TrustDomainClient cfg = C" "fed_orders E" "listClusterFederatedTrustDomains E cfg w = Some (Inr declared)"
    and "\<forall>ts\<in>set declared. ok (fs_FederationRelationship (snd ts))"
  obtains w' where "fed_reconcile E cfg w = Some w'" "view w' = target (view w) declared"
proof -
  obtain current where "fed_reconcile E cfg w = fed_carryOut cfg w (planned E current declared)"
    "map_of current = view w" "distinct (map fst current)" by (rule reconcile_planned [OF assms(1,3)])
  with planned_reaches_target [OF assms(1,2) keyed_declared [OF assms(3)] assms(4), of current w] that
  show thesis by auto
qed

text \<open>On the target nothing is planned, so the next reconcile makes no call that changes anything.\<close>

lemma stable:
  assumes "fc_TrustDomainClient cfg = C" "fed_orders E" "listClusterFederatedTrustDomains E cfg w = Some (Inr declared)"
    and "view w = target (view w) declared"
  shows "fed_reconcile E cfg w = Some w"
proof -
  obtain current where c: "fed_reconcile E cfg w = fed_carryOut cfg w (planned E current declared)"
    "map_of current = view w" "distinct (map fst current)" by (rule reconcile_planned [OF assms(1,3)])
  have sets: "set (fe_rangeCurrent E current) = set current" "set (fe_rangeDeclared E declared) = set declared"
    using assms(2) by (metis fed_orders_def set_mset_mset)+
  have "map_of declared td \<noteq> None" if "(td, fr) \<in> set current" for td fr
    using fun_cong [OF assms(4), of td] map_of_is_SomeI [OF c(3) that] c(2) by (auto simp: target_def split: option.splits)
  then have 1: "fp_toDelete (planned E current declared) = []" using sets by (auto simp: filter_empty_conv)
  have dec: "view w td \<noteq> None \<and> (\<forall>fr. view w td = Some fr \<longrightarrow> fr_Equal fr (fs_FederationRelationship s) \<noteq> Some False)"
    if "(td, s) \<in> set declared" for td s
  proof -
    have s: "map_of declared td = Some s" by (rule map_of_is_SomeI [OF declared_distinct [OF assms(3)] that])
    from fr_Equal_refl [OF declared_profile [OF assms(3) s]] fun_cong [OF assms(4), of td] s
    show ?thesis by (auto simp: target_def split: option.splits if_splits)
  qed
  have 2: "fp_toCreate (planned E current declared) = []" "fp_toUpdate (planned E current declared) = []"
    using dec sets c(2) by (auto simp: filter_empty_conv)
  show ?thesis unfolding c(1) fed_carryOut_def 1 2 by simp
qed

end

subsection \<open>The client over the SPIRE API\<close>

lemma runBatch_cong:
  assumes "\<And>w xs. set xs \<subseteq> set items \<Longrightarrow> send w xs = send' w xs"
  shows "runBatch n batch (batch_rpc send status items) s = runBatch n batch (batch_rpc send' status items) s"
proof -
  have "send w (slice items a b) = send' w (slice items a b)" for w a b
    by (rule assms) (auto simp: slice_def dest: in_set_takeD in_set_dropD)
  then have "batch_rpc send status items = batch_rpc send' status items" by (simp add: batch_rpc_def fun_eq_iff)
  then show ?thesis by simp
qed

locale trust_domain_api =
  fixes T :: td_libs and A :: "'w TrustDomainAPI"
    and view :: "'w \<Rightarrow> TrustDomain \<Rightarrow> FederationRelationship option"
    and create update :: "'w \<Rightarrow> api_FederationRelationship \<Rightarrow> 'w" and delete :: "'w \<Rightarrow> string \<Rightarrow> 'w"
    and created updated :: "'w \<Rightarrow> api_FederationRelationship \<Rightarrow> api_Status option"
    and deleted :: "'w \<Rightarrow> string \<Rightarrow> api_Status option"
  assumes served: "\<exists>as frs. pages (\<lambda>w tok. rpc_ListFR A w tok federationRelationshipListPageSize) w '''' as w \<and>
      federationRelationshipsToAPI (tl_spiffeid T) (tl_x509 T) (tl_url T) frs = Inr as \<and> valid_frs T frs \<and>
      distinct (map fr_TrustDomain frs) \<and> view w = map_of (by_td frs)"
    and creates: "serves_itemwise (rpc_BatchCreateFR A) create created"
    and updates: "serves_itemwise (rpc_BatchUpdateFR A) update updated"
    and deletes: "serves_itemwise (rpc_BatchDeleteFR A) delete deleted"
    and create_new: "valid_frs T [fr] \<Longrightarrow> federationRelationshipToAPI (tl_spiffeid T) (tl_x509 T) (tl_url T) fr = Inr a \<Longrightarrow>
      view w (fr_TrustDomain fr) = None \<Longrightarrow> view (create w a) = (view w)(fr_TrustDomain fr \<mapsto> fr)"
    and update_known: "valid_frs T [fr] \<Longrightarrow> federationRelationshipToAPI (tl_spiffeid T) (tl_x509 T) (tl_url T) fr = Inr a \<Longrightarrow>
      view w (fr_TrustDomain fr) \<noteq> None \<Longrightarrow> view (update w a) = (view w)(fr_TrustDomain fr \<mapsto> fr)"
    and delete_known: "view w td \<noteq> None \<Longrightarrow> view (delete w (td_Name td)) = (view w)(td := None)"
begin

abbreviation toAPI :: "FederationRelationship \<Rightarrow> api_FederationRelationship" where
  "toAPI fr \<equiv> projr (federationRelationshipToAPI (tl_spiffeid T) (tl_x509 T) (tl_url T) fr)"

lemma converts:
  assumes "valid_frs T [fr]"
  shows "federationRelationshipToAPI (tl_spiffeid T) (tl_x509 T) (tl_url T) fr = Inr (toAPI fr)"
  using fr_codec.dec_enc [of "tl_spiffeid T" "tl_x509 T" "tl_url T" fr] assms
  by (cases "federationRelationshipToAPI (tl_spiffeid T) (tl_x509 T) (tl_url T) fr") auto

lemma send_converted_valid:
  assumes "valid_frs T frs"
  shows "send_converted T rpc w frs = rpc w (map toAPI frs)"
proof -
  have "mapE (federationRelationshipToAPI (tl_spiffeid T) (tl_x509 T) (tl_url T)) frs = Inr (map toAPI frs)"
    using assms
  proof (induction frs)
    case (Cons fr frs)
    moreover obtain a where "federationRelationshipToAPI (tl_spiffeid T) (tl_x509 T) (tl_url T) fr = Inr a"
      using converts [of fr] Cons.prems by auto
    ultimately show ?case by simp
  qed simp
  then show ?thesis by (simp add: send_converted_def federationRelationshipsToAPI_def)
qed

lemma put_all:
  assumes "valid_frs T frs" "distinct (map fr_TrustDomain frs)" "\<forall>fr\<in>set frs. (view w (fr_TrustDomain fr) = None) = fresh"
    and put: "\<And>w fr a. valid_frs T [fr] \<Longrightarrow> federationRelationshipToAPI (tl_spiffeid T) (tl_x509 T) (tl_url T) fr = Inr a \<Longrightarrow>
      (view w (fr_TrustDomain fr) = None) = fresh \<Longrightarrow> view (step w a) = (view w)(fr_TrustDomain fr \<mapsto> fr)"
  shows "view (foldl (\<lambda>w fr. step w (toAPI fr)) w frs) = view w ++ map_of (by_td frs)"
  using assms(1-3)
proof (induction frs arbitrary: w)
  case (Cons fr frs)
  have v: "view (step w (toAPI fr)) = (view w)(fr_TrustDomain fr \<mapsto> fr)"
    using Cons.prems by (intro put converts) auto
  have rest: "view (foldl (\<lambda>w fr. step w (toAPI fr)) (step w (toAPI fr)) frs) = view (step w (toAPI fr)) ++ map_of (by_td frs)"
    using Cons.prems by (intro Cons.IH) (auto simp: v image_iff)
  have "(view w)(fr_TrustDomain fr \<mapsto> fr) ++ map_of (by_td frs) = view w ++ map_of (by_td (fr # frs))"
    using Cons.prems(2) map_of_by_td_None [of frs "fr_TrustDomain fr"]
    by (auto simp: fun_eq_iff map_add_def split: option.split)
  then show ?case unfolding foldl_Cons rest v .
qed simp

lemma delete_all:
  assumes "distinct tds" "\<forall>td\<in>set tds. view w td \<noteq> None"
  shows "view (foldl (\<lambda>w td. delete w (td_Name td)) w tds) = (view w) |` (- set tds)"
  using assms
proof (induction tds arbitrary: w)
  case (Cons td tds)
  have v: "view (delete w (td_Name td)) = (view w)(td := None)" using Cons.prems by (intro delete_known) simp
  have "view (foldl (\<lambda>w td. delete w (td_Name td)) (delete w (td_Name td)) tds) = (view (delete w (td_Name td))) |` (- set tds)"
    using Cons.prems by (intro Cons.IH) (auto simp: v)
  then show ?case by (auto simp: v fun_eq_iff restrict_map_def)
qed (simp add: restrict_map_def)

end

sublocale trust_domain_api \<subseteq> trust_domain_server view "valid_fr (tl_spiffeid T) (tl_x509 T) (tl_url T)" "NewTrustDomainClient T A"
proof
  fix w and frs :: "FederationRelationship list" and tds :: "TrustDomain list"
  obtain as frs0 where l: "pages (\<lambda>w tok. rpc_ListFR A w tok federationRelationshipListPageSize) w '''' as w"
    "federationRelationshipsToAPI (tl_spiffeid T) (tl_x509 T) (tl_url T) frs0 = Inr as" "valid_frs T frs0"
    "distinct (map fr_TrustDomain frs0)" "view w = map_of (by_td frs0)" using served by blast
  have "federationRelationshipsFromAPI (tl_spiffeid T) (tl_x509 T) (tl_url T) as = Inr frs0"
    using fr_codec.list_dec_enc [OF l(3)] l(2)
    by (simp add: federationRelationshipsToAPI_def federationRelationshipsFromAPI_def)
  with l(1) have lst: "ListFederationRelationships A T w = Some (w, Inr frs0)"
    unfolding ListFederationRelationships_iff_pages by blast
  with l(4,5) show "\<exists>frs. tc_ListFR (NewTrustDomainClient T A) w = Some (w, Inr frs) \<and>
      distinct (map fr_TrustDomain frs) \<and> view w = map_of (by_td frs)" by (auto simp: NewTrustDomainClient_def)
  show "fr_BundleEndpointProfile fr \<noteq> None" if "view w td = Some fr" for td fr
    using ListFederationRelationships_profiles [OF lst] by_td_TrustDomain [of frs0 td fr] that l(5) by simp
  note batch = runBatch_itemwise [where status = "\<lambda>s. s"]
  let ?conv = "\<lambda>rpc w frs. rpc w (map toAPI frs)"
  have sent: "runBatch n b (batch_rpc (send_converted T rpc) (\<lambda>s. s) frs) s = runBatch n b (batch_rpc (?conv rpc) (\<lambda>s. s) frs) s"
    if "valid_frs T frs" for rpc :: "'w \<Rightarrow> api_FederationRelationship list \<Rightarrow> 'w \<times> api_Status option list result" and n b s
    by (rule runBatch_cong, rule send_converted_valid) (use that in \<open>auto simp: list_all_iff\<close>)
  show "\<exists>w' sts. tc_CreateFR (NewTrustDomainClient T A) w frs = (w', sts, None) \<and> length sts = length frs \<and>
      view w' = view w ++ map_of (by_td frs)"
    if f: "distinct (map fr_TrustDomain frs)" "valid_frs T frs" "\<forall>fr\<in>set frs. view w (fr_TrustDomain fr) = None"
    using batch [OF serves_itemwise_map [OF creates, of toAPI]] put_all [OF f(2,1), of w True create] f(3) create_new
    by (simp add: NewTrustDomainClient_def CreateFederationRelationships_def sent [OF f(2)])
  show "\<exists>w' sts. tc_UpdateFR (NewTrustDomainClient T A) w frs = (w', sts, None) \<and> length sts = length frs \<and>
      view w' = view w ++ map_of (by_td frs)"
    if f: "distinct (map fr_TrustDomain frs)" "valid_frs T frs" "\<forall>fr\<in>set frs. view w (fr_TrustDomain fr) \<noteq> None"
    using batch [OF serves_itemwise_map [OF updates, of toAPI]] put_all [OF f(2,1), of w False update] f(3) update_known
    by (simp add: NewTrustDomainClient_def UpdateFederationRelationships_def sent [OF f(2)])
  show "\<exists>w' sts. tc_DeleteFR (NewTrustDomainClient T A) w tds = (w', sts, None) \<and> length sts = length tds \<and>
      view w' = view w |` (- set tds)" if t: "distinct tds" "\<forall>td\<in>set tds. view w td \<noteq> None"
    using batch [OF serves_itemwise_map [OF deletes, of td_Name]] delete_all [OF t]
    by (simp add: NewTrustDomainClient_def DeleteFederationRelationships_def trustDomainsToAPI_def)
qed

context trust_domain_api
begin

lemma server: "trust_domain_server view (valid_fr (tl_spiffeid T) (tl_x509 T) (tl_url T)) (NewTrustDomainClient T A)"
  by (rule trust_domain_server_axioms)

end

subsection \<open>A reference API\<close>

text \<open>The relationships of a server in memory, the latest first.\<close>

definition fed_libs :: td_libs where
  "fed_libs = \<lparr>tl_spiffeid = ref_spiffeid, tl_x509 = ref_x509, tl_url = ref_url\<rparr>"

abbreviation mem_valid :: "FederationRelationship \<Rightarrow> bool" where
  "mem_valid \<equiv> valid_fr ref_spiffeid ref_x509 ref_url"

definition mem_served :: "FederationRelationship list \<Rightarrow> FederationRelationship list" where
  "mem_served w = lo_UniqBy fr_TrustDomain (filter mem_valid w)"

definition mem_td_view :: "FederationRelationship list \<Rightarrow> TrustDomain \<Rightarrow> FederationRelationship option" where
  "mem_td_view w = map_of (by_td (filter mem_valid w))"

definition mem_put_fr :: "FederationRelationship list \<Rightarrow> api_FederationRelationship \<Rightarrow> FederationRelationship list" where
  "mem_put_fr w a = (case federationRelationshipFromAPI ref_spiffeid ref_x509 ref_url a of Inl _ \<Rightarrow> w | Inr fr \<Rightarrow> fr # w)"

definition mem_drop_fr :: "FederationRelationship list \<Rightarrow> string \<Rightarrow> FederationRelationship list" where
  "mem_drop_fr w n = filter (\<lambda>fr. td_Name (fr_TrustDomain fr) \<noteq> n) w"

definition mem_ok :: "FederationRelationship list \<Rightarrow> 'i \<Rightarrow> api_Status option" where
  "mem_ok w x = Some \<lparr>api_Code = 0, api_Message = ''''\<rparr>"

definition mem_td_api :: "FederationRelationship list TrustDomainAPI" where
  "mem_td_api =
     \<lparr>rpc_ListFR = (\<lambda>w tok n. (w, bindE (federationRelationshipsToAPI ref_spiffeid ref_x509 ref_url (mem_served w))
        (\<lambda>as. Inr (as, '''')))),
      rpc_BatchCreateFR = (\<lambda>w as. (foldl mem_put_fr w as, Inr (step_results mem_put_fr mem_ok w as))),
      rpc_BatchUpdateFR = (\<lambda>w as. (foldl mem_put_fr w as, Inr (step_results mem_put_fr mem_ok w as))),
      rpc_BatchDeleteFR = (\<lambda>w ns. (foldl mem_drop_fr w ns, Inr (step_results mem_drop_fr mem_ok w ns)))\<rparr>"

lemma map_of_uniqBy_seen:
  "td \<notin> S \<Longrightarrow> map_of (by_td (uniqBy_seen fr_TrustDomain S frs)) td = map_of (by_td frs) td"
  by (induction frs arbitrary: S) auto

lemma mem_put_valid:
  assumes "mem_valid fr" "federationRelationshipToAPI ref_spiffeid ref_x509 ref_url fr = Inr a"
  shows "mem_td_view (mem_put_fr w a) = (mem_td_view w)(fr_TrustDomain fr \<mapsto> fr)"
proof -
  have "federationRelationshipFromAPI ref_spiffeid ref_x509 ref_url a = Inr fr"
    using fr_codec.dec_enc [OF assms(1)] assms(2) by simp
  then show ?thesis using assms(1) by (simp add: mem_put_fr_def mem_td_view_def)
qed

lemma mem_drop_view: "mem_td_view (mem_drop_fr w (td_Name td)) = (mem_td_view w)(td := None)"
proof -
  have "td_Name t = td_Name td \<longleftrightarrow> t = td" for t by (cases t; cases td) auto
  then have "filter mem_valid (mem_drop_fr w (td_Name td)) = filter (\<lambda>fr. fr_TrustDomain fr \<noteq> td) (filter mem_valid w)"
    by (simp add: mem_drop_fr_def conj_commute)
  moreover have "map_of (by_td (filter (\<lambda>fr. fr_TrustDomain fr \<noteq> td) frs)) = (map_of (by_td frs))(td := None)" for frs
    by (induction frs) (auto simp: fun_eq_iff)
  ultimately show ?thesis unfolding mem_td_view_def by (simp only:)
qed

interpretation mem_api: trust_domain_api fed_libs mem_td_api mem_td_view mem_put_fr mem_put_fr mem_drop_fr mem_ok mem_ok mem_ok
proof
  fix w :: "FederationRelationship list" and fr a td
  let ?frs = "mem_served w" and ?T = fed_libs
  have valid: "list_all mem_valid ?frs"
    using lo_UniqBy_subset [of fr_TrustDomain "filter mem_valid w"] by (auto simp: mem_served_def list_all_iff)
  obtain as where as: "federationRelationshipsToAPI ref_spiffeid ref_x509 ref_url ?frs = Inr as"
    using fr_codec.list_enc [OF valid] by (auto simp: federationRelationshipsToAPI_def)
  have "pages (\<lambda>w tok. rpc_ListFR mem_td_api w tok federationRelationshipListPageSize) w '''' as w"
    using as by (intro pages.last_page) (simp add: mem_td_api_def)
  moreover have "distinct (map fr_TrustDomain ?frs)" by (simp add: mem_served_def lo_UniqBy_distinct)
  moreover have "mem_td_view w = map_of (by_td ?frs)"
    by (rule ext) (simp add: mem_td_view_def mem_served_def lo_UniqBy_def map_of_uniqBy_seen)
  ultimately show "\<exists>as frs. pages (\<lambda>w tok. rpc_ListFR mem_td_api w tok federationRelationshipListPageSize) w '''' as w \<and>
      federationRelationshipsToAPI (tl_spiffeid ?T) (tl_x509 ?T) (tl_url ?T) frs = Inr as \<and> valid_frs ?T frs \<and>
      distinct (map fr_TrustDomain frs) \<and> mem_td_view w = map_of (by_td frs)"
    using as valid by (intro exI [of _ as] exI [of _ ?frs]) (simp add: fed_libs_def)
qed (simp_all add: serves_itemwise_def mem_td_api_def mem_put_valid mem_drop_view fed_libs_def)

section \<open>Properties\<close>

text \<open>C23: a reconcile over the client of pkg/spireapi brings the relationships of the server to the declared
  ones. It returns; afterwards the server has a relationship for exactly the declared trust domains, the
  current one where it was equal and the declared one otherwise; and while the resources do not change, the
  next reconcile changes nothing.\<close>

theorem fed_reconcile_converges:
  assumes "trust_domain_api T A view create update delete created updated deleted"
    and "fc_TrustDomainClient cfg = NewTrustDomainClient T A" "fed_orders E"
    and "listClusterFederatedTrustDomains E cfg w = Some (Inr declared)"
    and "\<forall>ts\<in>set declared. valid_fr (tl_spiffeid T) (tl_x509 T) (tl_url T) (fs_FederationRelationship (snd ts))"
  shows "\<exists>w'. fed_reconcile E cfg w = Some w' \<and> view w' = target (view w) declared \<and>
    (listClusterFederatedTrustDomains E cfg w' = Some (Inr declared) \<longrightarrow> fed_reconcile E cfg w' = Some w')"
proof -
  have server: "trust_domain_server view (valid_fr (tl_spiffeid T) (tl_x509 T) (tl_url T)) (NewTrustDomainClient T A)"
    by (rule trust_domain_api.server [OF assms(1)])
  obtain w' where w': "fed_reconcile E cfg w = Some w'" "view w' = target (view w) declared"
    by (rule trust_domain_server.converges [OF server assms(2-5)])
  have "target (view w') declared = view w'"
    unfolding w'(2) by (rule target_idem) (rule declared_profile [OF assms(4)])
  with w' trust_domain_server.stable [OF server assms(2,3), of w' declared] show ?thesis by auto
qed

definition sample_cftd :: "string \<Rightarrow> int \<Rightarrow> string \<Rightarrow> crd_ClusterFederatedTrustDomain" where
  "sample_cftd uid created url =
     \<lparr>cftd_Meta = \<lparr>om_Name = uid, om_Namespace = '''', om_UID = uid, om_ResourceVersion = ''1'',
        om_CreationTimestamp = created, om_DeletionTimestamp = None, om_Rest = ''''\<rparr>,
      cftd_Spec = \<lparr>cf_TrustDomain = ''td2'', cf_BundleEndpointURL = url, cf_ProfileType = ''https_web'',
        cf_EndpointSPIFFEID = '''', cf_TrustDomainBundle = '''', cf_ClassName = ''''\<rparr>\<rparr>"

definition fed_k8s :: "FederationRelationship list K8sClient" where
  "fed_k8s =
     \<lparr>k8s_ListClusterStaticEntry = (\<lambda>w. Inr []), k8s_ListClusterSPIFFEID = (\<lambda>w. Inr []),
      k8s_ListClusterFederatedTrustDomain = (\<lambda>w. Inr [sample_cftd ''b'' 20 ''https://new'', sample_cftd ''a'' 10 ''https://old'']),
      k8s_ListNamespace = (\<lambda>w opts. Inr []), k8s_ListNode = (\<lambda>w opts. Inr []), k8s_ListPod = (\<lambda>w opts. Inr []),
      k8s_ListEndpoints = (\<lambda>w opts. Inr []), k8s_UpdateStaticEntryStatus = (\<lambda>w c. (w, None)),
      k8s_UpdateSPIFFEIDStatus = (\<lambda>w c. (w, None))\<rparr>"

definition fed_crd :: crd_libs where
  "fed_crd =
     \<lparr>cl_spiffeid = ref_spiffeid, cl_url = ref_url, cl_template_Parse = (\<lambda>s. Inr (\<lambda>d. Inr s)),
      cl_LabelSelectorAsSelector = Inr, cl_spiffebundle_Read = (\<lambda>td s. Inl (Err ''not a bundle''))\<rparr>"

definition fed_sample_env :: "FederationRelationship list fed_env" where
  "fed_sample_env =
     \<lparr>fe_crd = fed_crd,
      fe_loader = (\<lambda>w. \<lparr>ld_ReadDir = (\<lambda>_. Inr []), ld_Join = (@), ld_ReadFile = (\<lambda>_. Inl (Err ''no file'')),
        ld_ExpandEnv = (\<lambda>s. s), ld_Decode = (\<lambda>_. Inl (Err ''no object''))\<rparr>),
      fe_rangeCurrent = (\<lambda>m. m), fe_rangeDeclared = rev\<rparr>"

definition fed_sample_cfg :: "FederationRelationship list fed_ReconcilerConfig" where
  "fed_sample_cfg =
     \<lparr>fc_TrustDomainClient = NewTrustDomainClient fed_libs mem_td_api, fc_K8sClient = Some fed_k8s, fc_ClassName = '''',
      fc_WatchClassless = False, fc_StaticManifestPath = None, fc_ExpandEnvStaticManifests = False, fc_GCInterval = 10\<rparr>"

definition sample_winner :: clusterFederatedTrustDomainState where
  "sample_winner = \<lparr>fs_ClusterFederatedTrustDomain = sample_cftd ''a'' 10 ''https://old'',
     fs_FederationRelationship = \<lparr>fr_TrustDomain = TrustDomain ''td2'', fr_BundleEndpointURL = ''https://old'',
       fr_BundleEndpointProfile = Some HTTPSWebProfile, fr_TrustDomainBundle = None\<rparr>\<rparr>"

lemma sample_declared_tds:
  "listClusterFederatedTrustDomains fed_sample_env fed_sample_cfg w = Some (Inr [(TrustDomain ''td2'', sample_winner)])"
proof -
  have "(case listClusterFederatedTrustDomains fed_sample_env fed_sample_cfg [] of
      Some (Inr m) \<Rightarrow> m = [(TrustDomain ''td2'', sample_winner)] | _ \<Rightarrow> False) = True" by code_simp
  moreover have "listClusterFederatedTrustDomains fed_sample_env fed_sample_cfg w =
      listClusterFederatedTrustDomains fed_sample_env fed_sample_cfg []"
    by (simp add: listClusterFederatedTrustDomains_def fed_sample_cfg_def fed_sample_env_def fed_k8s_def
        ListClusterFederatedTrustDomains_def addTrustDomain_def [abs_def] fed_reconcileClass_def)
  ultimately show ?thesis by (auto split: option.splits sum.splits)
qed

theorem fed_reconcile_converges_witness:
  "\<exists>w'. fed_reconcile fed_sample_env fed_sample_cfg [sample_fr] = Some w' \<and>
     mem_td_view w' (TrustDomain ''td2'') = Some (fs_FederationRelationship sample_winner)"
proof -
  have "mem_valid (fs_FederationRelationship sample_winner)"
    by (simp add: sample_winner_def valid_fr_def spiffeid_sample_simps ref_url_def ValidateBundleEndpointURL_def)
  then have valid: "\<forall>ts\<in>set [(TrustDomain ''td2'', sample_winner)].
      valid_fr (tl_spiffeid fed_libs) (tl_x509 fed_libs) (tl_url fed_libs) (fs_FederationRelationship (snd ts))"
    by (simp add: fed_libs_def)
  have "fed_orders fed_sample_env" by (simp add: fed_orders_def fed_sample_env_def)
  from fed_reconcile_converges [OF mem_api.trust_domain_api_axioms _ this sample_declared_tds valid, of "[sample_fr]"]
  obtain w' where "fed_reconcile fed_sample_env fed_sample_cfg [sample_fr] = Some w'"
    "mem_td_view w' = target (mem_td_view [sample_fr]) [(TrustDomain ''td2'', sample_winner)]"
    by (auto simp: fed_sample_cfg_def)
  then show ?thesis
    by (auto simp: target_def mem_td_view_def sample_fr_valid sample_fr_def sample_winner_def fr_Equal_def)
qed

text \<open>Created before, or at the same time and not with a larger UID.\<close>

definition older :: "crd_ClusterFederatedTrustDomain \<Rightarrow> crd_ClusterFederatedTrustDomain \<Rightarrow> bool" where
  "older a b \<longleftrightarrow>
     om_CreationTimestamp (cftd_Meta a) < om_CreationTimestamp (cftd_Meta b) \<or>
     om_CreationTimestamp (cftd_Meta a) = om_CreationTimestamp (cftd_Meta b) \<and> om_UID (cftd_Meta a) \<le> om_UID (cftd_Meta b)"

lemma not_cftd_less: "\<not> cftd_less b a \<Longrightarrow> older a b"
  by (auto simp: cftd_less_def older_def Let_def split: if_splits)

text \<open>C24: conflicting ClusterFederatedTrustDomains. A trust domain is declared exactly when a valid resource of a
  watched class names it; the resource that counts is one of those, and none of them is older, or of the same
  age with a smaller UID. Where UIDs identify resources, the outcome does not depend on the order in which
  the resources are listed.\<close>

theorem trust_domain_conflicts:
  assumes "listClusterFederatedTrustDomains E cfg w = Some (Inr m)" "lists_cftds E cfg w cs"
  shows "(map_of m td = None \<longleftrightarrow> (\<forall>c\<in>set cs. \<forall>fr. declares E cfg c fr \<longrightarrow> fr_TrustDomain fr \<noteq> td)) \<and>
    (\<forall>s. map_of m td = Some s \<longrightarrow>
       fs_ClusterFederatedTrustDomain s \<in> set cs \<and>
       declares E cfg (fs_ClusterFederatedTrustDomain s) (fs_FederationRelationship s) \<and>
       fr_TrustDomain (fs_FederationRelationship s) = td \<and>
       (\<forall>c\<in>set cs. \<forall>fr. declares E cfg c fr \<and> fr_TrustDomain fr = td \<longrightarrow>
          older (fs_ClusterFederatedTrustDomain s) c)) \<and>
    (\<forall>cs' w' m'. lists_cftds E cfg w' cs' \<and> listClusterFederatedTrustDomains E cfg w' = Some (Inr m') \<and>
       mset cs' = mset cs \<and> distinct (map (\<lambda>c. om_UID (cftd_Meta c)) cs) \<longrightarrow> m' = m)"
proof (intro conjI allI impI)
  note look = declared_lookup [OF assms]
  show "map_of m td = None \<longleftrightarrow> (\<forall>c\<in>set cs. \<forall>fr. declares E cfg c fr \<longrightarrow> fr_TrustDomain fr \<noteq> td)"
    unfolding look by (rule first_declaring_None_iff)
  fix s
  assume "map_of m td = Some s"
  note s = first_declaring_sorted [OF this [unfolded look]]
  show "fs_ClusterFederatedTrustDomain s \<in> set cs" "fr_TrustDomain (fs_FederationRelationship s) = td"
    using s by blast+
  show "fed_reconcileClass cfg (cf_ClassName (cftd_Spec (fs_ClusterFederatedTrustDomain s)))"
    "ParseClusterFederatedTrustDomainSpec (fe_crd E) (cftd_Spec (fs_ClusterFederatedTrustDomain s)) = Inr (fs_FederationRelationship s)"
    using s(2) by blast+
  show "\<forall>c\<in>set cs. \<forall>fr. declares E cfg c fr \<and> fr_TrustDomain fr = td \<longrightarrow> older (fs_ClusterFederatedTrustDomain s) c"
    using s(4) not_cftd_less by blast
next
  fix cs' w' m'
  assume a: "lists_cftds E cfg w' cs' \<and> listClusterFederatedTrustDomains E cfg w' = Some (Inr m') \<and>
    mset cs' = mset cs \<and> distinct (map (\<lambda>c. om_UID (cftd_Meta c)) cs)"
  have inj: "inj_on (\<lambda>c. om_UID (cftd_Meta c)) (set cs)" using a by (simp add: distinct_map)
  have "strict_total_order (set cs) cftd_less"
  proof unfold_locales
    show "x = y" if "x \<in> set cs" "y \<in> set cs" "\<not> cftd_less x y" "\<not> cftd_less y x" for x y
      using that inj by (auto simp: cftd_less_def Let_def inj_on_def split: if_splits)
  qed (auto simp: cftd_less_def Let_def split: if_splits)
  then have "sort_by cftd_less cs = sort_by cftd_less cs'"
    by (rule strict_total_order.sort_by_cong_mset [OF _ order_refl]) (use a in \<open>simp only:\<close>)
  moreover have "m = foldl (addTrustDomain E cfg) [] (sort_by cftd_less cs)" "m' = foldl (addTrustDomain E cfg) [] (sort_by cftd_less cs')"
    using a assms unfolding listClusterFederatedTrustDomains_iff
    by (auto simp: lists_cftds_def split: option.splits)
  ultimately show "m' = m" by simp
qed

theorem trust_domain_conflicts_witness:
  "map_of [(TrustDomain ''td2'', sample_winner)] (TrustDomain ''td2'') = Some sample_winner \<and>
   older (fs_ClusterFederatedTrustDomain sample_winner) (sample_cftd ''b'' 20 ''https://new'')"
proof -
  have cs: "lists_cftds fed_sample_env fed_sample_cfg [] [sample_cftd ''b'' 20 ''https://new'', sample_cftd ''a'' 10 ''https://old'']"
    by (simp add: lists_cftds_def fed_sample_cfg_def fed_k8s_def ListClusterFederatedTrustDomains_def)
  have "\<exists>fr. declares fed_sample_env fed_sample_cfg (sample_cftd ''b'' 20 ''https://new'') fr \<and> fr_TrustDomain fr = TrustDomain ''td2''"
    by (simp add: fed_reconcileClass_def fed_sample_cfg_def fed_sample_env_def fed_crd_def sample_cftd_def
        ParseClusterFederatedTrustDomainSpec_def ref_spiffeid_def ref_url_def ValidateBundleEndpointURL_def
        HTTPSWebProfileType_def)
  then obtain fr where fr: "declares fed_sample_env fed_sample_cfg (sample_cftd ''b'' 20 ''https://new'') fr"
    "fr_TrustDomain fr = TrustDomain ''td2''" by blast
  have "map_of [(TrustDomain ''td2'', sample_winner)] (TrustDomain ''td2'') = Some sample_winner" by simp
  moreover note c = trust_domain_conflicts [OF sample_declared_tds cs, of "TrustDomain ''td2''", THEN conjunct2, THEN conjunct1,
      rule_format, OF this]
  have "older (fs_ClusterFederatedTrustDomain sample_winner) (sample_cftd ''b'' 20 ''https://new'')"
    using c [THEN conjunct2, THEN conjunct2, THEN conjunct2, rule_format, of "sample_cftd ''b'' 20 ''https://new''" fr] fr
    by simp
  ultimately show ?thesis by (rule conjI)
qed

definition no_extra_results :: "('w \<Rightarrow> 'i list \<Rightarrow> 'w \<times> 'r list result) \<Rightarrow> bool" where
  "no_extra_results rpc \<longleftrightarrow> (\<forall>w xs w' rs. rpc w xs = (w', Inr rs) \<longrightarrow> length rs \<le> length xs)"

lemma run_ranges_statuses:
  assumes "no_extra_results send" "run_ranges (batch_rpc send status items) rs (w, sts) = ((w', sts'), None)"
  shows "length sts' \<le> length sts + length (concat (map (\<lambda>(a, b). slice items a b) rs))"
  using assms(2)
proof (induction rs arbitrary: w sts)
  case (Cons r rs)
  obtain a b where r: "r = (a, b)" by (cases r)
  obtain w1 res where send: "send w (slice items a b) = (w1, res)" by (cases "send w (slice items a b)")
  show ?case
  proof (cases res)
    case (Inr results)
    with assms(1) send have "length results \<le> length (slice items a b)" by (auto simp: no_extra_results_def)
    moreover have "batch_rpc send status items a b (w, sts) = ((w1, sts @ map (\<lambda>r. statusFromAPI (status r)) results), None)"
      using send Inr by (simp add: batch_rpc_def)
    with Cons.prems r have "run_ranges (batch_rpc send status items) rs (w1, sts @ map (\<lambda>r. statusFromAPI (status r)) results) = ((w', sts'), None)"
      by simp
    from Cons.IH [OF this] have "length sts' \<le> length sts + length results + length (concat (map (\<lambda>(a, b). slice items a b) rs))"
      by simp
    ultimately show ?thesis by (simp add: r)
  qed (use Cons send r in \<open>simp add: batch_rpc_def\<close>)
qed simp

lemma runBatch_statuses:
  "no_extra_results send \<Longrightarrow> runBatch (length items) b (batch_rpc send status items) (w, []) = ((w', sts), None) \<Longrightarrow>
     length sts \<le> length items"
  using run_ranges_statuses [of send status items "batch_ranges (length items) b" w "[]" w' sts]
  by (simp add: runBatch_run_ranges batch_ranges_slices)

lemma logStatuses_returns:
  assumes "no_extra_results send" "length xs = length frs"
    and "res = (case runBatch (length xs) b (batch_rpc send status xs) (w, []) of ((w', sts), err) \<Rightarrow> (w', sts, err))"
  shows "\<exists>w'. logStatuses frs res = Some w'"
  using runBatch_statuses [OF assms(1), of xs b status w] assms(2,3)
  by (auto simp: logStatuses_def split: prod.splits option.splits)

lemma no_extra_converted: "no_extra_results rpc \<Longrightarrow> no_extra_results (send_converted T rpc)"
  unfolding no_extra_results_def
proof (intro allI impI)
  fix w xs w' rs
  assume rpc: "\<forall>w xs w' rs. rpc w xs = (w', Inr rs) \<longrightarrow> length rs \<le> length xs" and "send_converted T rpc w xs = (w', Inr rs)"
  then obtain out where out: "mapE (federationRelationshipToAPI (tl_spiffeid T) (tl_x509 T) (tl_url T)) xs = Inr out" "rpc w out = (w', Inr rs)"
    by (auto simp: send_converted_def federationRelationshipsToAPI_def split: sum.splits)
  have "length out = length xs" using out(1) by (induction xs arbitrary: out) (auto simp: bindE_eq_Inr)
  with rpc out(2) show "length rs \<le> length xs" by metis
qed

lemma no_extra_names: "no_extra_results rpc \<Longrightarrow> no_extra_results (\<lambda>w tds. rpc w (trustDomainsToAPI tds))"
  by (auto simp: no_extra_results_def trustDomainsToAPI_def) (metis length_map)

text \<open>C25: a reconcile of the federation relationships returns. When the page tokens of the server make progress,
  the batch RPCs return no more results than they were given items, and there is a Kubernetes client or a
  manifest path, neither a loop without end, nor a nil dereference, nor an index out of range occurs, whatever
  errors the calls return.\<close>

theorem fed_reconcile_returns:
  assumes "fc_TrustDomainClient cfg = NewTrustDomainClient T A"
    and "tokens_progress (\<lambda>w tok. rpc_ListFR A w tok federationRelationshipListPageSize) rank"
    and "no_extra_results (rpc_BatchCreateFR A)" "no_extra_results (rpc_BatchUpdateFR A)" "no_extra_results (rpc_BatchDeleteFR A)"
    and "fc_K8sClient cfg \<noteq> None \<or> fc_StaticManifestPath cfg \<noteq> None"
  shows "\<exists>w'. fed_reconcile E cfg w = Some w'"
proof -
  obtain w1 r where l: "ListFederationRelationships A T w = Some (w1, r)"
    using page_loop_returns [OF assms(2), of "[]" "''''" w] by (auto simp: ListFederationRelationships_def)
  have listed: "listFederationRelationships cfg w =
      Some (w1, bindE r (\<lambda>frs. Inr (foldl (\<lambda>m fr. map_put (fr_TrustDomain fr) fr m) [] frs)))"
    using l assms(1) by (simp add: listFederationRelationships_def NewTrustDomainClient_def)
  have profiles: "has_profiles (foldl (\<lambda>m fr. map_put (fr_TrustDomain fr) fr m) [] frs)" if "r = Inr frs" for frs
    using ListFederationRelationships_profiles [OF l [unfolded that]]
    by (auto simp: lookup_by_key dest!: map_of_SomeD split: option.splits)
  obtain res where res: "listClusterFederatedTrustDomains E cfg w1 = Some res"
    using assms(6) unfolding listClusterFederatedTrustDomains_def
    by (cases "fc_K8sClient cfg"; cases "fc_StaticManifestPath cfg") simp_all
  have calls: "\<exists>w'. createFederationRelationships cfg w frs = Some w'" "\<exists>w'. updateFederationRelationships cfg w frs = Some w'"
    "\<exists>w'. deleteFederationRelationships cfg w frs = Some w'" for w frs
    using logStatuses_returns [OF no_extra_converted [OF assms(3)] refl refl]
      logStatuses_returns [OF no_extra_converted [OF assms(4)] refl refl]
      logStatuses_returns [OF no_extra_names [OF assms(5)] _ refl, of "map fr_TrustDomain frs" frs]
    by (simp_all add: createFederationRelationships_def updateFederationRelationships_def deleteFederationRelationships_def
        assms(1) NewTrustDomainClient_def CreateFederationRelationships_def UpdateFederationRelationships_def
        DeleteFederationRelationships_def trustDomainIDsFromFederationRelationships_def)
  have "\<exists>w'. fed_carryOut cfg w p = Some w'" for w p
  proof -
    obtain w1 where 1: "(if fp_toDelete p \<noteq> [] then deleteFederationRelationships cfg w (fp_toDelete p) else Some w) = Some w1"
      using calls(3) [of w "fp_toDelete p"] by (cases "fp_toDelete p = []") auto
    obtain w2 where 2: "(if fp_toCreate p \<noteq> [] then createFederationRelationships cfg w1 (fp_toCreate p) else Some w1) = Some w2"
      using calls(1) [of w1 "fp_toCreate p"] by (cases "fp_toCreate p = []") auto
    show ?thesis using calls(2) [of w2 "fp_toUpdate p"] unfolding fed_carryOut_def 1 bind.bind_lunit 2 by simp
  qed
  with listed profiles res show ?thesis
    by (cases r; cases res) (simp_all add: fed_reconcile_def fed_makePlan_plan)
qed

theorem fed_reconcile_returns_witness:
  "\<exists>w'. fed_reconcile fed_sample_env fed_sample_cfg [sample_fr, sample_fr] = Some w'"
proof (rule fed_reconcile_returns [where T = fed_libs and A = mem_td_api and rank = "\<lambda>w tok. 0"])
  show "tokens_progress (\<lambda>w tok. rpc_ListFR mem_td_api w tok federationRelationshipListPageSize) (\<lambda>w tok. 0)"
    by (simp add: tokens_progress_def mem_td_api_def bindE_eq_Inr)
  show "no_extra_results (rpc_BatchCreateFR mem_td_api)" "no_extra_results (rpc_BatchUpdateFR mem_td_api)"
    "no_extra_results (rpc_BatchDeleteFR mem_td_api)"
    by (auto simp: no_extra_results_def mem_td_api_def)
qed (simp_all add: fed_sample_cfg_def)

end
