(* ===== verification/Federation_Loop.thy ===== *)
theory Federation_Loop
  imports Federation_Converge Reconcile_Loop
begin

section \<open>The reconcile loop of the federation relationships\<close>

text \<open>
  The federation reconciler as the action of the reconcile loop: with the resources fixed and no
  one else changing the relationships of the server, the loop waits only while the server has the
  declared relationships.
\<close>

definition fed_Reconciler :: "'w fed_env \<Rightarrow> 'w fed_ReconcilerConfig \<Rightarrow> 'w Config" where
  "fed_Reconciler E config = \<lparr>cf_Reconcile = fed_reconcile E config, cf_GCInterval = fc_GCInterval config\<rparr>"

locale federation_loop = trust_domain_api +
  fixes E :: "'a fed_env" and cfg :: "'a fed_ReconcilerConfig" and declared :: declaredTrustDomains
  assumes client: "fc_TrustDomainClient cfg = NewTrustDomainClient T A"
    and orders: "fed_orders E"
    and resources: "listClusterFederatedTrustDomains E cfg w = Some (Inr declared)"
    and valid: "\<forall>ts\<in>set declared. valid_fr (tl_spiffeid T) (tl_x509 T) (tl_url T) (fs_FederationRelationship (snd ts))"
begin

lemma reaches_target: "fed_reconcile E cfg w = Some w' \<Longrightarrow> target (view w') declared = view w'"
  using converges [OF client orders resources valid, of w] target_idem declared_profile [OF resources] by (metis option.inject)

end

sublocale federation_loop \<subseteq> reconcile_action "\<lambda>w. True" "\<lambda>w. target (view w) declared = view w" "fed_reconcile E cfg"
  "\<lambda>w w'. view w' = view w"
  by unfold_locales (auto intro: reaches_target)

interpretation mem_federation: federation_loop fed_libs mem_td_api mem_td_view mem_put_fr mem_put_fr mem_drop_fr mem_ok mem_ok mem_ok
  fed_sample_env fed_sample_cfg "[(TrustDomain ''td2'', sample_winner)]"
proof unfold_locales
  show "fc_TrustDomainClient fed_sample_cfg = NewTrustDomainClient fed_libs mem_td_api" by (simp add: fed_sample_cfg_def)
  show "fed_orders fed_sample_env" by (simp add: fed_orders_def fed_sample_env_def)
  show "listClusterFederatedTrustDomains fed_sample_env fed_sample_cfg w = Some (Inr [(TrustDomain ''td2'', sample_winner)])" for w
    by (rule sample_declared_tds)
  show "\<forall>ts\<in>set [(TrustDomain ''td2'', sample_winner)].
      valid_fr (tl_spiffeid fed_libs) (tl_x509 fed_libs) (tl_url fed_libs) (fs_FederationRelationship (snd ts))"
    by (simp add: fed_libs_def sample_winner_def valid_fr_def spiffeid_sample_simps ref_url_def ValidateBundleEndpointURL_def)
qed

context federation_loop
begin

lemma action: "reconcile_action (\<lambda>w. True) (\<lambda>w. target (view w) declared = view w) (fed_reconcile E cfg) (\<lambda>w w'. view w' = view w)"
  by (rule reconcile_action_axioms)

end

text \<open>C26: while the resources stay the same and nobody else changes the relationships, the reconcile loop waits only
  when the server is at its target: it has a relationship for exactly the declared trust domains, each equal
  to the declared one.\<close>

theorem federation_loop_converged:
  assumes "federation_loop T A view create update delete created updated deleted E cfg declared"
    and "runs (fed_Reconciler E cfg) (\<lambda>w w'. view w' = view w) (New w now) es s" "lp_phase s = Waiting d"
  shows "(view (lp_world s) td = None \<longleftrightarrow> map_of declared td = None) \<and>
    (\<forall>fr st. view (lp_world s) td = Some fr \<and> map_of declared td = Some st \<longrightarrow> fr_Equal fr (fs_FederationRelationship st) = Some True)"
proof -
  let ?v = "view (lp_world s)"
  have "target ?v declared = ?v"
    using reconcile_action.loop_post [OF federation_loop.action [OF assms(1)] assms(2) _ TrueI assms(3)] by (simp add: fed_Reconciler_def)
  then have t: "?v td = target ?v declared td" by simp
  have "fr_BundleEndpointProfile (fs_FederationRelationship st) \<noteq> None" if "map_of declared td = Some st" for st
    using declared_profile [OF federation_loop.resources [OF assms(1)] that] .
  then show ?thesis using t fr_Equal_refl by (auto simp: target_def split: option.splits if_splits)
qed

theorem federation_loop_converged_witness:
  "\<exists>s fr. runs (fed_Reconciler fed_sample_env fed_sample_cfg)
      (\<lambda>w w'. mem_td_view w' = mem_td_view w) (New [sample_fr] 0) [EDrain, EReconciled] s \<and>
    mem_td_view (lp_world s) (TrustDomain ''td2'') = Some fr \<and>
    fr_Equal fr (fs_FederationRelationship sample_winner) = Some True"
proof -
  let ?C = "fed_Reconciler fed_sample_env fed_sample_cfg"
  let ?env = "\<lambda>w w'. mem_td_view w' = mem_td_view w" and ?s0 = "New [sample_fr] 0"
  obtain w' where w': "cf_Reconcile ?C (lp_world (drain ?s0)) = Some w'"
    using mem_api.converges [OF mem_federation.client mem_federation.orders mem_federation.resources mem_federation.valid, of "[sample_fr]"]
    by (auto simp: drain_def New_def fed_Reconciler_def)
  have "Run ?C ?env ?s0 EDrain (drain ?s0)" by (rule run_drain) (simp add: New_def)
  moreover have "lp_phase (drain ?s0) = Reconciling" by (simp add: drain_def)
  note rec = run_reconciled [OF this w', of ?env]
  ultimately have run: "runs ?C ?env ?s0 ([EDrain] @ [EReconciled]) ((drain ?s0)\<lparr>lp_world := w',
      lp_phase := Waiting (lp_now (drain ?s0) + cf_GCInterval ?C), lp_finished := lp_now (drain ?s0)\<rparr>)"
    by (meson runs_append runs_one)
  from federation_loop_converged [OF mem_federation.federation_loop_axioms this, of _ "TrustDomain ''td2''"]
  have "mem_td_view w' (TrustDomain ''td2'') \<noteq> None \<and> (\<forall>fr. mem_td_view w' (TrustDomain ''td2'') = Some fr \<longrightarrow>
      fr_Equal fr (fs_FederationRelationship sample_winner) = Some True)" by auto
  then obtain fr where "mem_td_view w' (TrustDomain ''td2'') = Some fr" "fr_Equal fr (fs_FederationRelationship sample_winner) = Some True"
    by auto
  with run show ?thesis by fastforce
qed

end
