(* ===== verification/Controllers.thy ===== *)
theory Controllers
  imports Reconcile_Loop Reconciler_Collect
begin

section \<open>Controllers (internal/controller)\<close>

text \<open>
  The controllers watch resources and trigger a reconcile loop for every event; those of pods and endpoints
  leave ignored namespaces out. The pod controller also registers the index under which the entry reconciler
  finds the endpoints of a pod. Events come as the namespace of the object; the loop is the one of
  \<open>Reconcile_Loop\<close>. The controller runtime, which delivers the events and maintains the index, is a parameter.
\<close>

subsection \<open>Definitions\<close>

definition cftd_Reconcile :: "'w loop \<Rightarrow> 'w loop" where
  "cftd_Reconcile s = Trigger s"

definition csid_Reconcile :: "'w loop \<Rightarrow> 'w loop" where
  "csid_Reconcile s = Trigger s"

definition cse_Reconcile :: "'w loop \<Rightarrow> 'w loop" where
  "cse_Reconcile s = Trigger s"

definition pod_Reconcile :: "Regexp list \<Rightarrow> string \<Rightarrow> 'w loop \<Rightarrow> 'w loop" where
  "pod_Reconcile ignoreNamespaces namespace s = (if IsIgnored ignoreNamespaces namespace then s else Trigger s)"

definition endpoints_Reconcile :: "Regexp list \<Rightarrow> string \<Rightarrow> 'w loop \<Rightarrow> 'w loop" where
  "endpoints_Reconcile ignoreNamespaces namespace s = (if IsIgnored ignoreNamespaces namespace then s else Trigger s)"

text \<open>The index function of the pod controller: the UIDs of the pods among the addresses, ready or not, of an
  endpoints object.\<close>

definition addressUIDs :: "EndpointAddress list \<Rightarrow> string list" where
  "addressUIDs addresses =
     List.map_filter (\<lambda>address. case ea_TargetRef address of
        Some ref \<Rightarrow> if or_Kind ref = ''Pod'' then Some (or_UID ref) else None
      | None \<Rightarrow> None) addresses"

definition podUIDs :: "Endpoints \<Rightarrow> string list" where
  "podUIDs endpoints =
     concat (map (\<lambda>subset. addressUIDs (eb_Addresses subset) @ addressUIDs (eb_NotReadyAddresses subset)) (ep_Subsets endpoints))"

section \<open>What the controllers do\<close>

lemma addressUIDs_iff:
  "uid \<in> set (addressUIDs as) \<longleftrightarrow> (\<exists>a\<in>set as. ea_TargetRef a = Some \<lparr>or_Kind = ''Pod'', or_UID = uid\<rparr>)"
proof -
  let ?f = "\<lambda>r. case r of Some ref \<Rightarrow> if or_Kind ref = ''Pod'' then Some (or_UID ref) else None | None \<Rightarrow> None"
  have f: "?f r = Some uid \<longleftrightarrow> r = Some \<lparr>or_Kind = ''Pod'', or_UID = uid\<rparr>" for r :: "ObjectReference option"
    by (cases r) (auto intro: ObjectReference.equality)
  have "uid \<in> set (addressUIDs as) \<longleftrightarrow> (\<exists>a\<in>set as. ?f (ea_TargetRef a) = Some uid)"
    by (force simp: addressUIDs_def List.map_filter_def)
  then show ?thesis unfolding f .
qed

definition backs :: "Pod \<Rightarrow> Endpoints \<Rightarrow> bool" where
  "backs pod ep \<longleftrightarrow> om_Namespace (ep_Meta ep) = om_Namespace (pod_Meta pod) \<and>
     list_ex (\<lambda>subset. list_ex (\<lambda>a. ea_TargetRef a = Some \<lparr>or_Kind = ''Pod'', or_UID = om_UID (pod_Meta pod)\<rparr>)
       (eb_Addresses subset @ eb_NotReadyAddresses subset)) (ep_Subsets ep)"

lemma podUIDs_backs:
  "om_Namespace (ep_Meta ep) = om_Namespace (pod_Meta pod) \<Longrightarrow> om_UID (pod_Meta pod) \<in> set (podUIDs ep) \<longleftrightarrow> backs pod ep"
  by (auto simp: podUIDs_def backs_def addressUIDs_iff list_ex_iff)

text \<open>What the controller runtime documents of a cached client: a listing by namespace and indexed field gives the
  objects of the namespace for which the index function gives the value.\<close>

definition indexed :: "'w K8sClient \<Rightarrow> 'w \<Rightarrow> Endpoints list \<Rightarrow> bool" where
  "indexed K w eps \<longleftrightarrow> (\<forall>ns uid. k8s_ListEndpoints K w [InNamespace ns, MatchingFields EndpointUID uid] =
     Inr (filter (\<lambda>ep. om_Namespace (ep_Meta ep) = ns \<and> uid \<in> set (podUIDs ep)) eps))"

lemma podEndpoints_backs:
  assumes "indexed K w eps" "ps_AutoPopulateDNSNames spec"
  shows "podEndpoints K w spec pod = Inr (filter (backs pod) eps)"
proof -
  have "(om_Namespace (ep_Meta ep) = om_Namespace (pod_Meta pod) \<and> om_UID (pod_Meta pod) \<in> set (podUIDs ep)) = backs pod ep" for ep
    using podUIDs_backs [of ep pod] by (auto simp: backs_def)
  with assms show ?thesis by (simp add: podEndpoints_def indexed_def)
qed

text \<open>An event of a watched resource outside the ignored namespaces ends the wait of the loop at once.\<close>

lemma event_ends_wait:
  assumes "lp_phase s = Waiting d"
  shows "lp_phase (cftd_Reconcile s) = Reconciling" "lp_phase (csid_Reconcile s) = Reconciling" "lp_phase (cse_Reconcile s) = Reconciling"
    "\<not> IsIgnored ig ns \<Longrightarrow> lp_phase (pod_Reconcile ig ns s) = Reconciling"
    "\<not> IsIgnored ig ns \<Longrightarrow> lp_phase (endpoints_Reconcile ig ns s) = Reconciling"
    "IsIgnored ig ns \<Longrightarrow> pod_Reconcile ig ns s = s" "IsIgnored ig ns \<Longrightarrow> endpoints_Reconcile ig ns s = s"
  using assms
  by (simp_all add: cftd_Reconcile_def csid_Reconcile_def cse_Reconcile_def pod_Reconcile_def endpoints_Reconcile_def)

section \<open>Properties\<close>

text \<open>C35: the service names of a pod. Over a client that lists endpoints by the index of the pod controller, an entry
  rendered with auto-populated DNS names has, beside the names its templates render, exactly the names of the
  services of the pod's namespace one of whose addresses, ready or not, is the pod.\<close>

theorem pod_service_names:
  assumes "indexed K w eps" "ps_AutoPopulateDNSNames spec"
    and "er_renderPodEntry E cfg K w None spec pod specHash nodeMap = (oc, Inr e)"
  shows "\<exists>node rendered. map_of nodeMap (ps_NodeName (pod_Spec pod)) = Some node \<and>
    list_all2 (\<lambda>t n. t (pod_data (rc_TrustDomain cfg) (rc_ClusterName cfg) (rc_ClusterDomain cfg) node pod) = Inr n)
      (ps_DNSNameTemplates spec) rendered \<and>
    set (e_DNSNames e) = set rendered \<union> {n. \<exists>ep\<in>set eps. backs pod ep \<and> n \<in> set (endpointNames (rc_ClusterDomain cfg) ep)}"
proof -
  from assms(3) obtain node where node: "map_of nodeMap (ps_NodeName (pod_Spec pod)) = Some node"
    and r: "render E cfg spec node pod (filter (backs pod) eps) = Inr e"
    by (auto simp: er_renderPodEntry_def podEndpoints_backs [OF assms(1,2)] split: option.splits)
  from renderPodEntry_dns [OF r [unfolded render_def]] obtain rendered where
    "list_all2 (\<lambda>t n. t (pod_data (rc_TrustDomain cfg) (rc_ClusterName cfg) (rc_ClusterDomain cfg) node pod) = Inr n)
      (ps_DNSNameTemplates spec) rendered"
    "set (e_DNSNames e) = set rendered \<union> (\<Union>ep\<in>set (filter (backs pod) eps). set (endpointNames (rc_ClusterDomain cfg) ep))"
    by blast
  with node show ?thesis by (intro exI [of _ node] exI [of _ rendered]) auto
qed

definition indexed_k8s :: "mem_world K8sClient" where
  "indexed_k8s = mem_k8s\<lparr>k8s_ListEndpoints := (\<lambda>w opts. Inr (filter (\<lambda>ep. InNamespace (om_Namespace (ep_Meta ep)) \<in> set opts \<and>
     list_ex (\<lambda>uid. MatchingFields EndpointUID uid \<in> set opts) (podUIDs ep)) sample_endpoints))\<rparr>"

theorem pod_service_names_witness:
  "\<exists>e. snd (er_renderPodEntry mem_env mem_cfg indexed_k8s sample_world None (sample_spec\<lparr>ps_AutoPopulateDNSNames := True\<rparr>) sample_pod ''''
       [(''n'', sample_node)]) = Inr e \<and> ''svc.ns'' \<in> set (e_DNSNames e)"
proof -
  let ?spec = "sample_spec\<lparr>ps_AutoPopulateDNSNames := True\<rparr>"
  have ix: "indexed indexed_k8s sample_world sample_endpoints"
    by (auto simp: indexed_def indexed_k8s_def list_ex_iff intro!: filter_cong)
  have "case er_renderPodEntry mem_env mem_cfg indexed_k8s sample_world None ?spec sample_pod '''' [(''n'', sample_node)] of
      (oc, Inl _) \<Rightarrow> False | (oc, Inr e) \<Rightarrow> True" by code_simp
  then obtain oc e where r: "er_renderPodEntry mem_env mem_cfg indexed_k8s sample_world None ?spec sample_pod '''' [(''n'', sample_node)] = (oc, Inr e)"
    by (auto split: prod.splits sum.splits)
  have b: "backs sample_pod (hd sample_endpoints)" "''svc.ns'' \<in> set (endpointNames (rc_ClusterDomain mem_cfg) (hd sample_endpoints))"
    by code_simp+
  have "hd sample_endpoints \<in> set sample_endpoints" by (simp add: sample_endpoints_def)
  with pod_service_names [OF ix _ r] b r show ?thesis by auto
qed

end
