(* ===== verification/Spire_Client.thy ===== *)
theory Spire_Client
  imports Entry_Api Trust_Domain_Api
begin

section \<open>The SVID and bundle clients and dialing (pkg/spireapi)\<close>

text \<open>
  \<open>svidapi.go\<close>, \<open>bundleapi.go\<close> and \<open>client.go\<close>: minting an X509-SVID, fetching the trust bundle, and
  dialing the server over a socket or with mutual TLS. The gRPC stubs, \<open>grpc.NewClient\<close>, the
  crypto libraries and the sources of go-spiffe are parameters. A nil dereference is the value \<open>None\<close>.
\<close>

subsection \<open>Minting X509-SVIDs\<close>

type_synonym Key = string

record X509SVID =
  sv_ID :: ID
  sv_Key :: Key
  sv_CertChain :: "Certificate list"
  sv_ExpiresAt :: Time

record X509SVIDParams =
  sp_Key :: "Key option"
  sp_ID :: ID
  sp_DNSNames :: "string list"
  sp_Subject :: string
  sp_TTL :: Duration

record CertificateRequest =
  cr_Subject :: string
  cr_DNSNames :: "string list"
  cr_URIs :: "ID list"

record api_X509SVID =
  api_svid_Id :: "api_SPIFFEID option"
  api_CertChain :: "string list"

text \<open>The request is signed with randomness from the world.\<close>

record 'w SVIDAPI =
  rpc_CreateCertificateRequest :: "'w \<Rightarrow> CertificateRequest \<Rightarrow> Key \<Rightarrow> string result"
  rpc_MintX509SVID :: "'w \<Rightarrow> string \<Rightarrow> int \<Rightarrow> 'w \<times> api_X509SVID option result"

record 'w SVIDClient =
  sc_MintX509SVID :: "'w \<Rightarrow> X509SVIDParams \<Rightarrow> ('w \<times> X509SVID result) option"

definition DefaultX509SVIDTTL :: Duration where "DefaultX509SVIDTTL = Hour"

definition id_IsZero :: "ID \<Rightarrow> bool" where
  "id_IsZero i \<longleftrightarrow> i = ID (TrustDomain '''') ''''"

text \<open>The switch on the parameters: the key and the TTL to use, or an error.\<close>

definition checkParams :: "X509SVIDParams \<Rightarrow> (Key \<times> Duration) result" where
  "checkParams params =
     (case sp_Key params of
        None \<Rightarrow> Inl (Err ''key is required'')
      | Some key \<Rightarrow>
          if id_IsZero (sp_ID params) then Inl (Err ''id is required'')
          else if sp_TTL params < 0 then Inl (Err ''negative TTL is not allowed'')
          else if sp_TTL params = 0 then Inr (key, DefaultX509SVIDTTL)
          else Inr (key, sp_TTL params))"

definition svidFromAPI :: "spiffeid_lib \<Rightarrow> x509_lib \<Rightarrow> Key \<Rightarrow> api_SPIFFEID \<Rightarrow> string list \<Rightarrow> X509SVID result" where
  "svidFromAPI L X key i chain =
     bindE (wrapE ''invalid trust domain in response ID'' (TrustDomainFromString L (api_TrustDomain i))) (\<lambda>td.
     bindE (wrapE ''invalid SPIFFE ID in response'' (FromPath L td (api_Path i))) (\<lambda>id.
     bindE (mapE (\<lambda>der. wrapE ''invalid certificate in response'' (ParseCertificate X der)) chain) (\<lambda>certChain.
     case certChain of
       [] \<Rightarrow> Inl (Err ''no certificates in response'')
     | leaf # _ \<Rightarrow> Inr \<lparr>sv_ID = id, sv_Key = key, sv_CertChain = certChain, sv_ExpiresAt = cert_NotAfter leaf\<rparr>)))"

text \<open>The TTL is sent as \<open>int32(params.TTL.Seconds())\<close>. The conversion to \<open>float64\<close> keeps every nanosecond of a
  TTL below \<open>2 ^ 22\<close> seconds, about 48 days; the only caller asks for one day.\<close>

definition MintX509SVID :: "spiffeid_lib \<Rightarrow> x509_lib \<Rightarrow> 'w SVIDAPI \<Rightarrow> 'w \<Rightarrow> X509SVIDParams \<Rightarrow> ('w \<times> X509SVID result) option" where
  "MintX509SVID L X A w params =
     (case checkParams params of
        Inl e \<Rightarrow> Some (w, Inl e)
      | Inr (key, ttl) \<Rightarrow>
          (case rpc_CreateCertificateRequest A w
                  \<lparr>cr_Subject = sp_Subject params, cr_DNSNames = sp_DNSNames params, cr_URIs = [sp_ID params]\<rparr> key of
             Inl e \<Rightarrow> Some (w, Inl (Wrap ''failed to create X509-SVID CSR'' e))
           | Inr csr \<Rightarrow>
               (case rpc_MintX509SVID A w csr (wrap32 (go_quot ttl Second)) of
                  (w', Inl e) \<Rightarrow> Some (w', Inl (Wrap ''failed to mint X509-SVID'' e))
                | (w', Inr None) \<Rightarrow> Some (w', Inl (Err ''no X509-SVID in response''))
                | (w', Inr (Some svid)) \<Rightarrow>
                    (case api_svid_Id svid of
                       None \<Rightarrow> None
                     | Some i \<Rightarrow> Some (w', svidFromAPI L X key i (api_CertChain svid))))))"

definition NewSVIDClient :: "spiffeid_lib \<Rightarrow> x509_lib \<Rightarrow> 'w SVIDAPI \<Rightarrow> 'w SVIDClient" where
  "NewSVIDClient L X A = \<lparr>sc_MintX509SVID = MintX509SVID L X A\<rparr>"

subsection \<open>The bundle\<close>

record 'w BundleAPI =
  rpc_GetBundle :: "'w \<Rightarrow> 'w \<times> api_Bundle option result"

record 'w BundleClient =
  bc_GetBundle :: "'w \<Rightarrow> 'w \<times> Bundle option result"

definition GetBundle :: "spiffeid_lib \<Rightarrow> x509_lib \<Rightarrow> 'w BundleAPI \<Rightarrow> 'w \<Rightarrow> 'w \<times> Bundle option result" where
  "GetBundle L X A w =
     (case rpc_GetBundle A w of
        (w', Inl e) \<Rightarrow> (w', Inl (Wrap ''failed to get bundle'' e))
      | (w', Inr bundle) \<Rightarrow> (w', bundleFromAPI L X bundle))"

definition NewBundleClient :: "spiffeid_lib \<Rightarrow> x509_lib \<Rightarrow> 'w BundleAPI \<Rightarrow> 'w BundleClient" where
  "NewBundleClient L X A = \<lparr>bc_GetBundle = GetBundle L X A\<rparr>"

subsection \<open>Dialing\<close>

record GrpcConfig =
  gc_MaxCallRecvMsgSize :: int

record MTLSConfig =
  mt_WorkloadAPISocketPath :: string
  mt_CertPath :: string
  mt_KeyPath :: string
  mt_BundlePath :: string
  mt_ServerSPIFFEID :: string

text \<open>What authenticates the client and the server: a source of the Workload API for both, or files.\<close>

datatype Identity = FromSource nat | FromFiles string string

datatype Credentials =
    Insecure
  | MTLSClientCredentials (cred_identity: Identity) (cred_AuthorizeID: ID)

datatype CallOption = MaxCallRecvMsgSize int | WaitForReady bool

datatype DialOption = WithTransportCredentials Credentials | WithDefaultCallOptions "CallOption list"

record dial_lib =
  dl_IsAbs :: "string \<Rightarrow> bool"
  dl_NewX509Source :: "string \<Rightarrow> nat result"
  dl_LoadSVID :: "string \<Rightarrow> string \<Rightarrow> string result"
  dl_LoadBundle :: "TrustDomain \<Rightarrow> string \<Rightarrow> string result"
  dl_NewClient :: "string \<Rightarrow> DialOption list \<Rightarrow> nat result"

text \<open>A client is known by its connection; \<open>cl_closer\<close> is the source that is closed with it.\<close>

record Client =
  cl_conn :: nat
  cl_closer :: "nat option"

definition getGrpcConfig :: "GrpcConfig option \<Rightarrow> Credentials \<Rightarrow> DialOption list" where
  "getGrpcConfig grpcConfig creds =
     [WithTransportCredentials creds] @
     (case grpcConfig of
        None \<Rightarrow> []
      | Some c \<Rightarrow>
          (let callOptions = (if gc_MaxCallRecvMsgSize c > 0 then [MaxCallRecvMsgSize (gc_MaxCallRecvMsgSize c)] else [])
           in if callOptions \<noteq> [] then [WithDefaultCallOptions callOptions] else []))"

definition dial :: "dial_lib \<Rightarrow> string \<Rightarrow> Credentials \<Rightarrow> GrpcConfig option \<Rightarrow> nat result" where
  "dial D target creds grpcConfig =
     dl_NewClient D target (getGrpcConfig grpcConfig creds @ [WithDefaultCallOptions [WaitForReady True]])"

definition DialSocket :: "dial_lib \<Rightarrow> string \<Rightarrow> GrpcConfig option \<Rightarrow> Client result" where
  "DialSocket D path grpcConfig =
     (let target = (if dl_IsAbs D path then ''unix://'' @ path else ''unix:'' @ path) in
      bindE (wrapE ''failed to dial API socket'' (dial D target Insecure grpcConfig)) (\<lambda>c.
      Inr \<lparr>cl_conn = c, cl_closer = None\<rparr>))"

definition getMTLSCredentials :: "dial_lib \<Rightarrow> MTLSConfig \<Rightarrow> ID \<Rightarrow> (Credentials \<times> nat option) result" where
  "getMTLSCredentials D c serverID =
     (if mt_WorkloadAPISocketPath c \<noteq> '''' then
        (if mt_CertPath c \<noteq> '''' \<or> mt_KeyPath c \<noteq> '''' \<or> mt_BundlePath c \<noteq> '''' then
           Inl (Err ''remote SPIRE Server mTLS workloadAPISocketPath can not be combined with certPath, keyPath, or bundlePath'')
         else
           bindE (wrapE ''failed to create Workload API X509 source'' (dl_NewX509Source D (mt_WorkloadAPISocketPath c))) (\<lambda>source.
           Inr (MTLSClientCredentials (FromSource source) serverID, Some source)))
      else if mt_CertPath c = '''' then Inl (Err ''remote SPIRE Server mTLS certPath is required'')
      else if mt_KeyPath c = '''' then Inl (Err ''remote SPIRE Server mTLS keyPath is required'')
      else if mt_BundlePath c = '''' then Inl (Err ''remote SPIRE Server mTLS bundlePath is required'')
      else
        bindE (wrapE ''failed to load remote SPIRE Server client X509-SVID'' (dl_LoadSVID D (mt_CertPath c) (mt_KeyPath c))) (\<lambda>svid.
        bindE (wrapE ''failed to load remote SPIRE Server trust bundle''
                 (dl_LoadBundle D (id_TrustDomain serverID) (mt_BundlePath c))) (\<lambda>bundle.
        Inr (MTLSClientCredentials (FromFiles svid bundle) serverID, None))))"

text \<open>The result with the sources that were opened and those that were closed again.\<close>

definition DialMTLS ::
  "dial_lib \<Rightarrow> spiffeid_lib \<Rightarrow> string \<Rightarrow> MTLSConfig option \<Rightarrow> GrpcConfig option \<Rightarrow> nat list \<times> nat list \<times> Client result" where
  "DialMTLS D L address mtlsConfig grpcConfig =
     (if address = '''' then ([], [], Inl (Err ''remote SPIRE Server address is required''))
      else case mtlsConfig of
        None \<Rightarrow> ([], [], Inl (Err ''remote SPIRE Server mTLS configuration is required''))
      | Some c \<Rightarrow>
          if mt_ServerSPIFFEID c = '''' then ([], [], Inl (Err ''remote SPIRE Server mTLS serverSPIFFEID is required''))
          else (case FromString L (mt_ServerSPIFFEID c) of
            Inl e \<Rightarrow> ([], [], Inl (Wrap ''invalid remote SPIRE Server SPIFFE ID'' e))
          | Inr serverID \<Rightarrow>
              (case getMTLSCredentials D c serverID of
                 Inl e \<Rightarrow> ([], [], Inl e)
               | Inr (creds, closer) \<Rightarrow>
                   (let opened = (case closer of None \<Rightarrow> [] | Some s \<Rightarrow> [s]) in
                    case dial D address creds grpcConfig of
                      Inl e \<Rightarrow> (opened, opened, Inl (Wrap ''failed to dial remote SPIRE Server'' e))
                    | Inr conn \<Rightarrow> (opened, [], Inr \<lparr>cl_conn = conn, cl_closer = closer\<rparr>)))))"

text \<open>\<open>Close\<close>: the connections and sources it closes.\<close>

definition Close :: "Client \<Rightarrow> nat \<times> nat list" where
  "Close c = (cl_conn c, case cl_closer c of None \<Rightarrow> [] | Some s \<Rightarrow> [s])"

section \<open>Properties\<close>

text \<open>C32: a minted X509-SVID has the key of the request and a certificate chain that starts with the leaf whose
  expiry it reports; it was requested for the ID and the DNS names of the parameters and for their TTL, one hour
  when none is given, in whole seconds. Parameters without a key or an ID, or with a negative TTL, are refused
  before anything is sent.\<close>

theorem MintX509SVID_correct:
  assumes "MintX509SVID L X A w params = Some (w', res)"
  shows "(sp_Key params = None \<or> id_IsZero (sp_ID params) \<or> sp_TTL params < 0 \<longrightarrow> w' = w \<and> isl res) \<and>
    (\<forall>svid. res = Inr svid \<longrightarrow>
       (\<exists>key csr answer. sp_Key params = Some key \<and> sv_Key svid = key \<and>
          rpc_CreateCertificateRequest A w
            \<lparr>cr_Subject = sp_Subject params, cr_DNSNames = sp_DNSNames params, cr_URIs = [sp_ID params]\<rparr> key = Inr csr \<and>
          rpc_MintX509SVID A w csr (wrap32 (go_quot (if sp_TTL params = 0 then Hour else sp_TTL params) Second)) =
            (w', Inr (Some answer)) \<and>
          list_all2 (\<lambda>der cert. ParseCertificate X der = Inr cert) (api_CertChain answer) (sv_CertChain svid)) \<and>
       sv_CertChain svid \<noteq> [] \<and> sv_ExpiresAt svid = cert_NotAfter (hd (sv_CertChain svid)))"
proof -
  have chain: "list_all2 (\<lambda>der cert. ParseCertificate X der = Inr cert) ders (sv_CertChain svid) \<and> sv_Key svid = key \<and>
      sv_CertChain svid \<noteq> [] \<and> sv_ExpiresAt svid = cert_NotAfter (hd (sv_CertChain svid))"
    if s: "svidFromAPI L X key i ders = Inr svid" for key i ders svid
  proof -
    obtain id certs where c: "mapE (\<lambda>der. wrapE ''invalid certificate in response'' (ParseCertificate X der)) ders = Inr certs"
      and svid: "(case certs of [] \<Rightarrow> Inl (Err ''no certificates in response'')
        | leaf # _ \<Rightarrow> Inr \<lparr>sv_ID = id, sv_Key = key, sv_CertChain = certs, sv_ExpiresAt = cert_NotAfter leaf\<rparr>) = Inr svid"
      using s unfolding svidFromAPI_def bindE_eq_Inr by blast
    have "list_all2 (\<lambda>der cert. ParseCertificate X der = Inr cert) ders certs"
      using c
    proof (induction ders arbitrary: certs)
      case (Cons d ders)
      then show ?case by (cases "ParseCertificate X d") (auto simp: bindE_eq_Inr)
    qed simp
    with svid show ?thesis by (cases certs) auto
  qed
  show ?thesis
  proof (cases "checkParams params")
    case (Inl e)
    with assms show ?thesis by (auto simp: MintX509SVID_def)
  next
    case (Inr kt)
    then have p: "sp_Key params = Some (fst kt)" "\<not> id_IsZero (sp_ID params)" "\<not> sp_TTL params < 0"
      "snd kt = (if sp_TTL params = 0 then Hour else sp_TTL params)"
      by (auto simp: checkParams_def DefaultX509SVIDTTL_def split: option.splits if_splits)
    then show ?thesis using assms Inr chain
      by (auto simp: MintX509SVID_def split: sum.splits prod.splits option.splits)
  qed
qed

definition ref_svid_api :: "'w SVIDAPI" where
  "ref_svid_api = \<lparr>rpc_CreateCertificateRequest = (\<lambda>w req key. Inr key),
     rpc_MintX509SVID = (\<lambda>w csr ttl. (w, Inr (Some \<lparr>api_svid_Id = Some \<lparr>api_TrustDomain = ''td'', api_Path = ''/w''\<rparr>,
        api_CertChain = [''leaf'', ''ca'']\<rparr>)))\<rparr>"

definition ref_params :: X509SVIDParams where
  "ref_params = \<lparr>sp_Key = Some ''k'', sp_ID = ID (TrustDomain ''td'') ''/w'', sp_DNSNames = [''a''], sp_Subject = '''', sp_TTL = 0\<rparr>"

theorem MintX509SVID_correct_witness:
  "\<exists>svid. MintX509SVID ref_spiffeid ref_x509 ref_svid_api () ref_params = Some ((), Inr svid) \<and> sv_CertChain svid \<noteq> []"
proof -
  obtain svid where s: "MintX509SVID ref_spiffeid ref_x509 ref_svid_api () ref_params = Some ((), Inr svid)"
    by (simp add: MintX509SVID_def checkParams_def ref_params_def id_IsZero_def ref_svid_api_def svidFromAPI_def
        ref_spiffeid_def ref_x509_def)
  with MintX509SVID_correct [OF this] show ?thesis by blast
qed

text \<open>C33: dialing a remote server is mutually authenticated and leaks no source. A dialed client authorizes
  exactly the configured server ID and is never insecure; its identity comes from the Workload API exactly
  when a socket is configured, and then no file is; the opened source is closed with the client. When dialing
  fails, every source that was opened is closed.\<close>

theorem DialMTLS_safe:
  assumes "DialMTLS D L address mtls grpc = (opened, closed, res)"
  shows "(\<forall>e. res = Inl e \<longrightarrow> closed = opened) \<and>
    (\<forall>c. res = Inr c \<longrightarrow> closed = [] \<and> snd (Close c) = opened \<and>
       (\<exists>cfg serverID identity opts. mtls = Some cfg \<and> FromString L (mt_ServerSPIFFEID cfg) = Inr serverID \<and>
          dl_NewClient D address (WithTransportCredentials (MTLSClientCredentials identity serverID) # opts) = Inr (cl_conn c) \<and>
          (if mt_WorkloadAPISocketPath cfg \<noteq> ''''
           then (\<exists>s. identity = FromSource s \<and> opened = [s]) \<and> mt_CertPath cfg = '''' \<and> mt_KeyPath cfg = '''' \<and> mt_BundlePath cfg = ''''
           else (\<exists>svid bundle. identity = FromFiles svid bundle \<and> opened = [] \<and>
                   dl_LoadSVID D (mt_CertPath cfg) (mt_KeyPath cfg) = Inr svid \<and>
                   dl_LoadBundle D (id_TrustDomain serverID) (mt_BundlePath cfg) = Inr bundle))))"
proof -
  have creds: "\<exists>identity. fst cc = MTLSClientCredentials identity serverID \<and>
      (if mt_WorkloadAPISocketPath cfg \<noteq> ''''
       then (\<exists>s. identity = FromSource s \<and> snd cc = Some s) \<and> mt_CertPath cfg = '''' \<and> mt_KeyPath cfg = '''' \<and> mt_BundlePath cfg = ''''
       else (\<exists>svid bundle. identity = FromFiles svid bundle \<and> snd cc = None \<and>
               dl_LoadSVID D (mt_CertPath cfg) (mt_KeyPath cfg) = Inr svid \<and>
               dl_LoadBundle D (id_TrustDomain serverID) (mt_BundlePath cfg) = Inr bundle))"
    if "getMTLSCredentials D cfg serverID = Inr cc" for cfg serverID cc
    using that by (auto simp: getMTLSCredentials_def bindE_eq_Inr wrapE_eq_Inr split: if_splits)
  show ?thesis
  proof (intro conjI allI impI)
    fix e
    assume "res = Inl e"
    then show "closed = opened"
      using assms by (auto simp: DialMTLS_def Let_def split: if_splits option.splits sum.splits prod.splits)
  next
    fix c
    assume c: "res = Inr c"
    then obtain cfg serverID cc where o: "mtls = Some cfg" "FromString L (mt_ServerSPIFFEID cfg) = Inr serverID"
      "getMTLSCredentials D cfg serverID = Inr cc" "dial D address (fst cc) grpc = Inr (cl_conn c)" "cl_closer c = snd cc"
      "opened = (case snd cc of None \<Rightarrow> [] | Some s \<Rightarrow> [s])" "closed = []"
      using assms by (auto simp: DialMTLS_def Let_def split: if_splits option.splits sum.splits prod.splits)
    show "closed = []" by (rule o(7))
    show "snd (Close c) = opened" by (simp add: Close_def o(5,6))
    show "\<exists>cfg serverID identity opts. mtls = Some cfg \<and> FromString L (mt_ServerSPIFFEID cfg) = Inr serverID \<and>
        dl_NewClient D address (WithTransportCredentials (MTLSClientCredentials identity serverID) # opts) = Inr (cl_conn c) \<and>
        (if mt_WorkloadAPISocketPath cfg \<noteq> ''''
         then (\<exists>s. identity = FromSource s \<and> opened = [s]) \<and> mt_CertPath cfg = '''' \<and> mt_KeyPath cfg = '''' \<and> mt_BundlePath cfg = ''''
         else (\<exists>svid bundle. identity = FromFiles svid bundle \<and> opened = [] \<and>
                 dl_LoadSVID D (mt_CertPath cfg) (mt_KeyPath cfg) = Inr svid \<and>
                 dl_LoadBundle D (id_TrustDomain serverID) (mt_BundlePath cfg) = Inr bundle))"
      using creds [OF o(3)] o(1,2,4,6)
      by (auto simp: dial_def getGrpcConfig_def split: if_splits)
  qed
qed

definition ref_dial :: dial_lib where
  "ref_dial = \<lparr>dl_IsAbs = (\<lambda>p. HasPrefix p ''/''), dl_NewX509Source = (\<lambda>p. Inr 7), dl_LoadSVID = (\<lambda>c k. Inr c),
     dl_LoadBundle = (\<lambda>td p. Inr p), dl_NewClient = (\<lambda>target opts. if target = ''down'' then Inl (Err ''down'') else Inr 1)\<rparr>"

definition ref_mtls :: MTLSConfig where
  "ref_mtls = \<lparr>mt_WorkloadAPISocketPath = ''/run/agent.sock'', mt_CertPath = '''', mt_KeyPath = '''', mt_BundlePath = '''',
     mt_ServerSPIFFEID = ''spiffe://td/server''\<rparr>"

theorem DialMTLS_safe_witness:
  "snd (Close (projr (snd (snd (DialMTLS ref_dial ref_spiffeid ''srv'' (Some ref_mtls) None))))) = [7] \<and>
   fst (snd (DialMTLS ref_dial ref_spiffeid ''down'' (Some ref_mtls) None)) = [7]"
proof -
  have 1: "DialMTLS ref_dial ref_spiffeid ''srv'' (Some ref_mtls) None = ([7], [], Inr \<lparr>cl_conn = 1, cl_closer = Some 7\<rparr>)"
    and 2: "DialMTLS ref_dial ref_spiffeid ''down'' (Some ref_mtls) None =
      ([7], [7], Inl (Wrap ''failed to dial remote SPIRE Server'' (Err ''down'')))"
    by (simp_all add: DialMTLS_def ref_mtls_def getMTLSCredentials_def ref_dial_def dial_def spiffeid_sample_simps Let_def)
  from DialMTLS_safe [OF 1] DialMTLS_safe [OF 2] show ?thesis unfolding 1 2 by simp
qed

end
