(* ===== verification/Webhook_Manager.thy ===== *)
theory Webhook_Manager
  imports Spire_Client
begin

section \<open>The webhook manager (pkg/webhookmanager)\<close>

text \<open>
  The manager keeps the serving certificate of the admission webhook fresh and the CA bundle of its
  configuration equal to the trust bundle. \<open>Init\<close> does both once; \<open>Start\<close> runs them on three timers
  with backoff and on changes of the configuration. The clients, the informer cache, the file
  system, key generation, PKCS#8 encoding, the merge patch and the backoff durations are
  parameters, acting on the world \<open>'w\<close>; \<open>None\<close> is a nil dereference in one of them.
\<close>

subsection \<open>PEM\<close>

text \<open>\<open>pem.Encode\<close> without headers: the bytes in base64, in lines of 64 characters, between a BEGIN and an
  END line.\<close>

definition base64_alphabet :: string where
  "base64_alphabet = ''ABCDEFGHIJKLMNOPQRSTUVWXYZabcdefghijklmnopqrstuvwxyz0123456789+/''"

definition base64_char :: "nat \<Rightarrow> char" where
  "base64_char n = base64_alphabet ! (n mod 64)"

fun base64 :: "string \<Rightarrow> string" where
  "base64 [] = []"
| "base64 [a] =
     (let n = of_char a * 65536 in [base64_char (n div 262144), base64_char (n div 4096), CHR ''='', CHR ''=''])"
| "base64 [a, b] =
     (let n = of_char a * 65536 + of_char b * 256
      in [base64_char (n div 262144), base64_char (n div 4096), base64_char (n div 64), CHR ''=''])"
| "base64 (a # b # c # rest) =
     (let n = of_char a * 65536 + of_char b * 256 + of_char c
      in [base64_char (n div 262144), base64_char (n div 4096), base64_char (n div 64), base64_char n] @ base64 rest)"

function pem_lines :: "string \<Rightarrow> string" where
  "pem_lines s = (if s = '''' then '''' else take 64 s @ [CHR 0x0A] @ pem_lines (drop 64 s))"
  by pat_completeness auto
termination
  by (relation "measure length") auto

declare pem_lines.simps [simp del]

definition pem_Encode :: "string \<Rightarrow> string \<Rightarrow> string" where
  "pem_Encode type bytes =
     ''-----BEGIN '' @ type @ ''-----'' @ [CHR 0x0A] @ pem_lines (base64 bytes) @
     ''-----END '' @ type @ ''-----'' @ [CHR 0x0A]"

definition encodeCertificates :: "Certificate list \<Rightarrow> string" where
  "encodeCertificates certs = concat (map (\<lambda>cert. pem_Encode ''CERTIFICATE'' (cert_Raw cert)) certs)"

definition marshalX509Authorities :: "Certificate list \<Rightarrow> string" where
  "marshalX509Authorities x509Authorities = encodeCertificates x509Authorities"

definition marshalSVID :: "(Key \<Rightarrow> string result) \<Rightarrow> X509SVID \<Rightarrow> string result" where
  "marshalSVID MarshalPKCS8PrivateKey svid =
     bindE (MarshalPKCS8PrivateKey (sv_Key svid)) (\<lambda>keyBytes.
     Inr (encodeCertificates (sv_CertChain svid) @ pem_Encode ''PRIVATE KEY'' keyBytes))"

subsection \<open>The webhook configuration\<close>

record ServiceReference =
  svc_Namespace :: string
  svc_Name :: string

record ValidatingWebhook =
  vw_Name :: string
  vw_Service :: "ServiceReference option"
  vw_CABundle :: string

record ValidatingWebhookConfiguration =
  vc_Name :: string
  vc_Webhooks :: "ValidatingWebhook list"

definition serviceDNSName :: "ServiceReference option \<Rightarrow> string option" where
  "serviceDNSName service =
     (case service of
        None \<Rightarrow> None
      | Some s \<Rightarrow>
          if svc_Namespace s = '''' \<or> svc_Name s = '''' then None
          else Some (svc_Name s @ ''.'' @ svc_Namespace s @ ''.svc''))"

definition webhookDNSNames :: "ValidatingWebhookConfiguration \<Rightarrow> string list" where
  "webhookDNSNames webhookConfig =
     sort_Strings (lo_Uniq (List.map_filter (\<lambda>webhook. serviceDNSName (vw_Service webhook)) (vc_Webhooks webhookConfig)))"

definition dnsNamesEqual :: "string list \<Rightarrow> string list \<Rightarrow> bool" where
  "dnsNamesEqual a b \<longleftrightarrow> length a = length b \<and> list_all (\<lambda>i. a ! i = b ! i) [0..<length a]"

subsection \<open>Expiry\<close>

definition Day :: Duration where "Day = 24 * Hour"
definition Week :: Duration where "Week = 7 * Day"
definition Monthish :: Duration where "Monthish = 30 * Day"

definition expiresSoon :: "Duration \<Rightarrow> Duration \<Rightarrow> bool" where
  "expiresSoon lifetime expiresIn =
     (if lifetime > Monthish then expiresIn < Week
      else if lifetime > Week then expiresIn < go_quot Week 2
      else if lifetime > Day then expiresIn < go_quot Day 2
      else if lifetime > Hour then expiresIn < go_quot Hour 2
      else expiresIn < go_quot lifetime 2)"

text \<open>\<open>Time.Sub\<close> saturates.\<close>

definition time_Sub :: "Time \<Rightarrow> Time \<Rightarrow> Duration" where
  "time_Sub t u = max (- (2 ^ 63)) (min (2 ^ 63 - 1) (t - u))"

definition x509SVIDTTL :: Duration where "x509SVIDTTL = Hour * 24"

subsection \<open>Configuration, state and operations\<close>

datatype stored = StoredWebhook ValidatingWebhookConfiguration | StoredOther

text \<open>A cache store, in the current world: the object under a key, if any.\<close>

type_synonym 'w store = "'w \<Rightarrow> string \<Rightarrow> stored option result"

record 'w wm_Config =
  wm_ID :: ID
  wm_KeyPairPath :: string
  wm_WebhookName :: string
  wm_Get :: "'w \<Rightarrow> string \<Rightarrow> ValidatingWebhookConfiguration result"
  wm_MergePatch :: "ValidatingWebhookConfiguration \<Rightarrow> ValidatingWebhookConfiguration \<Rightarrow> string result"
  wm_Patch :: "'w \<Rightarrow> string \<Rightarrow> string \<Rightarrow> 'w \<times> err option"
  wm_SVIDClient :: "'w SVIDClient"
  wm_BundleClient :: "'w BundleClient"
  wm_Now :: "'w \<Rightarrow> Time"
  wm_GenerateKey :: "'w \<Rightarrow> 'w \<times> Key result"
  wm_MarshalPKCS8PrivateKey :: "Key \<Rightarrow> string result"
  wm_WriteFile :: "'w \<Rightarrow> string \<Rightarrow> string \<Rightarrow> 'w \<times> err option"

record Manager =
  mg_rotatedAt :: Time
  mg_expiresAt :: Time
  mg_dnsNames :: "string list"
  mg_caBundle :: string

definition wm_New :: Manager where
  "wm_New = \<lparr>mg_rotatedAt = time_zero, mg_expiresAt = time_zero, mg_dnsNames = [], mg_caBundle = ''''\<rparr>"

definition getWebhookConfigFromStore :: "'w store \<Rightarrow> 'w \<Rightarrow> string \<Rightarrow> ValidatingWebhookConfiguration option result" where
  "getWebhookConfigFromStore store w name =
     bindE (wrapE ''failed to obtain webhook config from cache'' (store w name)) (\<lambda>obj.
     case obj of
       None \<Rightarrow> Inr None
     | Some (StoredWebhook webhookConfig) \<Rightarrow> Inr (Some webhookConfig)
     | Some StoredOther \<Rightarrow> Inl (Err ''cached object is not a webhook config''))"

definition mintX509SVID :: "'w wm_Config \<Rightarrow> Manager \<Rightarrow> 'w \<Rightarrow> string list \<Rightarrow> ('w \<times> Manager \<times> err option) option" where
  "mintX509SVID cfg m w dnsNames =
     (case wm_GenerateKey cfg w of
        (w, Inl e) \<Rightarrow> Some (w, m, Some (Wrap ''failed to generate X509-SVID private key'' e))
      | (w, Inr key) \<Rightarrow>
     (case sc_MintX509SVID (wm_SVIDClient cfg) w
             \<lparr>sp_Key = Some key, sp_ID = wm_ID cfg, sp_DNSNames = dnsNames, sp_Subject = '''', sp_TTL = x509SVIDTTL\<rparr> of
        None \<Rightarrow> None
      | Some (w, Inl e) \<Rightarrow> Some (w, m, Some (Wrap ''failed to mint webhook certificate'' e))
      | Some (w, Inr svid) \<Rightarrow>
     (case marshalSVID (wm_MarshalPKCS8PrivateKey cfg) svid of
        Inl e \<Rightarrow> Some (w, m, Some (Wrap ''failed to serialize webhook keypair'' e))
      | Inr data \<Rightarrow>
     (case wm_WriteFile cfg w (wm_KeyPairPath cfg) data of
        (w, Some e) \<Rightarrow> Some (w, m, Some (Wrap ''failed to write webhook keypair'' e))
      | (w, None) \<Rightarrow>
          Some (w, m\<lparr>mg_rotatedAt := wm_Now cfg w, mg_expiresAt := sv_ExpiresAt svid, mg_dnsNames := dnsNames\<rparr>, None)))))"

text \<open>The reason to mint, if any, in the order of the switch.\<close>

definition mintReason :: "'w wm_Config \<Rightarrow> Manager \<Rightarrow> 'w \<Rightarrow> string list \<Rightarrow> string option" where
  "mintReason cfg m w dnsNames =
     (let set_up = mg_rotatedAt m \<noteq> time_zero;
          lifetime = (if set_up then time_Sub (mg_expiresAt m) (mg_rotatedAt m) else 0);
          expiresIn = (if set_up then time_Sub (mg_expiresAt m) (wm_Now cfg w) else 0)
      in if lifetime = 0 then Some ''initializing''
         else if expiresSoon lifetime expiresIn then Some ''expires soon''
         else if expiresIn < 0 then Some ''has expired''
         else if \<not> dnsNamesEqual dnsNames (mg_dnsNames m) then Some ''stale DNS names''
         else None)"

definition mintX509SVIDIfNeeded :: "'w wm_Config \<Rightarrow> 'w store \<Rightarrow> Manager \<Rightarrow> 'w \<Rightarrow> ('w \<times> Manager \<times> err option) option" where
  "mintX509SVIDIfNeeded cfg store m w =
     (case getWebhookConfigFromStore store w (wm_WebhookName cfg) of
        Inl e \<Rightarrow> Some (w, m, Some e)
      | Inr None \<Rightarrow> Some (w, m, None)
      | Inr (Some webhookConfig) \<Rightarrow>
          (let dnsNames = webhookDNSNames webhookConfig in
           case mintReason cfg m w dnsNames of
             None \<Rightarrow> Some (w, m, None)
           | Some reason \<Rightarrow> mintX509SVID cfg m w dnsNames))"

definition modifiedWebhooks :: "string \<Rightarrow> ValidatingWebhookConfiguration \<Rightarrow> ValidatingWebhookConfiguration option" where
  "modifiedWebhooks caBundle current =
     (if list_all (\<lambda>webhook. vw_CABundle webhook = caBundle) (vc_Webhooks current) then None
      else Some (current\<lparr>vc_Webhooks := map (\<lambda>webhook. if vw_CABundle webhook = caBundle then webhook
                                         else webhook\<lparr>vw_CABundle := caBundle\<rparr>) (vc_Webhooks current)\<rparr>))"

definition updateWebhookConfigIfNeeded :: "'w wm_Config \<Rightarrow> 'w store \<Rightarrow> Manager \<Rightarrow> 'w \<Rightarrow> 'w \<times> err option" where
  "updateWebhookConfigIfNeeded cfg store m w =
     (case getWebhookConfigFromStore store w (wm_WebhookName cfg) of
        Inl e \<Rightarrow> (w, Some e)
      | Inr None \<Rightarrow> (w, None)
      | Inr (Some current) \<Rightarrow>
          (case modifiedWebhooks (mg_caBundle m) current of
             None \<Rightarrow> (w, None)
           | Some modified \<Rightarrow>
               (case wm_MergePatch cfg current modified of
                  Inl e \<Rightarrow> (w, Some (Wrap ''failed to create webhook configuration patch'' e))
                | Inr data \<Rightarrow>
                    (case wm_Patch cfg w (wm_WebhookName cfg) data of
                       (w, Some e) \<Rightarrow> (w, Some (Wrap ''failed to patch webhook configuration'' e))
                     | (w, None) \<Rightarrow> (w, None)))))"

text \<open>A nil bundle without an error is dereferenced.\<close>

definition refreshBundle :: "'w wm_Config \<Rightarrow> Manager \<Rightarrow> 'w \<Rightarrow> ('w \<times> Manager \<times> err option) option" where
  "refreshBundle cfg m w =
     (case bc_GetBundle (wm_BundleClient cfg) w of
        (w, Inl e) \<Rightarrow> Some (w, m, Some e)
      | (w, Inr None) \<Rightarrow> None
      | (w, Inr (Some bundle)) \<Rightarrow>
          Some (w, m\<lparr>mg_caBundle := marshalX509Authorities (b_X509Authorities bundle)\<rparr>, None))"

text \<open>The temporary store of \<open>Init\<close> holds the configuration that was fetched, under its name.\<close>

definition tempStore :: "ValidatingWebhookConfiguration \<Rightarrow> 'w store" where
  "tempStore webhookConfig w name =
     Inr (if name = vc_Name webhookConfig then Some (StoredWebhook webhookConfig) else None)"

definition Init :: "'w wm_Config \<Rightarrow> Manager \<Rightarrow> 'w \<Rightarrow> ('w \<times> Manager \<times> err option) option" where
  "Init cfg m w =
     (case refreshBundle cfg m w of
        None \<Rightarrow> None
      | Some (w, m, Some e) \<Rightarrow> Some (w, m, Some (Wrap ''failed to refresh bundle'' e))
      | Some (w, m, None) \<Rightarrow>
     (case wm_Get cfg w (wm_WebhookName cfg) of
        Inl e \<Rightarrow> Some (w, m, Some (Wrap ''failed to obtain webhook config'' e))
      | Inr webhookConfig \<Rightarrow>
     (case mintX509SVIDIfNeeded cfg (tempStore webhookConfig) m w of
        None \<Rightarrow> None
      | Some (w, m, Some e) \<Rightarrow> Some (w, m, Some (Wrap ''failed to mint SVID'' e))
      | Some (w, m, None) \<Rightarrow>
     (case updateWebhookConfigIfNeeded cfg (tempStore webhookConfig) m w of
        (w, Some e) \<Rightarrow> Some (w, m, Some (Wrap ''failed to updated webhook config'' e))
      | (w, None) \<Rightarrow> Some (w, m, None)))))"

subsection \<open>Timers with backoff (backoff.go)\<close>

text \<open>\<open>bo\<close> is the duration that the backoff package computes for an attempt between a minimum and a
  maximum; asking for a duration counts as an attempt. A timer is one-shot: \<open>bt_fires\<close> is the time at which its
  channel gets a tick, and \<open>None\<close> once that tick has been received and the timer not been set again. Setting it
  discards a tick that has not been received, as timers do since Go 1.23 (go.mod asks for 1.26).\<close>

type_synonym backoff = "Duration \<Rightarrow> Duration \<Rightarrow> nat \<Rightarrow> Duration"

record backoffTimer =
  bt_Min :: Duration
  bt_Max :: Duration
  bt_attempt :: nat
  bt_fires :: "Time option"

definition BackOff :: "backoff \<Rightarrow> Time \<Rightarrow> backoffTimer \<Rightarrow> backoffTimer" where
  "BackOff bo now t = t\<lparr>bt_fires := Some (now + bo (bt_Min t) (bt_Max t) (bt_attempt t)), bt_attempt := bt_attempt t + 1\<rparr>"

definition Reset :: "backoff \<Rightarrow> Time \<Rightarrow> backoffTimer \<Rightarrow> backoffTimer" where
  "Reset bo now t = BackOff bo now (t\<lparr>bt_attempt := 0\<rparr>)"

definition newBackoffTimer :: "backoff \<Rightarrow> Time \<Rightarrow> Duration \<Rightarrow> Duration \<Rightarrow> backoffTimer" where
  "newBackoffTimer bo now minDuration maxDuration =
     BackOff bo now \<lparr>bt_Min = minDuration, bt_Max = maxDuration, bt_attempt = 0, bt_fires = None\<rparr>"

text \<open>The channel of a timer: whether it has a tick, and receiving it, after which the timer is not armed.\<close>

definition C_ready :: "Time \<Rightarrow> backoffTimer \<Rightarrow> bool" where
  "C_ready now t = (case bt_fires t of None \<Rightarrow> False | Some d \<Rightarrow> d \<le> now)"

definition C_receive :: "backoffTimer \<Rightarrow> backoffTimer" where
  "C_receive t = t\<lparr>bt_fires := None\<rparr>"

subsection \<open>The loop of \<open>Start\<close>\<close>

text \<open>The informer notifies over a channel with one slot: \<open>wl_changed\<close>. The store of the informer is part of
  the world.\<close>

record 'w wm_loop =
  wl_manager :: Manager
  wl_world :: 'w
  wl_svid :: backoffTimer
  wl_bundle :: backoffTimer
  wl_webhook :: backoffTimer
  wl_changed :: bool
  wl_returned :: bool

definition start_wm :: "'w wm_Config \<Rightarrow> backoff \<Rightarrow> Manager \<Rightarrow> 'w \<Rightarrow> 'w wm_loop" where
  "start_wm cfg bo m w =
     \<lparr>wl_manager = m, wl_world = w,
      wl_svid = newBackoffTimer bo (wm_Now cfg w) Second Minute,
      wl_bundle = newBackoffTimer bo (wm_Now cfg w) (5 * Second) Minute,
      wl_webhook = newBackoffTimer bo (wm_Now cfg w) (5 * Second) Minute,
      wl_changed = False, wl_returned = False\<rparr>"

definition notify :: "'w wm_loop \<Rightarrow> 'w wm_loop" where
  "notify s = s\<lparr>wl_changed := True\<rparr>"

text \<open>The filter in front of the handlers of the informer, all of which notify.\<close>

definition FilterFunc :: "'w wm_Config \<Rightarrow> stored \<Rightarrow> bool" where
  "FilterFunc cfg obj = (case obj of StoredWebhook webhookConfig \<Rightarrow> vc_Name webhookConfig = wm_WebhookName cfg | StoredOther \<Rightarrow> False)"

definition onSVIDTimer :: "'w wm_Config \<Rightarrow> 'w store \<Rightarrow> backoff \<Rightarrow> 'w wm_loop \<Rightarrow> 'w wm_loop option" where
  "onSVIDTimer cfg store bo s =
     (case mintX509SVIDIfNeeded cfg store (wl_manager s) (wl_world s) of
        None \<Rightarrow> None
      | Some (w, m, err) \<Rightarrow>
          Some (s\<lparr>wl_world := w, wl_manager := m,
                  wl_svid := (case err of Some _ \<Rightarrow> BackOff bo (wm_Now cfg w) (wl_svid s)
                              | None \<Rightarrow> Reset bo (wm_Now cfg w) (wl_svid s))\<rparr>))"

definition onBundleTimer :: "'w wm_Config \<Rightarrow> 'w store \<Rightarrow> backoff \<Rightarrow> 'w wm_loop \<Rightarrow> 'w wm_loop option" where
  "onBundleTimer cfg store bo s =
     (case refreshBundle cfg (wl_manager s) (wl_world s) of
        None \<Rightarrow> None
      | Some (w, m, Some _) \<Rightarrow>
          Some (s\<lparr>wl_world := w, wl_manager := m, wl_bundle := BackOff bo (wm_Now cfg w) (wl_bundle s)\<rparr>)
      | Some (w, m, None) \<Rightarrow>
          (case updateWebhookConfigIfNeeded cfg store m w of
             (w', _) \<Rightarrow>
               Some (s\<lparr>wl_world := w', wl_manager := m, wl_bundle := Reset bo (wm_Now cfg w) (wl_bundle s),
                       wl_webhook := Reset bo (wm_Now cfg w') (wl_webhook s)\<rparr>)))"

definition onWebhookTimer :: "'w wm_Config \<Rightarrow> 'w store \<Rightarrow> backoff \<Rightarrow> 'w wm_loop \<Rightarrow> 'w wm_loop" where
  "onWebhookTimer cfg store bo s =
     (case updateWebhookConfigIfNeeded cfg store (wl_manager s) (wl_world s) of
        (w, err) \<Rightarrow>
          s\<lparr>wl_world := w,
            wl_webhook := (case err of Some _ \<Rightarrow> BackOff bo (wm_Now cfg w) (wl_webhook s)
                           | None \<Rightarrow> Reset bo (wm_Now cfg w) (wl_webhook s))\<rparr>)"

definition onWebhookChanged :: "'w wm_Config \<Rightarrow> 'w store \<Rightarrow> backoff \<Rightarrow> 'w wm_loop \<Rightarrow> 'w wm_loop" where
  "onWebhookChanged cfg store bo s =
     (case updateWebhookConfigIfNeeded cfg store (wl_manager s) (wl_world s) of
        (w, _) \<Rightarrow> s\<lparr>wl_world := w, wl_changed := False, wl_webhook := Reset bo (wm_Now cfg w) (wl_webhook s)\<rparr>)"

datatype wm_event = WSVID | WBundle | WWebhook | WChanged | WNotify | WReturn | WWorld

text \<open>The steps of the loop, of the informer and of everything else. A case of the select receives the tick of its
  timer before its body runs. Time only moves forward.\<close>

inductive Start :: "'w wm_Config \<Rightarrow> 'w store \<Rightarrow> backoff \<Rightarrow> 'w wm_loop \<Rightarrow> wm_event \<Rightarrow> 'w wm_loop \<Rightarrow> bool"
  for cfg :: "'w wm_Config" and store :: "'w store" and bo :: backoff where
  wm_svid: "\<not> wl_returned s \<Longrightarrow> C_ready (wm_Now cfg (wl_world s)) (wl_svid s) \<Longrightarrow>
    onSVIDTimer cfg store bo (s\<lparr>wl_svid := C_receive (wl_svid s)\<rparr>) = Some s' \<Longrightarrow>
    Start cfg store bo s WSVID s'"
| wm_bundle: "\<not> wl_returned s \<Longrightarrow> C_ready (wm_Now cfg (wl_world s)) (wl_bundle s) \<Longrightarrow>
    onBundleTimer cfg store bo (s\<lparr>wl_bundle := C_receive (wl_bundle s)\<rparr>) = Some s' \<Longrightarrow>
    Start cfg store bo s WBundle s'"
| wm_webhook: "\<not> wl_returned s \<Longrightarrow> C_ready (wm_Now cfg (wl_world s)) (wl_webhook s) \<Longrightarrow>
    Start cfg store bo s WWebhook (onWebhookTimer cfg store bo (s\<lparr>wl_webhook := C_receive (wl_webhook s)\<rparr>))"
| wm_changed: "\<not> wl_returned s \<Longrightarrow> wl_changed s \<Longrightarrow> Start cfg store bo s WChanged (onWebhookChanged cfg store bo s)"
| wm_notify: "FilterFunc cfg obj \<Longrightarrow> Start cfg store bo s WNotify (notify s)"
| wm_return: "\<not> wl_returned s \<Longrightarrow> Start cfg store bo s WReturn (s\<lparr>wl_returned := True\<rparr>)"
| wm_world: "wm_Now cfg (wl_world s) \<le> wm_Now cfg w \<Longrightarrow> Start cfg store bo s WWorld (s\<lparr>wl_world := w\<rparr>)"

inductive wm_runs :: "'w wm_Config \<Rightarrow> 'w store \<Rightarrow> backoff \<Rightarrow> 'w wm_loop \<Rightarrow> wm_event list \<Rightarrow> 'w wm_loop \<Rightarrow> bool"
  for cfg :: "'w wm_Config" and store :: "'w store" and bo :: backoff where
  wm_runs_Nil: "wm_runs cfg store bo s [] s"
| wm_runs_snoc: "wm_runs cfg store bo s es s' \<Longrightarrow> Start cfg store bo s' e s'' \<Longrightarrow> wm_runs cfg store bo s (es @ [e]) s''"

section \<open>What the operations do\<close>

lemma dnsNamesEqual_iff [simp]: "dnsNamesEqual a b \<longleftrightarrow> a = b"
  by (auto simp: dnsNamesEqual_def list_all_iff intro: nth_equalityI)

lemma webhookDNSNames_set:
  "set (webhookDNSNames wc) = {n. \<exists>webhook\<in>set (vc_Webhooks wc). serviceDNSName (vw_Service webhook) = Some n}"
  by (force simp: webhookDNSNames_def List.map_filter_def)

lemma webhookDNSNames_distinct: "distinct (webhookDNSNames wc)"
  using lo_UniqBy_distinct [of "\<lambda>x. x" "List.map_filter (\<lambda>webhook. serviceDNSName (vw_Service webhook)) (vc_Webhooks wc)"]
  by (simp add: webhookDNSNames_def lo_Uniq_def mset_eq_imp_distinct_iff [OF mset_sort_by])

lemma expiresSoon_fresh: "0 < lifetime \<Longrightarrow> \<not> expiresSoon lifetime lifetime"
  by (auto simp: expiresSoon_def go_quot_nonneg time_units Day_def Week_def Monthish_def split: if_splits)

lemma expiresSoon_expired: "0 < lifetime \<Longrightarrow> expiresIn < 0 \<Longrightarrow> expiresSoon lifetime expiresIn"
  by (auto simp: expiresSoon_def go_quot_nonneg time_units Day_def Week_def Monthish_def split: if_splits)

lemma expiresSoon_mono: "expiresSoon lifetime e \<Longrightarrow> e' \<le> e \<Longrightarrow> expiresSoon lifetime e'"
  by (auto simp: expiresSoon_def split: if_splits)

lemma modifiedWebhooks_None: "modifiedWebhooks ca wc = None \<longleftrightarrow> list_all (\<lambda>h. vw_CABundle h = ca) (vc_Webhooks wc)"
  by (simp add: modifiedWebhooks_def)

lemma modifiedWebhooks_Some:
  assumes "modifiedWebhooks ca wc = Some wc'"
  shows "wc' = wc\<lparr>vc_Webhooks := map (\<lambda>h. h\<lparr>vw_CABundle := ca\<rparr>) (vc_Webhooks wc)\<rparr>" "modifiedWebhooks ca wc' = None"
proof -
  have "(if vw_CABundle h = ca then h else h\<lparr>vw_CABundle := ca\<rparr>) = h\<lparr>vw_CABundle := ca\<rparr>" for h :: ValidatingWebhook by auto
  then show "wc' = wc\<lparr>vc_Webhooks := map (\<lambda>h. h\<lparr>vw_CABundle := ca\<rparr>) (vc_Webhooks wc)\<rparr>"
    using assms by (auto simp: modifiedWebhooks_def split: if_splits)
  then show "modifiedWebhooks ca wc' = None" by (simp add: modifiedWebhooks_None list_all_iff)
qed

lemma expiresSoon_remaining:
  assumes "0 < lifetime" "\<not> expiresSoon lifetime e"
  shows "min (lifetime div 2) (30 * Minute) \<le> e"
  using assms by (auto simp: expiresSoon_def go_quot_nonneg time_units Day_def Week_def Monthish_def split: if_splits)

lemma time_Sub_nonneg: "0 \<le> time_Sub t u \<longleftrightarrow> u \<le> t"
  by (auto simp: time_Sub_def)

lemma mintX509SVID_done:
  assumes "mintX509SVID cfg m w names = Some (w', m', None)"
  obtains key svid data w1 w2 where "wm_GenerateKey cfg w = (w1, Inr key)"
    "sc_MintX509SVID (wm_SVIDClient cfg) w1
       \<lparr>sp_Key = Some key, sp_ID = wm_ID cfg, sp_DNSNames = names, sp_Subject = '''', sp_TTL = x509SVIDTTL\<rparr> = Some (w2, Inr svid)"
    "marshalSVID (wm_MarshalPKCS8PrivateKey cfg) svid = Inr data"
    "wm_WriteFile cfg w2 (wm_KeyPairPath cfg) data = (w', None)"
    "m' = m\<lparr>mg_rotatedAt := wm_Now cfg w', mg_expiresAt := sv_ExpiresAt svid, mg_dnsNames := names\<rparr>"
  using assms unfolding mintX509SVID_def by (auto split: prod.splits sum.splits option.splits)

lemma mintReason_None:
  assumes "mintReason cfg m w names = None"
  shows "mg_dnsNames m = names" "wm_Now cfg w \<le> mg_expiresAt m" "mg_rotatedAt m \<noteq> time_zero"
    and "mg_rotatedAt m < mg_expiresAt m \<Longrightarrow>
      min (time_Sub (mg_expiresAt m) (mg_rotatedAt m) div 2) (30 * Minute) \<le> time_Sub (mg_expiresAt m) (wm_Now cfg w)"
proof -
  let ?life = "time_Sub (mg_expiresAt m) (mg_rotatedAt m)" and ?left = "time_Sub (mg_expiresAt m) (wm_Now cfg w)"
  have r: "mg_rotatedAt m \<noteq> time_zero" "\<not> expiresSoon ?life ?left" "\<not> ?left < 0" "names = mg_dnsNames m"
    using assms unfolding mintReason_def Let_def by (auto split: if_splits)
  from r show "mg_dnsNames m = names" "mg_rotatedAt m \<noteq> time_zero" "wm_Now cfg w \<le> mg_expiresAt m"
    using time_Sub_nonneg [of "mg_expiresAt m" "wm_Now cfg w"] by auto
  show "min (?life div 2) (30 * Minute) \<le> ?left" if "mg_rotatedAt m < mg_expiresAt m"
    using that by (intro expiresSoon_remaining [OF _ r(2)]) (simp add: time_Sub_def)
qed

subsection \<open>The loop\<close>

text \<open>The clock does not run backwards over the calls of the manager.\<close>

definition clock_forward :: "'w wm_Config \<Rightarrow> bool" where
  "clock_forward cfg \<longleftrightarrow>
     (\<forall>w. wm_Now cfg w \<le> wm_Now cfg (fst (wm_GenerateKey cfg w)) \<and> wm_Now cfg w \<le> wm_Now cfg (fst (bc_GetBundle (wm_BundleClient cfg) w)) \<and>
       (\<forall>p w' r. sc_MintX509SVID (wm_SVIDClient cfg) w p = Some (w', r) \<longrightarrow> wm_Now cfg w \<le> wm_Now cfg w') \<and>
       (\<forall>n d. wm_Now cfg w \<le> wm_Now cfg (fst (wm_Patch cfg w n d)) \<and> wm_Now cfg w \<le> wm_Now cfg (fst (wm_WriteFile cfg w n d))))"

definition backoff_bounded :: "backoff \<Rightarrow> bool" where
  "backoff_bounded bo \<longleftrightarrow> (\<forall>mn mx k. 0 < mn \<and> mn \<le> mx \<longrightarrow> mn \<le> bo mn mx k \<and> bo mn mx k \<le> mx)"

lemma mint_forward:
  assumes "clock_forward cfg" "mintX509SVIDIfNeeded cfg store m w = Some (w', m', e)"
  shows "wm_Now cfg w \<le> wm_Now cfg w'"
proof -
  have "wm_Now cfg w \<le> wm_Now cfg w'" if mint: "mintX509SVID cfg m w names = Some (w', m', e)" for names
  proof -
    obtain w1 k where g: "wm_GenerateKey cfg w = (w1, k)" by (metis surj_pair)
    have 1: "wm_Now cfg w \<le> wm_Now cfg w1" using assms(1) g unfolding clock_forward_def by (metis fst_conv)
    have 2: "wm_Now cfg w1 \<le> wm_Now cfg w2" if "sc_MintX509SVID (wm_SVIDClient cfg) w1 p = Some (w2, r)" for p w2 r
      using assms(1) that unfolding clock_forward_def by blast
    have 3: "wm_Now cfg w2 \<le> wm_Now cfg w3" if "wm_WriteFile cfg w2 n d = (w3, x)" for w2 n d w3 x
      using assms(1) that unfolding clock_forward_def by (metis fst_conv)
    from mint g 1 2 3 show ?thesis
      unfolding mintX509SVID_def by (fastforce split: prod.splits sum.splits option.splits)
  qed
  then show ?thesis using assms(2) unfolding mintX509SVIDIfNeeded_def Let_def
    by (auto split: sum.splits option.splits)
qed

lemma refresh_forward:
  assumes "clock_forward cfg" "refreshBundle cfg m w = Some (w', m', e)"
  shows "wm_Now cfg w \<le> wm_Now cfg w'"
proof -
  have "w' = fst (bc_GetBundle (wm_BundleClient cfg) w)"
    using assms(2) unfolding refreshBundle_def by (auto split: prod.splits sum.splits option.splits)
  with assms(1) show ?thesis by (simp add: clock_forward_def)
qed

lemma update_forward:
  assumes "clock_forward cfg"
  shows "wm_Now cfg w \<le> wm_Now cfg (fst (updateWebhookConfigIfNeeded cfg store m w))"
proof -
  have "wm_Now cfg w \<le> wm_Now cfg w'" if "wm_Patch cfg w n d = (w', x)" for n d w' x
    using assms that unfolding clock_forward_def by (metis fst_conv)
  then show ?thesis
    unfolding updateWebhookConfigIfNeeded_def by (auto split: prod.splits sum.splits option.splits)
qed

definition timer_bounds :: "backoffTimer \<Rightarrow> bool" where
  "timer_bounds t \<longleftrightarrow> 0 < bt_Min t \<and> bt_Min t \<le> bt_Max t \<and> bt_Max t \<le> Minute"

definition timer_ok :: "Time \<Rightarrow> backoffTimer \<Rightarrow> bool" where
  "timer_ok now t \<longleftrightarrow> timer_bounds t \<and> (\<exists>d. bt_fires t = Some d \<and> d \<le> now + Minute)"

lemma C_receive_bounds [simp]: "timer_bounds (C_receive t) \<longleftrightarrow> timer_bounds t"
  by (simp add: timer_bounds_def C_receive_def)

lemma timer_ok_bounds: "timer_ok now t \<Longrightarrow> timer_bounds t"
  by (simp add: timer_ok_def)

lemma timer_ok_ready: "timer_ok now t \<Longrightarrow> now + Minute \<le> now' \<Longrightarrow> C_ready now' t"
  by (auto simp: timer_ok_def C_ready_def)

lemma timer_ok_later: "timer_ok now t \<Longrightarrow> now \<le> now' \<Longrightarrow> timer_ok now' t"
  by (auto simp: timer_ok_def)

text \<open>Setting a timer arms it again, whether its tick has been received or not.\<close>

lemma timer_ok_set:
  assumes "backoff_bounded bo" "timer_bounds t" "now' \<le> now''"
  shows "timer_ok now'' (BackOff bo now' t)" "timer_ok now'' (Reset bo now' t)"
proof -
  have b: "bo (bt_Min t) (bt_Max t) k \<le> Minute" for k
    using assms(1,2) unfolding backoff_bounded_def timer_bounds_def by (meson order_trans)
  from b [of "bt_attempt t"] show "timer_ok now'' (BackOff bo now' t)"
    using assms(2,3) by (simp add: timer_ok_def timer_bounds_def BackOff_def)
  from b [of 0] show "timer_ok now'' (Reset bo now' t)"
    using assms(2,3) by (simp add: timer_ok_def timer_bounds_def Reset_def BackOff_def)
qed

definition timers_ok :: "'w wm_Config \<Rightarrow> 'w wm_loop \<Rightarrow> bool" where
  "timers_ok cfg s \<longleftrightarrow> timer_ok (wm_Now cfg (wl_world s)) (wl_svid s) \<and> timer_ok (wm_Now cfg (wl_world s)) (wl_bundle s) \<and>
     timer_ok (wm_Now cfg (wl_world s)) (wl_webhook s)"

lemma start_timers_ok: "backoff_bounded bo \<Longrightarrow> timers_ok cfg (start_wm cfg bo m w)"
proof -
  assume b: "backoff_bounded bo"
  have "bo mn Minute 0 \<le> Minute" if "0 < mn" "mn \<le> Minute" for mn
    using b that unfolding backoff_bounded_def by blast
  from this [of Second] this [of "5 * Second"] show ?thesis
    by (simp add: timers_ok_def timer_ok_def timer_bounds_def start_wm_def newBackoffTimer_def BackOff_def Second_def Minute_def)
qed

text \<open>The cases of the select, from a state in which the tick of the timer has been received.\<close>

lemma onSVIDTimer_timers:
  assumes "clock_forward cfg" "backoff_bounded bo" "timers_ok cfg s"
    and "onSVIDTimer cfg store bo (s\<lparr>wl_svid := C_receive (wl_svid s)\<rparr>) = Some s'"
  shows "timers_ok cfg s'"
proof -
  obtain w m e where r: "mintX509SVIDIfNeeded cfg store (wl_manager s) (wl_world s) = Some (w, m, e)"
    using assms(4) by (auto simp: onSVIDTimer_def split: option.splits)
  have t: "wm_Now cfg (wl_world s) \<le> wm_Now cfg w" by (rule mint_forward [OF assms(1) r])
  show ?thesis
    using assms(3,4) r t timer_ok_set [OF assms(2), of "C_receive (wl_svid s)" "wm_Now cfg w" "wm_Now cfg w"]
    by (auto simp: onSVIDTimer_def timers_ok_def timer_ok_bounds intro: timer_ok_later split: option.splits)
qed

lemma onBundleTimer_timers:
  assumes "clock_forward cfg" "backoff_bounded bo" "timers_ok cfg s"
    and "onBundleTimer cfg store bo (s\<lparr>wl_bundle := C_receive (wl_bundle s)\<rparr>) = Some s'"
  shows "timers_ok cfg s'"
proof -
  obtain w m e where r: "refreshBundle cfg (wl_manager s) (wl_world s) = Some (w, m, e)"
    using assms(4) by (auto simp: onBundleTimer_def split: option.splits)
  obtain w' e' where u: "updateWebhookConfigIfNeeded cfg store m w = (w', e')" by (metis surj_pair)
  have t: "wm_Now cfg (wl_world s) \<le> wm_Now cfg w" "wm_Now cfg w \<le> wm_Now cfg w'"
    using refresh_forward [OF assms(1) r] update_forward [OF assms(1), of w store m] u by simp_all
  note set = timer_ok_set [OF assms(2)]
  show ?thesis
  proof (cases e)
    case None
    then show ?thesis using assms(3,4) r u t set [of "C_receive (wl_bundle s)" "wm_Now cfg w" "wm_Now cfg w'"]
        set [of "wl_webhook s" "wm_Now cfg w'" "wm_Now cfg w'"] timer_ok_later [of _ "wl_svid s" "wm_Now cfg w'"]
      by (auto simp: onBundleTimer_def timers_ok_def timer_ok_bounds)
  next
    case (Some err)
    then show ?thesis using assms(3,4) r t set [of "C_receive (wl_bundle s)" "wm_Now cfg w" "wm_Now cfg w"]
      by (auto simp: onBundleTimer_def timers_ok_def timer_ok_bounds intro: timer_ok_later)
  qed
qed

lemma onWebhook_timers:
  assumes "clock_forward cfg" "backoff_bounded bo" "timers_ok cfg s"
  shows "timers_ok cfg (onWebhookTimer cfg store bo (s\<lparr>wl_webhook := C_receive (wl_webhook s)\<rparr>))"
    and "timers_ok cfg (onWebhookChanged cfg store bo s)"
proof -
  obtain w e where u: "updateWebhookConfigIfNeeded cfg store (wl_manager s) (wl_world s) = (w, e)" by (metis surj_pair)
  have t: "wm_Now cfg (wl_world s) \<le> wm_Now cfg w"
    using update_forward [OF assms(1), of "wl_world s" store "wl_manager s"] u by simp
  note facts = assms(3) u t timer_ok_set [OF assms(2), of _ "wm_Now cfg w" "wm_Now cfg w"]
  show "timers_ok cfg (onWebhookTimer cfg store bo (s\<lparr>wl_webhook := C_receive (wl_webhook s)\<rparr>))"
    "timers_ok cfg (onWebhookChanged cfg store bo s)"
    using facts by (auto simp: onWebhookTimer_def onWebhookChanged_def timers_ok_def timer_ok_bounds
        intro: timer_ok_later split: option.splits)
qed

lemma Start_timers:
  assumes "Start cfg store bo s e s'" "clock_forward cfg" "backoff_bounded bo" "timers_ok cfg s"
  shows "timers_ok cfg s'"
  using assms
proof (cases rule: Start.cases)
  case (wm_world w)
  then show ?thesis using assms(4) by (auto simp: timers_ok_def intro: timer_ok_later)
next
  case wm_notify
  then show ?thesis using assms(4) by (simp add: notify_def timers_ok_def)
next
  case wm_return
  then show ?thesis using assms(4) by (simp add: timers_ok_def)
qed (auto intro: onSVIDTimer_timers onBundleTimer_timers onWebhook_timers)

lemma Start_changed: "Start cfg store bo s e s' \<Longrightarrow> e \<noteq> WChanged \<Longrightarrow> wl_changed s \<Longrightarrow> wl_changed s'"
  by (cases rule: Start.cases, assumption)
    (auto simp: onSVIDTimer_def onBundleTimer_def onWebhookTimer_def notify_def split: option.splits prod.splits)

lemma wm_runs_pending:
  assumes "wm_runs cfg store bo s es s'" "es = pre @ WNotify # post" "WChanged \<notin> set post"
  shows "wl_changed s'"
  using assms
proof (induction arbitrary: post rule: wm_runs.induct)
  case (wm_runs_snoc s es s' e s'')
  show ?case
  proof (cases post rule: rev_cases)
    case Nil
    with wm_runs_snoc show ?thesis by (auto elim: Start.cases simp: notify_def)
  next
    case (snoc post' x)
    with wm_runs_snoc have "wl_changed s'" "e = x" by auto
    with wm_runs_snoc snoc show ?thesis by (auto intro: Start_changed)
  qed
qed simp

section \<open>Properties\<close>

text \<open>C29: the serving certificate is fresh after every check that succeeds. It is for exactly the DNS names of the
  services of the webhook configuration; and it was either kept, in which case it has not expired and, if it
  had a lifetime, half of that or 30 minutes are left, or it was minted for those names and its key pair
  written to the configured path.\<close>

theorem webhook_certificate_fresh:
  assumes "mintX509SVIDIfNeeded cfg store m w = Some (w', m', None)"
    and "getWebhookConfigFromStore store w (wm_WebhookName cfg) = Inr (Some wc)"
  shows "mg_dnsNames m' = webhookDNSNames wc \<and> distinct (mg_dnsNames m') \<and> mg_caBundle m' = mg_caBundle m \<and>
    set (mg_dnsNames m') = {n. \<exists>h\<in>set (vc_Webhooks wc). serviceDNSName (vw_Service h) = Some n} \<and>
    (w' = w \<and> m' = m \<and> wm_Now cfg w \<le> mg_expiresAt m \<and>
       (mg_rotatedAt m < mg_expiresAt m \<longrightarrow> min (time_Sub (mg_expiresAt m) (mg_rotatedAt m) div 2) (30 * Minute)
          \<le> time_Sub (mg_expiresAt m) (wm_Now cfg w)) \<or>
     (\<exists>w1 w2 key svid data. sc_MintX509SVID (wm_SVIDClient cfg) w1
          \<lparr>sp_Key = Some key, sp_ID = wm_ID cfg, sp_DNSNames = webhookDNSNames wc, sp_Subject = '''', sp_TTL = 24 * Hour\<rparr> =
            Some (w2, Inr svid) \<and>
        marshalSVID (wm_MarshalPKCS8PrivateKey cfg) svid = Inr data \<and>
        wm_WriteFile cfg w2 (wm_KeyPairPath cfg) data = (w', None) \<and>
        mg_rotatedAt m' = wm_Now cfg w' \<and> mg_expiresAt m' = sv_ExpiresAt svid))"
proof (cases "mintReason cfg m w (webhookDNSNames wc)")
  case None
  then have eq: "w' = w" "m' = m" using assms by (simp_all add: mintX509SVIDIfNeeded_def)
  note r = mintReason_None [OF None]
  then show ?thesis using eq webhookDNSNames_set [of wc] webhookDNSNames_distinct [of wc] by simp
next
  case (Some reason)
  with assms have "mintX509SVID cfg m w (webhookDNSNames wc) = Some (w', m', None)"
    by (simp add: mintX509SVIDIfNeeded_def)
  from mintX509SVID_done [OF this] obtain key svid data w1 w2 where mint:
    "sc_MintX509SVID (wm_SVIDClient cfg) w1 \<lparr>sp_Key = Some key, sp_ID = wm_ID cfg, sp_DNSNames = webhookDNSNames wc,
       sp_Subject = '''', sp_TTL = x509SVIDTTL\<rparr> = Some (w2, Inr svid)"
    "marshalSVID (wm_MarshalPKCS8PrivateKey cfg) svid = Inr data" "wm_WriteFile cfg w2 (wm_KeyPairPath cfg) data = (w', None)"
    "m' = m\<lparr>mg_rotatedAt := wm_Now cfg w', mg_expiresAt := sv_ExpiresAt svid, mg_dnsNames := webhookDNSNames wc\<rparr>"
    by metis
  then show ?thesis using webhookDNSNames_set [of wc] webhookDNSNames_distinct [of wc]
    by (intro conjI disjI2 exI [of _ w1] exI [of _ w2] exI [of _ key] exI [of _ svid] exI [of _ data])
      (simp_all add: x509SVIDTTL_def mult.commute)
qed

text \<open>Renewal never loops and never comes too late. A certificate that was just minted does not expire soon;
  an expired one always does, so that the reason ''has expired'' is never given for a certificate with a
  positive lifetime; and once a certificate expires soon it keeps doing so.\<close>

lemma renewal_thresholds:
  assumes "0 < lifetime"
  shows "\<not> expiresSoon lifetime lifetime \<and> (expiresIn < 0 \<longrightarrow> expiresSoon lifetime expiresIn) \<and>
    (expiresSoon lifetime expiresIn \<and> later \<le> expiresIn \<longrightarrow> expiresSoon lifetime later)"
  using expiresSoon_fresh [OF assms] expiresSoon_expired [OF assms] expiresSoon_mono by blast

lemma renewal_thresholds_witness: "\<not> expiresSoon (24 * Hour) (24 * Hour)"
  using renewal_thresholds [of "24 * Hour"] by (simp add: time_units)

text \<open>The webhook configuration is patched exactly when some webhook has another CA bundle than the manager.
  The patch leads from the current configuration to one that differs from it only in the CA bundles, which are
  then all those of the manager; an error of the patch is returned. Nothing is called when the bundles agree
  or the configuration does not exist.\<close>

lemma webhook_patch_minimal:
  "updateWebhookConfigIfNeeded cfg store m w =
     (case getWebhookConfigFromStore store w (wm_WebhookName cfg) of
        Inl e \<Rightarrow> (w, Some e)
      | Inr None \<Rightarrow> (w, None)
      | Inr (Some current) \<Rightarrow>
          (if list_all (\<lambda>h. vw_CABundle h = mg_caBundle m) (vc_Webhooks current) then (w, None)
           else case wm_MergePatch cfg current
                       (current\<lparr>vc_Webhooks := map (\<lambda>h. h\<lparr>vw_CABundle := mg_caBundle m\<rparr>) (vc_Webhooks current)\<rparr>) of
             Inl e \<Rightarrow> (w, Some (Wrap ''failed to create webhook configuration patch'' e))
           | Inr data \<Rightarrow>
               (fst (wm_Patch cfg w (wm_WebhookName cfg) data),
                map_option (Wrap ''failed to patch webhook configuration'') (snd (wm_Patch cfg w (wm_WebhookName cfg) data)))))"
proof (cases "getWebhookConfigFromStore store w (wm_WebhookName cfg)")
  case (Inr owc)
  show ?thesis
  proof (cases owc)
    case (Some wc)
    show ?thesis
    proof (cases "modifiedWebhooks (mg_caBundle m) wc")
      case None
      with Inr Some show ?thesis by (simp add: updateWebhookConfigIfNeeded_def None [unfolded modifiedWebhooks_None])
    next
      case M: (Some wc')
      then have "\<not> list_all (\<lambda>h. vw_CABundle h = mg_caBundle m) (vc_Webhooks wc)" by (metis modifiedWebhooks_None option.distinct(1))
      with Inr Some M modifiedWebhooks_Some(1) [OF M] show ?thesis
        by (auto simp: updateWebhookConfigIfNeeded_def split: sum.splits prod.splits option.splits)
    qed
  qed (simp add: updateWebhookConfigIfNeeded_def Inr)
qed (simp add: updateWebhookConfigIfNeeded_def)

lemma wm_runs_timers:
  assumes "wm_runs cfg store bo (start_wm cfg bo m w) es s" "clock_forward cfg" "backoff_bounded bo"
  shows "timers_ok cfg s"
  using assms(1)
proof (induction "start_wm cfg bo m w" es s rule: wm_runs.induct)
  case wm_runs_Nil
  show ?case by (rule start_timers_ok [OF assms(3)])
next
  case (wm_runs_snoc es s' e s'')
  then show ?case using Start_timers [OF _ assms(2,3)] by blast
qed

text \<open>An armed timer gets its case of the select to run once its deadline has passed.\<close>

lemma Start_due:
  assumes "timers_ok cfg s" "\<not> wl_returned s" "wm_Now cfg (wl_world s) + Minute \<le> wm_Now cfg w'"
  shows "mintX509SVIDIfNeeded cfg store (wl_manager s) w' \<noteq> None \<Longrightarrow> \<exists>s'. Start cfg store bo (s\<lparr>wl_world := w'\<rparr>) WSVID s'"
    and "refreshBundle cfg (wl_manager s) w' \<noteq> None \<Longrightarrow> \<exists>s'. Start cfg store bo (s\<lparr>wl_world := w'\<rparr>) WBundle s'"
    and "\<exists>s'. Start cfg store bo (s\<lparr>wl_world := w'\<rparr>) WWebhook s'"
proof -
  have ready: "C_ready (wm_Now cfg w') (wl_svid s)" "C_ready (wm_Now cfg w') (wl_bundle s)" "C_ready (wm_Now cfg w') (wl_webhook s)"
    using assms(1,3) by (auto simp: timers_ok_def intro: timer_ok_ready)
  show "\<exists>s'. Start cfg store bo (s\<lparr>wl_world := w'\<rparr>) WSVID s'" if ok: "mintX509SVIDIfNeeded cfg store (wl_manager s) w' \<noteq> None"
  proof -
    let ?s = "s\<lparr>wl_world := w'\<rparr>"
    obtain s' where "onSVIDTimer cfg store bo (?s\<lparr>wl_svid := C_receive (wl_svid ?s)\<rparr>) = Some s'"
      using ok by (cases "mintX509SVIDIfNeeded cfg store (wl_manager s) w'") (auto simp: onSVIDTimer_def)
    from wm_svid [OF _ _ this] show ?thesis using ready(1) assms(2) by auto
  qed
  show "\<exists>s'. Start cfg store bo (s\<lparr>wl_world := w'\<rparr>) WBundle s'" if ok: "refreshBundle cfg (wl_manager s) w' \<noteq> None"
  proof -
    let ?s = "s\<lparr>wl_world := w'\<rparr>"
    obtain s' where "onBundleTimer cfg store bo (?s\<lparr>wl_bundle := C_receive (wl_bundle ?s)\<rparr>) = Some s'"
    proof (cases "onBundleTimer cfg store bo (?s\<lparr>wl_bundle := C_receive (wl_bundle ?s)\<rparr>)")
      case None
      with ok have False by (auto simp: onBundleTimer_def split: option.splits prod.splits)
      then show thesis ..
    qed blast
    from wm_bundle [OF _ _ this] show ?thesis using ready(2) assms(2) by auto
  qed
  show "\<exists>s'. Start cfg store bo (s\<lparr>wl_world := w'\<rparr>) WWebhook s'"
    using wm_webhook [of "s\<lparr>wl_world := w'\<rparr>" cfg store bo] ready(3) assms(2) by auto
qed

text \<open>C31: the loop stays responsive. A timer whose tick has been received does not fire again by itself, but in
  every execution each of the three timers is armed, with a deadline at most a minute ahead, however its
  operation ended. So once a minute has passed, each of the three checks can run, unless the loop has returned
  or the check itself panics. A change of the configuration that the informer has announced stays pending until
  the loop handles it, also while it is busy. The clock does not run backwards, and the back-off package returns
  durations between the minimum and the maximum it is given.\<close>

theorem webhook_loop_responsive:
  assumes "clock_forward cfg" "backoff_bounded bo" "wm_runs cfg store bo (start_wm cfg bo m w) es s"
  shows "(\<forall>t\<in>{wl_svid s, wl_bundle s, wl_webhook s}. \<exists>d. bt_fires t = Some d \<and> d \<le> wm_Now cfg (wl_world s) + Minute) \<and>
    (\<forall>w'. \<not> wl_returned s \<and> wm_Now cfg (wl_world s) + Minute \<le> wm_Now cfg w' \<longrightarrow>
       (mintX509SVIDIfNeeded cfg store (wl_manager s) w' \<noteq> None \<longrightarrow> (\<exists>s'. Start cfg store bo (s\<lparr>wl_world := w'\<rparr>) WSVID s')) \<and>
       (refreshBundle cfg (wl_manager s) w' \<noteq> None \<longrightarrow> (\<exists>s'. Start cfg store bo (s\<lparr>wl_world := w'\<rparr>) WBundle s')) \<and>
       (\<exists>s'. Start cfg store bo (s\<lparr>wl_world := w'\<rparr>) WWebhook s')) \<and>
    (\<forall>pre post. es = pre @ WNotify # post \<and> WChanged \<notin> set post \<longrightarrow> wl_changed s)"
proof -
  have ok: "timers_ok cfg s" by (rule wm_runs_timers [OF assms(3,1,2)])
  then have "\<forall>t\<in>{wl_svid s, wl_bundle s, wl_webhook s}. \<exists>d. bt_fires t = Some d \<and> d \<le> wm_Now cfg (wl_world s) + Minute"
    by (simp add: timers_ok_def timer_ok_def)
  then show ?thesis using Start_due [OF ok] wm_runs_pending [OF assms(3)] by blast
qed

lemma temp_store_get:
  assumes "vc_Name wc = name"
  shows "getWebhookConfigFromStore (tempStore wc) w name = Inr (Some wc)"
  using assms by (simp add: getWebhookConfigFromStore_def tempStore_def)

lemma mint_due:
  assumes "getWebhookConfigFromStore store w (wm_WebhookName cfg) = Inr (Some wc)" "mintReason cfg m w (webhookDNSNames wc) \<noteq> None"
  shows "mintX509SVIDIfNeeded cfg store m w = mintX509SVID cfg m w (webhookDNSNames wc)"
  using assms by (auto simp: mintX509SVIDIfNeeded_def)

lemma mint_initially: "mg_rotatedAt m = time_zero \<Longrightarrow> mintReason cfg m w names \<noteq> None"
  by (simp add: mintReason_def)

text \<open>The stages of a successful Init, and what the last one leaves in the webhook configuration.\<close>

lemma Init_stages:
  assumes "Init cfg wm_New w = Some (w', m', None)"
  obtains w1 m1 wc w3 bd where "bc_GetBundle (wm_BundleClient cfg) w = (w1, Inr (Some bd))"
    and "wm_Get cfg w1 (wm_WebhookName cfg) = Inr wc"
    and "m1 = wm_New\<lparr>mg_caBundle := marshalX509Authorities (b_X509Authorities bd)\<rparr>"
    and "mintX509SVIDIfNeeded cfg (tempStore wc) m1 w1 = Some (w3, m', None)"
    and "updateWebhookConfigIfNeeded cfg (tempStore wc) m' w3 = (w', None)"
proof -
  obtain w1 m1 where r: "refreshBundle cfg wm_New w = Some (w1, m1, None)"
    using assms unfolding Init_def by (auto split: option.splits prod.splits)
  obtain wc where g: "wm_Get cfg w1 (wm_WebhookName cfg) = Inr wc"
    using assms r unfolding Init_def by (auto split: sum.splits)
  obtain w3 where i: "mintX509SVIDIfNeeded cfg (tempStore wc) m1 w1 = Some (w3, m', None)"
    "updateWebhookConfigIfNeeded cfg (tempStore wc) m' w3 = (w', None)"
    using assms r g unfolding Init_def by (auto split: option.splits prod.splits)
  obtain bd where "bc_GetBundle (wm_BundleClient cfg) w = (w1, Inr (Some bd))"
    "m1 = wm_New\<lparr>mg_caBundle := marshalX509Authorities (b_X509Authorities bd)\<rparr>"
    using r unfolding refreshBundle_def by (auto split: prod.splits sum.splits option.splits)
  with g i show thesis by (intro that)
qed

lemma update_patched:
  assumes "updateWebhookConfigIfNeeded cfg (tempStore wc) m w = (w', None)" "vc_Name wc = wm_WebhookName cfg"
  shows "list_all (\<lambda>h. vw_CABundle h = mg_caBundle m) (vc_Webhooks wc) \<or>
    (\<exists>data. wm_MergePatch cfg wc (wc\<lparr>vc_Webhooks := map (\<lambda>h. h\<lparr>vw_CABundle := mg_caBundle m\<rparr>) (vc_Webhooks wc)\<rparr>) = Inr data \<and>
       wm_Patch cfg w (wm_WebhookName cfg) data = (w', None))"
proof (cases "modifiedWebhooks (mg_caBundle m) wc")
  case None
  then show ?thesis by (simp add: modifiedWebhooks_None)
next
  case (Some wc')
  with assms(1) temp_store_get [OF assms(2), of w] modifiedWebhooks_Some(1) [OF Some] show ?thesis
    unfolding updateWebhookConfigIfNeeded_def by (auto split: sum.splits prod.splits option.splits)
qed

text \<open>C30: initialization. When \<open>Init\<close> succeeds, the manager has the CA bundle of the server's current authorities, a
  certificate has been minted for the DNS names of the fetched configuration and its key pair written, and the
  configuration had the CA bundle already or was patched without an error.\<close>

theorem Init_establishes:
  assumes "Init cfg wm_New w = Some (w', m', None)"
  shows "\<exists>w1 bundle wc. bc_GetBundle (wm_BundleClient cfg) w = (w1, Inr (Some bundle)) \<and>
    wm_Get cfg w1 (wm_WebhookName cfg) = Inr wc \<and>
    mg_caBundle m' = concat (map (\<lambda>cert. pem_Encode ''CERTIFICATE'' (cert_Raw cert)) (b_X509Authorities bundle)) \<and>
    (vc_Name wc = wm_WebhookName cfg \<longrightarrow>
       mg_dnsNames m' = webhookDNSNames wc \<and>
       (\<exists>w2 w3 w4 key svid data. sc_MintX509SVID (wm_SVIDClient cfg) w4
            \<lparr>sp_Key = Some key, sp_ID = wm_ID cfg, sp_DNSNames = webhookDNSNames wc, sp_Subject = '''', sp_TTL = x509SVIDTTL\<rparr> =
            Some (w2, Inr svid) \<and>
          marshalSVID (wm_MarshalPKCS8PrivateKey cfg) svid = Inr data \<and>
          wm_WriteFile cfg w2 (wm_KeyPairPath cfg) data = (w3, None) \<and> mg_expiresAt m' = sv_ExpiresAt svid \<and>
          (list_all (\<lambda>h. vw_CABundle h = mg_caBundle m') (vc_Webhooks wc) \<or>
           (\<exists>data. wm_MergePatch cfg wc (wc\<lparr>vc_Webhooks := map (\<lambda>h. h\<lparr>vw_CABundle := mg_caBundle m'\<rparr>) (vc_Webhooks wc)\<rparr>) = Inr data \<and>
              wm_Patch cfg w3 (wm_WebhookName cfg) data = (w', None)))))"
proof -
  from assms obtain w1 m1 wc w3 bd where b: "bc_GetBundle (wm_BundleClient cfg) w = (w1, Inr (Some bd))"
    and g: "wm_Get cfg w1 (wm_WebhookName cfg) = Inr wc"
    and m1: "m1 = wm_New\<lparr>mg_caBundle := marshalX509Authorities (b_X509Authorities bd)\<rparr>"
    and i: "mintX509SVIDIfNeeded cfg (tempStore wc) m1 w1 = Some (w3, m', None)"
    and u: "updateWebhookConfigIfNeeded cfg (tempStore wc) m' w3 = (w', None)" by (rule Init_stages)
  have ca: "mg_caBundle m' = mg_caBundle m1"
    using i mintX509SVID_done [of cfg m1 w1 _ w3 m'] unfolding mintX509SVIDIfNeeded_def Let_def
    by (auto simp: getWebhookConfigFromStore_def tempStore_def split: option.splits if_splits elim!: mintX509SVID_done)
  have minted: "mintX509SVID cfg m1 w1 (webhookDNSNames wc) = Some (w3, m', None)" if "vc_Name wc = wm_WebhookName cfg"
    using i mint_due [OF temp_store_get [OF that] mint_initially, of m1 w1] by (simp add: m1 wm_New_def)
  have bundled: "mg_caBundle m' = concat (map (\<lambda>cert. pem_Encode ''CERTIFICATE'' (cert_Raw cert)) (b_X509Authorities bd))"
    by (simp add: ca m1 marshalX509Authorities_def encodeCertificates_def)
  show ?thesis
  proof (rule exI [of _ w1], rule exI [of _ bd], rule exI [of _ wc], intro conjI impI)
    assume n: "vc_Name wc = wm_WebhookName cfg"
    from mintX509SVID_done [OF minted [OF n]] obtain key svid data w2 w4 where mint:
      "sc_MintX509SVID (wm_SVIDClient cfg) w4 \<lparr>sp_Key = Some key, sp_ID = wm_ID cfg, sp_DNSNames = webhookDNSNames wc,
         sp_Subject = '''', sp_TTL = x509SVIDTTL\<rparr> = Some (w2, Inr svid)"
      "marshalSVID (wm_MarshalPKCS8PrivateKey cfg) svid = Inr data" "wm_WriteFile cfg w2 (wm_KeyPairPath cfg) data = (w3, None)"
      "m' = m1\<lparr>mg_rotatedAt := wm_Now cfg w3, mg_expiresAt := sv_ExpiresAt svid, mg_dnsNames := webhookDNSNames wc\<rparr>" by metis
    from mint(4) have dns: "mg_dnsNames m' = webhookDNSNames wc" and exp: "mg_expiresAt m' = sv_ExpiresAt svid" by simp_all
    show "mg_dnsNames m' = webhookDNSNames wc" by (rule dns)
    show "\<exists>w2 w3 w4 key svid data. sc_MintX509SVID (wm_SVIDClient cfg) w4
            \<lparr>sp_Key = Some key, sp_ID = wm_ID cfg, sp_DNSNames = webhookDNSNames wc, sp_Subject = '''', sp_TTL = x509SVIDTTL\<rparr> =
            Some (w2, Inr svid) \<and>
          marshalSVID (wm_MarshalPKCS8PrivateKey cfg) svid = Inr data \<and>
          wm_WriteFile cfg w2 (wm_KeyPairPath cfg) data = (w3, None) \<and> mg_expiresAt m' = sv_ExpiresAt svid \<and>
          (list_all (\<lambda>h. vw_CABundle h = mg_caBundle m') (vc_Webhooks wc) \<or>
           (\<exists>data. wm_MergePatch cfg wc (wc\<lparr>vc_Webhooks := map (\<lambda>h. h\<lparr>vw_CABundle := mg_caBundle m'\<rparr>) (vc_Webhooks wc)\<rparr>) = Inr data \<and>
              wm_Patch cfg w3 (wm_WebhookName cfg) data = (w', None)))"
      using mint(1-3) exp update_patched [OF u n] by blast
  qed (rule b g bundled)+
qed

subsection \<open>Witnesses\<close>

text \<open>The world is the time; every call succeeds.\<close>

definition sample_webhook_config :: ValidatingWebhookConfiguration where
  "sample_webhook_config = \<lparr>vc_Name = ''wh'', vc_Webhooks =
     [\<lparr>vw_Name = ''a'', vw_Service = Some \<lparr>svc_Namespace = ''ns'', svc_Name = ''svc''\<rparr>, vw_CABundle = ''''\<rparr>]\<rparr>"

definition ref_wm :: "int wm_Config" where
  "ref_wm =
     \<lparr>wm_ID = ID (TrustDomain ''td'') ''/w'', wm_KeyPairPath = ''/keypair.pem'', wm_WebhookName = ''wh'',
      wm_Get = (\<lambda>w n. Inr sample_webhook_config), wm_MergePatch = (\<lambda>a b. Inr ''patch''), wm_Patch = (\<lambda>w n d. (w, None)),
      wm_SVIDClient = NewSVIDClient ref_spiffeid ref_x509 ref_svid_api,
      wm_BundleClient = \<lparr>bc_GetBundle = (\<lambda>w. (w, Inr (fr_TrustDomainBundle sample_fr)))\<rparr>,
      wm_Now = (\<lambda>w. w), wm_GenerateKey = (\<lambda>w. (w, Inr ''k'')), wm_MarshalPKCS8PrivateKey = Inr,
      wm_WriteFile = (\<lambda>w p d. (w, None))\<rparr>"

lemma ref_mints: "mintX509SVID ref_wm m w names = Some (w, m\<lparr>mg_rotatedAt := w, mg_expiresAt := 0, mg_dnsNames := names\<rparr>, None)"
  by (simp add: mintX509SVID_def ref_wm_def NewSVIDClient_def MintX509SVID_def checkParams_def id_IsZero_def x509SVIDTTL_def
      ref_svid_api_def svidFromAPI_def ref_spiffeid_def ref_x509_def marshalSVID_def time_units)

lemma ref_store: "getWebhookConfigFromStore (tempStore sample_webhook_config) w (wm_WebhookName ref_wm) = Inr (Some sample_webhook_config)"
  by (rule temp_store_get) (simp add: sample_webhook_config_def ref_wm_def)

lemma ref_mint_due:
  assumes "mg_rotatedAt m = time_zero"
  obtains m' where "mintX509SVIDIfNeeded ref_wm (tempStore sample_webhook_config) m w = Some (w, m', None)"
  using mint_due [OF ref_store mint_initially [OF assms]] ref_mints by metis

theorem webhook_certificate_fresh_witness:
  "\<exists>m'. mintX509SVIDIfNeeded ref_wm (tempStore sample_webhook_config) wm_New 5 = Some (5, m', None) \<and>
     set (mg_dnsNames m') = {n. \<exists>h\<in>set (vc_Webhooks sample_webhook_config). serviceDNSName (vw_Service h) = Some n}"
proof -
  obtain m' where m': "mintX509SVIDIfNeeded ref_wm (tempStore sample_webhook_config) wm_New 5 = Some (5, m', None)"
    using ref_mint_due [of wm_New 5] by (auto simp: wm_New_def)
  from webhook_certificate_fresh [OF this ref_store] m' show ?thesis by blast
qed

theorem Init_establishes_witness:
  "\<exists>m'. Init ref_wm wm_New 5 = Some (5, m', None) \<and> mg_dnsNames m' = webhookDNSNames sample_webhook_config"
proof -
  obtain m1 where r: "refreshBundle ref_wm wm_New 5 = Some (5, m1, None)" and m1: "mg_rotatedAt m1 = time_zero"
    by (simp add: refreshBundle_def ref_wm_def sample_fr_def wm_New_def)
  have g: "wm_Get ref_wm 5 (wm_WebhookName ref_wm) = Inr sample_webhook_config" by (simp add: ref_wm_def)
  obtain m' where i: "mintX509SVIDIfNeeded ref_wm (tempStore sample_webhook_config) m1 5 = Some (5, m', None)"
    using ref_mint_due [OF m1] by blast
  have u: "updateWebhookConfigIfNeeded ref_wm (tempStore sample_webhook_config) m' 5 = (5, None)"
    using ref_store [of "5 :: int"] by (simp add: updateWebhookConfigIfNeeded_def) (simp add: ref_wm_def split: option.splits)
  from r g i u have m': "Init ref_wm wm_New 5 = Some (5, m', None)" by (simp add: Init_def)
  from Init_establishes [OF this] m' show ?thesis by (auto simp: ref_wm_def sample_webhook_config_def)
qed

text \<open>A notification, two minutes of waiting, and the check of the webhook configuration: its tick has been received and
  the timer is armed again, and the change is still pending.\<close>

theorem webhook_loop_responsive_witness:
  "\<exists>s d. wm_runs ref_wm (tempStore sample_webhook_config) (\<lambda>mn mx k. mn) (start_wm ref_wm (\<lambda>mn mx k. mn) wm_New 0)
       [WNotify, WWorld, WWebhook] s \<and>
     wl_changed s \<and> wl_world s = 2 * Minute \<and> bt_fires (wl_webhook s) = Some d \<and> d \<le> 3 * Minute"
proof -
  let ?bo = "\<lambda>mn mx k. mn :: Duration" and ?st = "tempStore sample_webhook_config"
  let ?s0 = "start_wm ref_wm ?bo wm_New 0"
  let ?s1 = "(notify ?s0)\<lparr>wl_world := 2 * Minute\<rparr>"
  let ?s2 = "onWebhookTimer ref_wm ?st ?bo (?s1\<lparr>wl_webhook := C_receive (wl_webhook ?s1)\<rparr>)"
  have now: "wm_Now ref_wm x = x" for x by (simp add: ref_wm_def)
  have upd: "updateWebhookConfigIfNeeded ref_wm ?st m x = (x, None)" for m and x :: int
    using ref_store [of x] by (simp add: updateWebhookConfigIfNeeded_def) (simp add: ref_wm_def split: option.splits)
  have "wm_runs ref_wm ?st ?bo ?s0 ([] @ [WNotify]) (notify ?s0)"
    by (rule wm_runs_snoc [OF wm_runs_Nil wm_notify [where obj = "StoredWebhook sample_webhook_config"]])
      (simp add: FilterFunc_def ref_wm_def sample_webhook_config_def)
  moreover have "Start ref_wm ?st ?bo (notify ?s0) WWorld ?s1"
    by (rule wm_world) (simp add: now notify_def start_wm_def time_units)
  moreover have "Start ref_wm ?st ?bo ?s1 WWebhook ?s2"
    by (rule wm_webhook) (simp_all add: now notify_def start_wm_def newBackoffTimer_def BackOff_def C_ready_def time_units)
  ultimately have run: "wm_runs ref_wm ?st ?bo ?s0 ((([] @ [WNotify]) @ [WWorld]) @ [WWebhook]) ?s2"
    by (blast intro: wm_runs_snoc)
  have world: "wl_world ?s2 = 2 * Minute" by (simp add: onWebhookTimer_def upd)
  have fwd: "clock_forward ref_wm"
    by (auto simp: clock_forward_def ref_wm_def NewSVIDClient_def MintX509SVID_def ref_svid_api_def split: sum.splits option.splits)
  have bo: "backoff_bounded ?bo" by (simp add: backoff_bounded_def)
  have "\<exists>d. bt_fires (wl_webhook ?s2) = Some d \<and> d \<le> wm_Now ref_wm (wl_world ?s2) + Minute"
    and ch: "\<forall>pre post. (([] @ [WNotify]) @ [WWorld]) @ [WWebhook] = pre @ WNotify # post \<and> WChanged \<notin> set post \<longrightarrow> wl_changed ?s2"
    using webhook_loop_responsive [OF fwd bo run] by blast+
  then obtain d where d: "bt_fires (wl_webhook ?s2) = Some d" "d \<le> 3 * Minute" unfolding world now by auto
  have "wl_changed ?s2" using ch [rule_format, of "[]" "[WWorld, WWebhook]"] by simp
  with run world d show ?thesis by (intro exI [of _ ?s2] exI [of _ d]) simp
qed

end
