(* ===== verification/Manager_Config.thy ===== *)
theory Manager_Config
  imports Spire_Client Reconciler_Plan
begin

section \<open>The configuration of the controller manager\<close>

text \<open>
  The configuration file (api/v1alpha1/controllermanagerconfig_types.go), the manager options taken from it
  (controllermanagerconfig_loader.go), and \<open>parseConfig\<close> of cmd/main.go, which fills in defaults, refuses what
  does not fit together and normalizes the entry ID prefixes. Go maps are association lists, label and field
  selectors are the sets they are made from. Files, the environment, YAML decoding, the lookup of a CNAME,
  regular expressions and templates are parameters, in \<open>config_lib\<close>. Logging is left out but for the checks of
  its level and encoding.
\<close>

subsection \<open>The configuration file\<close>

record LeaderElectionConfiguration =
  le_LeaderElect :: "bool option"
  le_LeaseDuration :: Duration
  le_RenewDeadline :: Duration
  le_RetryPeriod :: Duration
  le_ResourceLock :: string
  le_ResourceName :: string
  le_ResourceNamespace :: string

record NamespaceConfig =
  nc_LabelSelectors :: "(string \<times> string) list"
  nc_FieldSelectors :: "(string \<times> string) list"

record ControllerConfigurationSpec =
  cc_GroupKindConcurrency :: "(string \<times> int) list"
  cc_CacheSyncTimeout :: "Duration option"
  cc_RecoverPanic :: "bool option"

record ControllerMetrics =
  cm_BindAddress :: string

record ControllerHealth =
  ch_HealthProbeBindAddress :: string
  ch_ReadinessEndpointName :: string
  ch_LivenessEndpointName :: string

record ControllerWebhook =
  cw_Port :: "int option"
  cw_Host :: string
  cw_CertDir :: string

record ControllerManagerConfigurationSpec =
  sp_SyncPeriod :: "Duration option"
  sp_LeaderElection :: "LeaderElectionConfiguration option"
  sp_CacheNamespace :: string
  sp_CacheNamespaces :: "(string \<times> NamespaceConfig option) list"
  sp_GracefulShutdownTimeout :: "Duration option"
  sp_Controller :: "ControllerConfigurationSpec option"
  sp_Metrics :: ControllerMetrics
  sp_Health :: ControllerHealth
  sp_Webhook :: ControllerWebhook
  sp_ClassName :: string
  sp_WatchClassless :: bool
  sp_ParentIDTemplate :: string
  sp_Reconcile :: "ReconcileConfig option"
  sp_EntryIDPrefix :: string
  sp_EntryIDPrefixCleanup :: "string option"
  sp_StaticManifestPath :: "string option"
  sp_ExpandEnvStaticManifests :: bool
  sp_EnableEntryRenderCache :: bool
  sp_EntryRenderCacheSize :: int
  sp_EnableEntryListCache :: bool
  sp_EntryListCacheReloadInterval :: Duration
  sp_EnableEntryListHintFilter :: bool

text \<open>The embedded spec is a component of its own.\<close>

record ControllerManagerConfig =
  cn_Spec :: ControllerManagerConfigurationSpec
  cn_ClusterName :: string
  cn_ClusterDomain :: string
  cn_TrustDomain :: string
  cn_IgnoreNamespaces :: "string list"
  cn_ValidatingWebhookConfigurationName :: string
  cn_GCInterval :: Duration
  cn_SPIREServerSocketPath :: string
  cn_SPIREServerAddress :: string
  cn_SPIREServerMTLS :: "MTLSConfig option"
  cn_LogLevel :: string
  cn_LogEncoding :: string
  cn_Grpc :: "GrpcConfig option"

text \<open>The options of the controller runtime that the loader touches.\<close>

record cache_Config =
  cx_LabelSelector :: "(string \<times> string) list option"
  cx_FieldSelector :: "(string \<times> string) list option"

record Options =
  op_LeaderElection :: bool
  op_LeaderElectionResourceLock :: string
  op_LeaderElectionNamespace :: string
  op_LeaderElectionID :: string
  op_LeaseDuration :: "Duration option"
  op_RenewDeadline :: "Duration option"
  op_RetryPeriod :: "Duration option"
  op_SyncPeriod :: "Duration option"
  op_DefaultNamespaces :: "(string \<times> cache_Config) list"
  op_MetricsBindAddress :: string
  op_HealthProbeBindAddress :: string
  op_ReadinessEndpointName :: string
  op_LivenessEndpointName :: string
  op_CacheSyncTimeout :: Duration
  op_GroupKindConcurrency :: "(string \<times> int) list"

subsection \<open>Loading (controllermanagerconfig_loader.go)\<close>

record config_lib =
  lb_ReadFile :: "string \<Rightarrow> string result"
  lb_ExpandEnv :: "string \<Rightarrow> string"
  lb_DecodeInto :: "string \<Rightarrow> ControllerManagerConfig \<Rightarrow> ControllerManagerConfig result"
  lb_Compile :: "string \<Rightarrow> Regexp result"
  lb_LookupCNAME :: "string \<Rightarrow> string result"
  lb_template_Parse :: "string \<Rightarrow> Template result"

definition loadFile :: "config_lib \<Rightarrow> string \<Rightarrow> ControllerManagerConfig \<Rightarrow> bool \<Rightarrow> ControllerManagerConfig result" where
  "loadFile B path config expandEnv =
     bindE (wrapE ''could not read file'' (lb_ReadFile B path)) (\<lambda>content.
     wrapE ''could not decode file into runtime.Object''
       (lb_DecodeInto B (if expandEnv then lb_ExpandEnv B content else content) config))"

definition setLeaderElectionConfig :: "Options \<Rightarrow> ControllerManagerConfigurationSpec \<Rightarrow> Options" where
  "setLeaderElectionConfig o1 obj =
     (case sp_LeaderElection obj of
        None \<Rightarrow> o1
      | Some le \<Rightarrow>
     (let o2 = (case le_LeaderElect le of Some b \<Rightarrow> if \<not> op_LeaderElection o1 then o1\<lparr>op_LeaderElection := b\<rparr> else o1 | None \<Rightarrow> o1);
          o3 = (if op_LeaderElectionResourceLock o2 = '''' \<and> le_ResourceLock le \<noteq> ''''
                then o2\<lparr>op_LeaderElectionResourceLock := le_ResourceLock le\<rparr> else o2);
          o4 = (if op_LeaderElectionNamespace o3 = '''' \<and> le_ResourceNamespace le \<noteq> ''''
                then o3\<lparr>op_LeaderElectionNamespace := le_ResourceNamespace le\<rparr> else o3);
          o5 = (if op_LeaderElectionID o4 = '''' \<and> le_ResourceName le \<noteq> ''''
                then o4\<lparr>op_LeaderElectionID := le_ResourceName le\<rparr> else o4);
          o6 = (if op_LeaseDuration o5 = None \<and> le_LeaseDuration le \<noteq> 0
                then o5\<lparr>op_LeaseDuration := Some (le_LeaseDuration le)\<rparr> else o5);
          o7 = (if op_RenewDeadline o6 = None \<and> le_RenewDeadline le \<noteq> 0
                then o6\<lparr>op_RenewDeadline := Some (le_RenewDeadline le)\<rparr> else o6)
      in if op_RetryPeriod o7 = None \<and> le_RetryPeriod le \<noteq> 0
         then o7\<lparr>op_RetryPeriod := Some (le_RetryPeriod le)\<rparr> else o7))"

text \<open>The namespaces of the cache: none, the deprecated single one, or the configured ones with their selectors.\<close>

definition cacheConfig :: "NamespaceConfig option \<Rightarrow> cache_Config" where
  "cacheConfig opts =
     (case opts of
        None \<Rightarrow> \<lparr>cx_LabelSelector = None, cx_FieldSelector = None\<rparr>
      | Some o1 \<Rightarrow>
          \<lparr>cx_LabelSelector = (if nc_LabelSelectors o1 \<noteq> [] then Some (nc_LabelSelectors o1) else None),
           cx_FieldSelector = (if nc_FieldSelectors o1 \<noteq> [] then Some (nc_FieldSelectors o1) else None)\<rparr>)"

definition defaultNamespaces :: "Options \<Rightarrow> ControllerManagerConfigurationSpec \<Rightarrow> Options result" where
  "defaultNamespaces o1 spec =
     (if op_DefaultNamespaces o1 \<noteq> [] then Inr o1
      else if sp_CacheNamespace spec \<noteq> '''' \<and> sp_CacheNamespaces spec \<noteq> [] then
        Inl (Err ''cacheNamespace or cacheNamespaces can be used, but not both'')
      else if sp_CacheNamespace spec \<noteq> '''' then
        Inr (o1\<lparr>op_DefaultNamespaces := [(sp_CacheNamespace spec, cacheConfig None)]\<rparr>)
      else if sp_CacheNamespaces spec \<noteq> [] then
        Inr (o1\<lparr>op_DefaultNamespaces := map (\<lambda>(namespace, opts). (namespace, cacheConfig opts)) (sp_CacheNamespaces spec)\<rparr>)
      else Inr o1)"

definition controllerOptions :: "Options \<Rightarrow> ControllerConfigurationSpec option \<Rightarrow> Options" where
  "controllerOptions o1 spec =
     (case spec of
        None \<Rightarrow> o1
      | Some c \<Rightarrow>
     (let o2 = (case cc_CacheSyncTimeout c of
                  Some t \<Rightarrow> if op_CacheSyncTimeout o1 = 0 then o1\<lparr>op_CacheSyncTimeout := t\<rparr> else o1
                | None \<Rightarrow> o1)
      in if op_GroupKindConcurrency o2 = [] \<and> cc_GroupKindConcurrency c \<noteq> []
         then o2\<lparr>op_GroupKindConcurrency := cc_GroupKindConcurrency c\<rparr> else o2))"

definition addressOptions :: "Options \<Rightarrow> ControllerManagerConfigurationSpec \<Rightarrow> Options" where
  "addressOptions o1 spec =
     (let o2 = (if op_MetricsBindAddress o1 = '''' \<and> cm_BindAddress (sp_Metrics spec) \<noteq> ''''
                then o1\<lparr>op_MetricsBindAddress := cm_BindAddress (sp_Metrics spec)\<rparr> else o1);
          o3 = (if op_HealthProbeBindAddress o2 = '''' \<and> ch_HealthProbeBindAddress (sp_Health spec) \<noteq> ''''
                then o2\<lparr>op_HealthProbeBindAddress := ch_HealthProbeBindAddress (sp_Health spec)\<rparr> else o2);
          o4 = (if op_ReadinessEndpointName o3 = '''' \<and> ch_ReadinessEndpointName (sp_Health spec) \<noteq> ''''
                then o3\<lparr>op_ReadinessEndpointName := ch_ReadinessEndpointName (sp_Health spec)\<rparr> else o3)
      in if op_LivenessEndpointName o4 = '''' \<and> ch_LivenessEndpointName (sp_Health spec) \<noteq> ''''
         then o4\<lparr>op_LivenessEndpointName := ch_LivenessEndpointName (sp_Health spec)\<rparr> else o4)"

definition addOptionsFromConfigSpec :: "Options \<Rightarrow> ControllerManagerConfigurationSpec \<Rightarrow> Options result" where
  "addOptionsFromConfigSpec o1 spec =
     (let o2 = setLeaderElectionConfig o1 spec;
          o3 = (if op_SyncPeriod o2 = None \<and> sp_SyncPeriod spec \<noteq> None then o2\<lparr>op_SyncPeriod := sp_SyncPeriod spec\<rparr> else o2)
      in bindE (defaultNamespaces o3 spec) (\<lambda>o4. Inr (controllerOptions (addressOptions o4 spec) (sp_Controller spec))))"

definition LoadOptionsFromFile ::
  "config_lib \<Rightarrow> string \<Rightarrow> Options \<Rightarrow> ControllerManagerConfig \<Rightarrow> bool \<Rightarrow> (Options \<times> ControllerManagerConfig) result" where
  "LoadOptionsFromFile B path options config expandEnv =
     bindE (loadFile B path config expandEnv) (\<lambda>config.
     bindE (addOptionsFromConfigSpec options (cn_Spec config)) (\<lambda>options.
     Inr (options, config)))"

subsection \<open>Cluster domain and logging (cmd/main.go)\<close>

definition k8sDefaultService :: string where "k8sDefaultService = ''kubernetes.default.svc''"

definition parseClusterDomainCNAME :: "string \<Rightarrow> string result" where
  "parseClusterDomainCNAME cname =
     (let clusterDomain = TrimPrefix cname (k8sDefaultService @ ''.'') in
      if clusterDomain = cname then Inl (Err ''CNAME did not have expected prefix'')
      else let clusterDomain = TrimSuffix clusterDomain ''.'' in
        if clusterDomain = '''' then Inl (Err ''CNAME did not have a cluster domain'') else Inr clusterDomain)"

definition autoDetectClusterDomain :: "config_lib \<Rightarrow> string result" where
  "autoDetectClusterDomain B =
     bindE (wrapE ''unable to lookup CNAME'' (lb_LookupCNAME B k8sDefaultService)) (\<lambda>cname.
     wrapE ''unable to parse CNAME'' (parseClusterDomainCNAME cname))"

datatype Level = DebugLevel | InfoLevel | WarnLevel | ErrorLevel

datatype Encoder = ConsoleEncoder | JSONEncoder

record zap_Options =
  zo_Level :: "Level option"
  zo_Encoder :: "Encoder option"

text \<open>\<open>strings.ToLower\<close> on ASCII. No letter outside ASCII has a lower case form among those of the level names.\<close>

definition to_lower :: "char \<Rightarrow> char" where
  "to_lower c = (if 65 \<le> (of_char c :: nat) \<and> (of_char c :: nat) \<le> 90 then char_of ((of_char c :: nat) + 32) else c)"

definition getLogLevel :: "string \<Rightarrow> Level result" where
  "getLogLevel logLevel =
     (let level = map to_lower logLevel in
      if level = ''debug'' then Inr DebugLevel
      else if level = ''warn'' then Inr WarnLevel
      else if level = ''error'' then Inr ErrorLevel
      else if level = ''info'' then Inr InfoLevel
      else Inl (Err ''invalid log level''))"

definition setLogger :: "zap_Options \<Rightarrow> string \<Rightarrow> string \<Rightarrow> zap_Options result" where
  "setLogger opts logLevel logEncoding =
     bindE (if logLevel \<noteq> '''' \<and> zo_Level opts = None
            then bindE (wrapE ''unable to parse log level'' (getLogLevel logLevel)) (\<lambda>level. Inr (opts\<lparr>zo_Level := Some level\<rparr>))
            else Inr opts) (\<lambda>opts.
     if logEncoding \<noteq> '''' \<and> zo_Encoder opts = None then
       (if logEncoding = ''console'' then Inr (opts\<lparr>zo_Encoder := Some ConsoleEncoder\<rparr>)
        else if logEncoding = ''json'' then Inr (opts\<lparr>zo_Encoder := Some JSONEncoder\<rparr>)
        else Inl (Err ''unrecognized log encoding''))
     else Inr opts)"

subsection \<open>\<open>parseConfig\<close> (cmd/main.go)\<close>

record main_Config =
  mc_ctrlConfig :: ControllerManagerConfig
  mc_options :: Options
  mc_ignoreNamespacesRegex :: "Regexp list"
  mc_parentIDTemplate :: "Template option"
  mc_reconcile :: ReconcileConfig

record flags =
  fl_config :: string
  fl_spireAPISocket :: string
  fl_expandEnv :: bool
  fl_zap :: zap_Options

definition defaultSPIREServerSocketPath :: string where "defaultSPIREServerSocketPath = ''/spire-server/api.sock''"
definition defaultGCInterval :: Duration where "defaultGCInterval = 10 * Second"

definition emptySpec :: ControllerManagerConfigurationSpec where
  "emptySpec =
     \<lparr>sp_SyncPeriod = None, sp_LeaderElection = None, sp_CacheNamespace = '''', sp_CacheNamespaces = [],
      sp_GracefulShutdownTimeout = None, sp_Controller = None, sp_Metrics = \<lparr>cm_BindAddress = ''''\<rparr>,
      sp_Health = \<lparr>ch_HealthProbeBindAddress = '''', ch_ReadinessEndpointName = '''', ch_LivenessEndpointName = ''''\<rparr>,
      sp_Webhook = \<lparr>cw_Port = None, cw_Host = '''', cw_CertDir = ''''\<rparr>,
      sp_ClassName = '''', sp_WatchClassless = False, sp_ParentIDTemplate = '''', sp_Reconcile = None,
      sp_EntryIDPrefix = '''', sp_EntryIDPrefixCleanup = None, sp_StaticManifestPath = None,
      sp_ExpandEnvStaticManifests = False, sp_EnableEntryRenderCache = False, sp_EntryRenderCacheSize = 0,
      sp_EnableEntryListCache = False, sp_EntryListCacheReloadInterval = 0, sp_EnableEntryListHintFilter = False\<rparr>"

definition defaultConfig :: ControllerManagerConfig where
  "defaultConfig =
     \<lparr>cn_Spec = emptySpec, cn_ClusterName = '''', cn_ClusterDomain = '''', cn_TrustDomain = '''',
      cn_IgnoreNamespaces = [''kube-system'', ''kube-public'', ''spire-system''],
      cn_ValidatingWebhookConfigurationName = ''spire-controller-manager-webhook'',
      cn_GCInterval = defaultGCInterval, cn_SPIREServerSocketPath = '''', cn_SPIREServerAddress = '''',
      cn_SPIREServerMTLS = None, cn_LogLevel = ''info'', cn_LogEncoding = ''console'', cn_Grpc = None\<rparr>"

definition emptyOptions :: Options where
  "emptyOptions =
     \<lparr>op_LeaderElection = False, op_LeaderElectionResourceLock = '''', op_LeaderElectionNamespace = '''',
      op_LeaderElectionID = '''', op_LeaseDuration = None, op_RenewDeadline = None, op_RetryPeriod = None,
      op_SyncPeriod = None, op_DefaultNamespaces = [], op_MetricsBindAddress = '''', op_HealthProbeBindAddress = '''',
      op_ReadinessEndpointName = '''', op_LivenessEndpointName = '''', op_CacheSyncTimeout = 0, op_GroupKindConcurrency = []\<rparr>"

text \<open>The parts of \<open>parseConfig\<close>, in order. The file is read and the expressions are compiled only when a file is
  given.\<close>

definition fromFile ::
  "config_lib \<Rightarrow> flags \<Rightarrow> Options \<Rightarrow> ControllerManagerConfig \<Rightarrow> (Options \<times> ControllerManagerConfig \<times> Regexp list) result" where
  "fromFile B fl options config =
     (if fl_config fl = '''' then Inr (options, config, [])
      else
        bindE (wrapE ''unable to load the config file'' (LoadOptionsFromFile B (fl_config fl) options config (fl_expandEnv fl)))
          (\<lambda>(options, config).
        let config = (if cn_GCInterval config \<le> 0 then config\<lparr>cn_GCInterval := defaultGCInterval\<rparr> else config) in
        bindE (wrapE ''unable to compile ignore namespaces regex'' (mapE (lb_Compile B) (cn_IgnoreNamespaces config))) (\<lambda>regexes.
        Inr (options, config, regexes))))"

definition serverEndpoint :: "string \<Rightarrow> ControllerManagerConfig \<Rightarrow> ControllerManagerConfig result" where
  "serverEndpoint spireAPISocketFlag config =
     (if cn_SPIREServerAddress config \<noteq> '''' then
        (if cn_SPIREServerSocketPath config \<noteq> '''' then
           Inl (Err ''spireServerAddress and spireServerSocketPath can not both be specified'')
         else if spireAPISocketFlag \<noteq> '''' then
           Inl (Err ''spireServerAddress and deprecated spire-api-socket flag can not both be specified'')
         else if cn_SPIREServerMTLS config = None then
           Inl (Err ''spireServerMTLS is required when spireServerAddress is specified'')
         else Inr config)
      else if cn_SPIREServerSocketPath config = '''' \<and> spireAPISocketFlag = '''' then
        Inr (config\<lparr>cn_SPIREServerSocketPath := defaultSPIREServerSocketPath\<rparr>)
      else if cn_SPIREServerSocketPath config \<noteq> '''' \<and> spireAPISocketFlag = '''' then Inr config
      else if cn_SPIREServerSocketPath config = '''' \<and> spireAPISocketFlag \<noteq> '''' then
        Inr (config\<lparr>cn_SPIREServerSocketPath := spireAPISocketFlag\<rparr>)
      else Inr config)"

text \<open>A cluster domain that cannot be detected stays empty.\<close>

definition clusterDomainOf :: "config_lib \<Rightarrow> ControllerManagerConfig \<Rightarrow> ControllerManagerConfig" where
  "clusterDomainOf B config =
     (if cn_ClusterDomain config = ''''
      then config\<lparr>cn_ClusterDomain := (case autoDetectClusterDomain B of Inl _ \<Rightarrow> '''' | Inr d \<Rightarrow> d)\<rparr>
      else config)"

definition parentIDTemplateOf :: "config_lib \<Rightarrow> ControllerManagerConfigurationSpec \<Rightarrow> Template option result" where
  "parentIDTemplateOf B spec =
     (if sp_ParentIDTemplate spec \<noteq> ''''
      then bindE (wrapE ''unable to parse parent ID template'' (lb_template_Parse B (sp_ParentIDTemplate spec))) (\<lambda>t. Inr (Some t))
      else Inr None)"

definition reconcileOf :: "ControllerManagerConfigurationSpec \<Rightarrow> ReconcileConfig" where
  "reconcileOf spec =
     (case sp_Reconcile spec of
        None \<Rightarrow> \<lparr>rk_ClusterSPIFFEIDs = (sp_StaticManifestPath spec = None), rk_ClusterFederatedTrustDomains = True,
                 rk_ClusterStaticEntries = True\<rparr>
      | Some r \<Rightarrow> r)"

definition checkStatic :: "Options \<Rightarrow> ReconcileConfig \<Rightarrow> ControllerManagerConfigurationSpec \<Rightarrow> unit result" where
  "checkStatic options rk spec =
     (if sp_StaticManifestPath spec \<noteq> None then
        (if op_LeaderElection options then Inl (Err ''the Leader election is not possible with static manifests'')
         else if rk_ClusterSPIFFEIDs rk then Inl (Err ''ClusterSPIFFEID reconciliation is not possible with static manifests'')
         else Inr ())
      else Inr ())"

definition addDotSuffix :: "string \<Rightarrow> string" where
  "addDotSuffix val = (if val \<noteq> '''' \<and> \<not> HasSuffix val ''.'' then val @ ''.'' else val)"

definition entryIDPrefixes :: "ControllerManagerConfigurationSpec \<Rightarrow> ControllerManagerConfigurationSpec result" where
  "entryIDPrefixes spec =
     (let spec = spec\<lparr>sp_EntryIDPrefix := addDotSuffix (sp_EntryIDPrefix spec)\<rparr> in
      case sp_EntryIDPrefixCleanup spec of
        None \<Rightarrow> Inr spec
      | Some cleanup \<Rightarrow>
          (if sp_EntryIDPrefix spec \<noteq> '''' \<and> sp_EntryIDPrefix spec = addDotSuffix cleanup then
             Inl (Err ''if entryIDPrefixCleanup is specified, it can not be the same value as entryIDPrefix'')
           else Inr (spec\<lparr>sp_EntryIDPrefixCleanup := Some (addDotSuffix cleanup)\<rparr>)))"

definition checkRequired :: "ControllerManagerConfig \<Rightarrow> unit result" where
  "checkRequired config =
     (if cn_TrustDomain config = '''' then Inl (Err ''trust domain is required configuration'')
      else if cn_ClusterName config = '''' then Inl (Err ''cluster name is required configuration'')
      else if cn_ValidatingWebhookConfigurationName config = '''' then
        Inl (Err ''validating webhook configuration name is required configuration'')
      else if sp_EnableEntryListCache (cn_Spec config) \<and> sp_EntryIDPrefix (cn_Spec config) = '''' then
        Inl (Err ''enableEntryListCache requires entryIDPrefix to be set'')
      else if sp_EnableEntryListHintFilter (cn_Spec config) \<and> sp_EntryIDPrefix (cn_Spec config) = '''' then
        Inl (Err ''enableEntryListHintFilter requires entryIDPrefix to be set'')
      else Inr ())"

definition parseConfig :: "config_lib \<Rightarrow> flags \<Rightarrow> main_Config result" where
  "parseConfig B fl =
     bindE (fromFile B fl emptyOptions defaultConfig) (\<lambda>(options, config, regexes).
     bindE (wrapE ''unable to parse log level'' (setLogger (fl_zap fl) (cn_LogLevel config) (cn_LogEncoding config))) (\<lambda>_.
     bindE (serverEndpoint (fl_spireAPISocket fl) config) (\<lambda>config.
     let config = clusterDomainOf B config in
     bindE (parentIDTemplateOf B (cn_Spec config)) (\<lambda>parentIDTemplate.
     let rk = reconcileOf (cn_Spec config) in
     bindE (checkStatic options rk (cn_Spec config)) (\<lambda>_.
     bindE (entryIDPrefixes (cn_Spec config)) (\<lambda>spec.
     let config = config\<lparr>cn_Spec := spec\<rparr> in
     bindE (checkRequired config) (\<lambda>_.
     Inr \<lparr>mc_ctrlConfig = config, mc_options = options, mc_ignoreNamespacesRegex = regexes,
          mc_parentIDTemplate = parentIDTemplate, mc_reconcile = rk\<rparr>)))))))"

section \<open>What the parts establish\<close>

lemma addDotSuffix_cases: "addDotSuffix p = '''' \<and> p = '''' \<or> HasSuffix (addDotSuffix p) ''.''"
  by (auto simp: addDotSuffix_def HasSuffix_iff)

lemma addDotSuffix_idem [simp]: "addDotSuffix (addDotSuffix p) = addDotSuffix p"
  by (auto simp: addDotSuffix_def HasSuffix_iff)

lemma fromFile_done:
  assumes "fromFile B fl emptyOptions defaultConfig = Inr (options, config, regexes)"
  shows "0 < cn_GCInterval config"
proof (cases "fl_config fl = ''''")
  case True
  with assms show ?thesis by (auto simp: fromFile_def defaultConfig_def defaultGCInterval_def time_units)
next
  case False
  with assms obtain config0 where "config = (if cn_GCInterval config0 \<le> 0 then config0\<lparr>cn_GCInterval := defaultGCInterval\<rparr> else config0)"
    by (auto simp: fromFile_def result_simps Let_def)
  then show ?thesis by (cases "cn_GCInterval config0 \<le> 0") (simp_all add: defaultGCInterval_def time_units)
qed

lemma serverEndpoint_done:
  assumes "serverEndpoint flag config = Inr config'"
  shows "cn_SPIREServerAddress config' = cn_SPIREServerAddress config" "cn_SPIREServerMTLS config' = cn_SPIREServerMTLS config"
    "cn_Spec config' = cn_Spec config" "cn_GCInterval config' = cn_GCInterval config"
    "cn_SPIREServerAddress config' \<noteq> '''' \<Longrightarrow> cn_SPIREServerSocketPath config' = '''' \<and> cn_SPIREServerMTLS config' \<noteq> None"
    "cn_SPIREServerAddress config' = '''' \<Longrightarrow> cn_SPIREServerSocketPath config' =
       (if cn_SPIREServerSocketPath config \<noteq> '''' then cn_SPIREServerSocketPath config
        else if flag \<noteq> '''' then flag else defaultSPIREServerSocketPath)"
  using assms by (auto simp: serverEndpoint_def split: if_splits)

lemma clusterDomainOf_simps [simp]:
  "cn_SPIREServerAddress (clusterDomainOf B c) = cn_SPIREServerAddress c" "cn_Spec (clusterDomainOf B c) = cn_Spec c"
  "cn_SPIREServerMTLS (clusterDomainOf B c) = cn_SPIREServerMTLS c" "cn_GCInterval (clusterDomainOf B c) = cn_GCInterval c"
  "cn_SPIREServerSocketPath (clusterDomainOf B c) = cn_SPIREServerSocketPath c"
  by (simp_all add: clusterDomainOf_def)

lemma entryIDPrefixes_done:
  assumes "entryIDPrefixes spec = Inr spec'"
  shows "sp_EntryIDPrefix spec' = addDotSuffix (sp_EntryIDPrefix spec)"
    "sp_EntryIDPrefixCleanup spec' = map_option addDotSuffix (sp_EntryIDPrefixCleanup spec)"
    "sp_EntryIDPrefix spec' \<noteq> '''' \<Longrightarrow> sp_EntryIDPrefixCleanup spec' \<noteq> Some (sp_EntryIDPrefix spec')"
    "sp_StaticManifestPath spec' = sp_StaticManifestPath spec" "sp_Reconcile spec' = sp_Reconcile spec"
  using assms by (auto simp: entryIDPrefixes_def Let_def split: option.splits if_splits)

lemma checkRequired_done:
  assumes "checkRequired config = Inr ()"
  shows "cn_TrustDomain config \<noteq> ''''" "cn_ClusterName config \<noteq> ''''" "cn_ValidatingWebhookConfigurationName config \<noteq> ''''"
    "sp_EnableEntryListCache (cn_Spec config) \<or> sp_EnableEntryListHintFilter (cn_Spec config) \<Longrightarrow> sp_EntryIDPrefix (cn_Spec config) \<noteq> ''''"
  using assms by (auto simp: checkRequired_def split: if_splits)

lemma checkStatic_done:
  assumes "checkStatic options rk spec = Inr ()" "sp_StaticManifestPath spec \<noteq> None"
  shows "\<not> op_LeaderElection options" "\<not> rk_ClusterSPIFFEIDs rk"
  using assms by (auto simp: checkStatic_def split: if_splits)

lemma parseConfig_steps:
  assumes "parseConfig B fl = Inr c"
  obtains config config1 spec options where
    "fromFile B fl emptyOptions defaultConfig = Inr (options, config, mc_ignoreNamespacesRegex c)"
    "serverEndpoint (fl_spireAPISocket fl) config = Inr config1"
    "mc_reconcile c = reconcileOf (cn_Spec config1)" "mc_options c = options"
    "checkStatic options (mc_reconcile c) (cn_Spec config1) = Inr ()"
    "entryIDPrefixes (cn_Spec config1) = Inr spec"
    "mc_ctrlConfig c = (clusterDomainOf B config1)\<lparr>cn_Spec := spec\<rparr>" "checkRequired (mc_ctrlConfig c) = Inr ()"
  using assms by (auto simp: parseConfig_def result_simps Let_def split: prod.splits)

lemma parseConfig_gc:
  assumes "parseConfig B fl = Inr c"
  shows "0 < cn_GCInterval (mc_ctrlConfig c)"
proof (rule parseConfig_steps [OF assms])
  fix config0 config1 spec options
  assume "fromFile B fl emptyOptions defaultConfig = Inr (options, config0, mc_ignoreNamespacesRegex c)"
    and "serverEndpoint (fl_spireAPISocket fl) config0 = Inr config1"
    and "mc_ctrlConfig c = (clusterDomainOf B config1)\<lparr>cn_Spec := spec\<rparr>"
  then show ?thesis using fromFile_done serverEndpoint_done(4) [of "fl_spireAPISocket fl" config0 config1] by simp
qed

lemma parseConfig_spec:
  assumes "parseConfig B fl = Inr c"
  obtains spec where "entryIDPrefixes spec = Inr (cn_Spec (mc_ctrlConfig c))" "checkStatic (mc_options c) (mc_reconcile c) spec = Inr ()"
  by (rule parseConfig_steps [OF assms]) simp

lemma parseConfig_endpoint:
  assumes "parseConfig B fl = Inr c"
  shows "if cn_SPIREServerAddress (mc_ctrlConfig c) = '''' then cn_SPIREServerSocketPath (mc_ctrlConfig c) \<noteq> ''''
     else cn_SPIREServerSocketPath (mc_ctrlConfig c) = '''' \<and> cn_SPIREServerMTLS (mc_ctrlConfig c) \<noteq> None"
proof (rule parseConfig_steps [OF assms])
  fix config0 config1 spec1
  assume "serverEndpoint (fl_spireAPISocket fl) config0 = Inr config1"
    and "mc_ctrlConfig c = (clusterDomainOf B config1)\<lparr>cn_Spec := spec1\<rparr>"
  then show ?thesis using serverEndpoint_done(5,6) [of "fl_spireAPISocket fl" config0 config1]
    by (auto simp: defaultSPIREServerSocketPath_def)
qed

lemma parseConfig_prefixes:
  assumes "parseConfig B fl = Inr c"
  shows "sp_EntryIDPrefix (cn_Spec (mc_ctrlConfig c)) = '''' \<or> HasSuffix (sp_EntryIDPrefix (cn_Spec (mc_ctrlConfig c))) ''.'' \<and>
      sp_EntryIDPrefixCleanup (cn_Spec (mc_ctrlConfig c)) \<noteq> Some (sp_EntryIDPrefix (cn_Spec (mc_ctrlConfig c)))"
    "sp_EntryIDPrefixCleanup (cn_Spec (mc_ctrlConfig c)) = Some p \<Longrightarrow> p = '''' \<or> HasSuffix p ''.''"
proof -
  obtain spec where pre: "entryIDPrefixes spec = Inr (cn_Spec (mc_ctrlConfig c))" by (rule parseConfig_spec [OF assms])
  note pd = entryIDPrefixes_done [OF pre]
  show "sp_EntryIDPrefix (cn_Spec (mc_ctrlConfig c)) = '''' \<or> HasSuffix (sp_EntryIDPrefix (cn_Spec (mc_ctrlConfig c))) ''.'' \<and>
      sp_EntryIDPrefixCleanup (cn_Spec (mc_ctrlConfig c)) \<noteq> Some (sp_EntryIDPrefix (cn_Spec (mc_ctrlConfig c)))"
    using pd(1,3) addDotSuffix_cases [of "sp_EntryIDPrefix spec"] by auto
  show "sp_EntryIDPrefixCleanup (cn_Spec (mc_ctrlConfig c)) = Some p \<Longrightarrow> p = '''' \<or> HasSuffix p ''.''"
    using pd(2) addDotSuffix_cases by auto
qed

lemma parseConfig_required:
  assumes "parseConfig B fl = Inr c"
  shows "cn_TrustDomain (mc_ctrlConfig c) \<noteq> ''''" "cn_ClusterName (mc_ctrlConfig c) \<noteq> ''''"
    "cn_ValidatingWebhookConfigurationName (mc_ctrlConfig c) \<noteq> ''''"
    "sp_EnableEntryListCache (cn_Spec (mc_ctrlConfig c)) \<or> sp_EnableEntryListHintFilter (cn_Spec (mc_ctrlConfig c)) \<Longrightarrow>
       sp_EntryIDPrefix (cn_Spec (mc_ctrlConfig c)) \<noteq> ''''"
proof -
  have "checkRequired (mc_ctrlConfig c) = Inr ()" by (rule parseConfig_steps [OF assms])
  note req = checkRequired_done [OF this]
  show "cn_TrustDomain (mc_ctrlConfig c) \<noteq> ''''" "cn_ClusterName (mc_ctrlConfig c) \<noteq> ''''"
    "cn_ValidatingWebhookConfigurationName (mc_ctrlConfig c) \<noteq> ''''" by (rule req)+
  show "sp_EnableEntryListCache (cn_Spec (mc_ctrlConfig c)) \<or> sp_EnableEntryListHintFilter (cn_Spec (mc_ctrlConfig c)) \<Longrightarrow>
       sp_EntryIDPrefix (cn_Spec (mc_ctrlConfig c)) \<noteq> ''''" by (rule req)
qed

lemma parseConfig_static:
  assumes "parseConfig B fl = Inr c" "sp_StaticManifestPath (cn_Spec (mc_ctrlConfig c)) \<noteq> None"
  shows "\<not> op_LeaderElection (mc_options c)" "\<not> rk_ClusterSPIFFEIDs (mc_reconcile c)"
proof -
  obtain spec where pre: "entryIDPrefixes spec = Inr (cn_Spec (mc_ctrlConfig c))"
    and st: "checkStatic (mc_options c) (mc_reconcile c) spec = Inr ()" by (rule parseConfig_spec [OF assms(1)])
  have "sp_StaticManifestPath spec \<noteq> None" using entryIDPrefixes_done(4) [OF pre] assms(2) by simp
  from checkStatic_done [OF st this] show "\<not> op_LeaderElection (mc_options c)" "\<not> rk_ClusterSPIFFEIDs (mc_reconcile c)" by blast+
qed

section \<open>Properties\<close>

text \<open>C34: what a configuration that is accepted guarantees to the rest of the program. The GC interval is positive;
  trust domain, cluster and webhook configuration are named; prefixes end with a dot, and the prefix to clean up
  is not the own one; the entry list cache and the hint filter come with a prefix; there is exactly one server
  endpoint, with mTLS when it is remote; static manifests exclude leader election and ClusterSPIFFEIDs.\<close>

theorem parseConfig_sound:
  assumes "parseConfig B fl = Inr c"
  defines "config \<equiv> mc_ctrlConfig c" and "spec \<equiv> cn_Spec (mc_ctrlConfig c)"
  shows "0 < cn_GCInterval config \<and> cn_TrustDomain config \<noteq> '''' \<and> cn_ClusterName config \<noteq> '''' \<and>
    cn_ValidatingWebhookConfigurationName config \<noteq> '''' \<and>
    (sp_EntryIDPrefix spec = '''' \<or> HasSuffix (sp_EntryIDPrefix spec) ''.'' \<and> sp_EntryIDPrefixCleanup spec \<noteq> Some (sp_EntryIDPrefix spec)) \<and>
    (case sp_EntryIDPrefixCleanup spec of Some p \<Rightarrow> p = '''' \<or> HasSuffix p ''.'' | None \<Rightarrow> True) \<and>
    (sp_EnableEntryListCache spec \<or> sp_EnableEntryListHintFilter spec \<longrightarrow> sp_EntryIDPrefix spec \<noteq> '''') \<and>
    (if cn_SPIREServerAddress config = '''' then cn_SPIREServerSocketPath config \<noteq> ''''
     else cn_SPIREServerSocketPath config = '''' \<and> cn_SPIREServerMTLS config \<noteq> None) \<and>
    (sp_StaticManifestPath spec \<noteq> None \<longrightarrow> \<not> op_LeaderElection (mc_options c) \<and> \<not> rk_ClusterSPIFFEIDs (mc_reconcile c))"
  using parseConfig_gc [OF assms(1)] parseConfig_prefixes [OF assms(1)] parseConfig_endpoint [OF assms(1)]
    parseConfig_required [OF assms(1)] parseConfig_static [OF assms(1)]
  unfolding config_def spec_def by (auto split: option.split)

text \<open>An option that is set under a condition, as an unconditional update.\<close>

lemma if_option_updates:
  "(if b then o1\<lparr>op_LeaderElection := v0\<rparr> else o1) = o1\<lparr>op_LeaderElection := (if b then v0 else op_LeaderElection o1)\<rparr>"
  "(if b then o1\<lparr>op_LeaderElectionResourceLock := v1\<rparr> else o1) = o1\<lparr>op_LeaderElectionResourceLock := (if b then v1 else op_LeaderElectionResourceLock o1)\<rparr>"
  "(if b then o1\<lparr>op_LeaderElectionNamespace := v2\<rparr> else o1) = o1\<lparr>op_LeaderElectionNamespace := (if b then v2 else op_LeaderElectionNamespace o1)\<rparr>"
  "(if b then o1\<lparr>op_LeaderElectionID := v3\<rparr> else o1) = o1\<lparr>op_LeaderElectionID := (if b then v3 else op_LeaderElectionID o1)\<rparr>"
  "(if b then o1\<lparr>op_LeaseDuration := v4\<rparr> else o1) = o1\<lparr>op_LeaseDuration := (if b then v4 else op_LeaseDuration o1)\<rparr>"
  "(if b then o1\<lparr>op_RenewDeadline := v5\<rparr> else o1) = o1\<lparr>op_RenewDeadline := (if b then v5 else op_RenewDeadline o1)\<rparr>"
  "(if b then o1\<lparr>op_RetryPeriod := v6\<rparr> else o1) = o1\<lparr>op_RetryPeriod := (if b then v6 else op_RetryPeriod o1)\<rparr>"
  "(if b then o1\<lparr>op_SyncPeriod := v7\<rparr> else o1) = o1\<lparr>op_SyncPeriod := (if b then v7 else op_SyncPeriod o1)\<rparr>"
  "(if b then o1\<lparr>op_DefaultNamespaces := v8\<rparr> else o1) = o1\<lparr>op_DefaultNamespaces := (if b then v8 else op_DefaultNamespaces o1)\<rparr>"
  "(if b then o1\<lparr>op_MetricsBindAddress := v9\<rparr> else o1) = o1\<lparr>op_MetricsBindAddress := (if b then v9 else op_MetricsBindAddress o1)\<rparr>"
  "(if b then o1\<lparr>op_HealthProbeBindAddress := v10\<rparr> else o1) = o1\<lparr>op_HealthProbeBindAddress := (if b then v10 else op_HealthProbeBindAddress o1)\<rparr>"
  "(if b then o1\<lparr>op_ReadinessEndpointName := v11\<rparr> else o1) = o1\<lparr>op_ReadinessEndpointName := (if b then v11 else op_ReadinessEndpointName o1)\<rparr>"
  "(if b then o1\<lparr>op_LivenessEndpointName := v12\<rparr> else o1) = o1\<lparr>op_LivenessEndpointName := (if b then v12 else op_LivenessEndpointName o1)\<rparr>"
  "(if b then o1\<lparr>op_CacheSyncTimeout := v13\<rparr> else o1) = o1\<lparr>op_CacheSyncTimeout := (if b then v13 else op_CacheSyncTimeout o1)\<rparr>"
  "(if b then o1\<lparr>op_GroupKindConcurrency := v14\<rparr> else o1) = o1\<lparr>op_GroupKindConcurrency := (if b then v14 else op_GroupKindConcurrency o1)\<rparr>"
  by simp_all

lemma setLeaderElectionConfig_eq:
  "setLeaderElectionConfig o1 spec =
     (case sp_LeaderElection spec of
        None \<Rightarrow> o1
      | Some le \<Rightarrow>
          o1\<lparr>op_LeaderElection := (op_LeaderElection o1 \<or> le_LeaderElect le = Some True),
             op_LeaderElectionResourceLock :=
               (if op_LeaderElectionResourceLock o1 = '''' then le_ResourceLock le else op_LeaderElectionResourceLock o1),
             op_LeaderElectionNamespace :=
               (if op_LeaderElectionNamespace o1 = '''' then le_ResourceNamespace le else op_LeaderElectionNamespace o1),
             op_LeaderElectionID := (if op_LeaderElectionID o1 = '''' then le_ResourceName le else op_LeaderElectionID o1),
             op_LeaseDuration :=
               (if op_LeaseDuration o1 = None \<and> le_LeaseDuration le \<noteq> 0 then Some (le_LeaseDuration le) else op_LeaseDuration o1),
             op_RenewDeadline :=
               (if op_RenewDeadline o1 = None \<and> le_RenewDeadline le \<noteq> 0 then Some (le_RenewDeadline le) else op_RenewDeadline o1),
             op_RetryPeriod :=
               (if op_RetryPeriod o1 = None \<and> le_RetryPeriod le \<noteq> 0 then Some (le_RetryPeriod le) else op_RetryPeriod o1)\<rparr>)"
proof (cases "sp_LeaderElection spec")
  case (Some le)
  show ?thesis unfolding setLeaderElectionConfig_def Some option.case Let_def if_option_updates
    by (cases o1) (auto split: option.split)
qed (simp add: setLeaderElectionConfig_def)

lemma controllerOptions_eq:
  "controllerOptions o1 spec =
     (case spec of
        None \<Rightarrow> o1
      | Some c \<Rightarrow>
          o1\<lparr>op_CacheSyncTimeout := (case cc_CacheSyncTimeout c of Some t \<Rightarrow> if op_CacheSyncTimeout o1 = 0 then t else op_CacheSyncTimeout o1
                                   | None \<Rightarrow> op_CacheSyncTimeout o1),
             op_GroupKindConcurrency := (if op_GroupKindConcurrency o1 = [] then cc_GroupKindConcurrency c else op_GroupKindConcurrency o1)\<rparr>)"
  by (cases o1) (auto simp: controllerOptions_def Let_def split: option.split)

lemma defaultNamespaces_done:
  assumes "defaultNamespaces o1 spec = Inr o2"
  shows "o2 = o1\<lparr>op_DefaultNamespaces := op_DefaultNamespaces o2\<rparr>"
    "map fst (op_DefaultNamespaces o2) =
      (if op_DefaultNamespaces o1 \<noteq> [] then map fst (op_DefaultNamespaces o1)
       else if sp_CacheNamespace spec \<noteq> '''' then [sp_CacheNamespace spec] else map fst (sp_CacheNamespaces spec))"
    "op_DefaultNamespaces o1 = [] \<Longrightarrow> sp_CacheNamespace spec = '''' \<or> sp_CacheNamespaces spec = []"
    "op_DefaultNamespaces o3 = op_DefaultNamespaces o2 \<Longrightarrow> defaultNamespaces o3 spec = Inr o3"
  using assms by (auto simp: defaultNamespaces_def split: if_splits)

lemma addressOptions_eq:
  "addressOptions o1 spec = o1
     \<lparr>op_MetricsBindAddress := (if op_MetricsBindAddress o1 = '''' then cm_BindAddress (sp_Metrics spec) else op_MetricsBindAddress o1),
      op_HealthProbeBindAddress :=
        (if op_HealthProbeBindAddress o1 = '''' then ch_HealthProbeBindAddress (sp_Health spec) else op_HealthProbeBindAddress o1),
      op_ReadinessEndpointName :=
        (if op_ReadinessEndpointName o1 = '''' then ch_ReadinessEndpointName (sp_Health spec) else op_ReadinessEndpointName o1),
      op_LivenessEndpointName :=
        (if op_LivenessEndpointName o1 = '''' then ch_LivenessEndpointName (sp_Health spec) else op_LivenessEndpointName o1)\<rparr>"
  unfolding addressOptions_def Let_def if_option_updates by (cases o1) auto

text \<open>The options from the file, given the namespaces.\<close>

definition options_of :: "Options \<Rightarrow> (string \<times> cache_Config) list \<Rightarrow> ControllerManagerConfigurationSpec \<Rightarrow> Options" where
  "options_of o1 namespaces spec =
     controllerOptions (addressOptions ((setLeaderElectionConfig o1 spec)
       \<lparr>op_SyncPeriod := (if op_SyncPeriod o1 = None then sp_SyncPeriod spec else op_SyncPeriod o1),
        op_DefaultNamespaces := namespaces\<rparr>) spec) (sp_Controller spec)"

lemma setLeaderElectionConfig_keeps [simp]:
  "op_SyncPeriod (setLeaderElectionConfig o1 spec) = op_SyncPeriod o1"
  "op_DefaultNamespaces (setLeaderElectionConfig o1 spec) = op_DefaultNamespaces o1"
  "op_MetricsBindAddress (setLeaderElectionConfig o1 spec) = op_MetricsBindAddress o1"
  "op_HealthProbeBindAddress (setLeaderElectionConfig o1 spec) = op_HealthProbeBindAddress o1"
  "op_ReadinessEndpointName (setLeaderElectionConfig o1 spec) = op_ReadinessEndpointName o1"
  "op_LivenessEndpointName (setLeaderElectionConfig o1 spec) = op_LivenessEndpointName o1"
  "op_CacheSyncTimeout (setLeaderElectionConfig o1 spec) = op_CacheSyncTimeout o1"
  "op_GroupKindConcurrency (setLeaderElectionConfig o1 spec) = op_GroupKindConcurrency o1"
  by (simp_all add: setLeaderElectionConfig_eq split: option.split)

lemma addressOptions_keeps [simp]:
  "op_LeaderElection (addressOptions o1 spec) = op_LeaderElection o1"
  "op_LeaderElectionResourceLock (addressOptions o1 spec) = op_LeaderElectionResourceLock o1"
  "op_LeaderElectionNamespace (addressOptions o1 spec) = op_LeaderElectionNamespace o1"
  "op_LeaderElectionID (addressOptions o1 spec) = op_LeaderElectionID o1"
  "op_LeaseDuration (addressOptions o1 spec) = op_LeaseDuration o1"
  "op_RenewDeadline (addressOptions o1 spec) = op_RenewDeadline o1"
  "op_RetryPeriod (addressOptions o1 spec) = op_RetryPeriod o1"
  "op_SyncPeriod (addressOptions o1 spec) = op_SyncPeriod o1"
  "op_DefaultNamespaces (addressOptions o1 spec) = op_DefaultNamespaces o1"
  "op_CacheSyncTimeout (addressOptions o1 spec) = op_CacheSyncTimeout o1"
  "op_GroupKindConcurrency (addressOptions o1 spec) = op_GroupKindConcurrency o1"
  by (simp_all add: addressOptions_eq)

lemma controllerOptions_keeps [simp]:
  "op_LeaderElection (controllerOptions o1 c) = op_LeaderElection o1"
  "op_LeaderElectionResourceLock (controllerOptions o1 c) = op_LeaderElectionResourceLock o1"
  "op_LeaderElectionNamespace (controllerOptions o1 c) = op_LeaderElectionNamespace o1"
  "op_LeaderElectionID (controllerOptions o1 c) = op_LeaderElectionID o1"
  "op_LeaseDuration (controllerOptions o1 c) = op_LeaseDuration o1"
  "op_RenewDeadline (controllerOptions o1 c) = op_RenewDeadline o1"
  "op_RetryPeriod (controllerOptions o1 c) = op_RetryPeriod o1"
  "op_SyncPeriod (controllerOptions o1 c) = op_SyncPeriod o1"
  "op_DefaultNamespaces (controllerOptions o1 c) = op_DefaultNamespaces o1"
  "op_MetricsBindAddress (controllerOptions o1 c) = op_MetricsBindAddress o1"
  "op_HealthProbeBindAddress (controllerOptions o1 c) = op_HealthProbeBindAddress o1"
  "op_ReadinessEndpointName (controllerOptions o1 c) = op_ReadinessEndpointName o1"
  "op_LivenessEndpointName (controllerOptions o1 c) = op_LivenessEndpointName o1"
  by (simp_all add: controllerOptions_eq split: option.split)

lemma addressOptions_sets [simp]:
  "op_MetricsBindAddress (addressOptions o1 spec) =
     (if op_MetricsBindAddress o1 = '''' then cm_BindAddress (sp_Metrics spec) else op_MetricsBindAddress o1)"
  "op_HealthProbeBindAddress (addressOptions o1 spec) =
     (if op_HealthProbeBindAddress o1 = '''' then ch_HealthProbeBindAddress (sp_Health spec) else op_HealthProbeBindAddress o1)"
  "op_ReadinessEndpointName (addressOptions o1 spec) =
     (if op_ReadinessEndpointName o1 = '''' then ch_ReadinessEndpointName (sp_Health spec) else op_ReadinessEndpointName o1)"
  "op_LivenessEndpointName (addressOptions o1 spec) =
     (if op_LivenessEndpointName o1 = '''' then ch_LivenessEndpointName (sp_Health spec) else op_LivenessEndpointName o1)"
  by (simp_all add: addressOptions_eq)

lemma setLeaderElectionConfig_elects [simp]:
  "op_LeaderElection (setLeaderElectionConfig o1 spec) =
     (op_LeaderElection o1 \<or> Option.bind (sp_LeaderElection spec) le_LeaderElect = Some True)"
  by (simp add: setLeaderElectionConfig_eq split: option.split)

lemma addOptions_eq:
  "addOptionsFromConfigSpec o1 spec =
     bindE (defaultNamespaces o1 spec) (\<lambda>o2. Inr (options_of o1 (op_DefaultNamespaces o2) spec))"
proof -
  let ?o = "(setLeaderElectionConfig o1 spec)\<lparr>op_SyncPeriod := (if op_SyncPeriod o1 = None then sp_SyncPeriod spec else op_SyncPeriod o1)\<rparr>"
  have sync: "(let o2 = setLeaderElectionConfig o1 spec
      in if op_SyncPeriod o2 = None \<and> sp_SyncPeriod spec \<noteq> None then o2\<lparr>op_SyncPeriod := sp_SyncPeriod spec\<rparr> else o2) = ?o"
    unfolding Let_def if_option_updates by (cases "sp_SyncPeriod spec") auto
  have ns: "defaultNamespaces ?o spec =
      bindE (defaultNamespaces o1 spec) (\<lambda>o2. Inr (?o\<lparr>op_DefaultNamespaces := op_DefaultNamespaces o2\<rparr>))"
    by (simp add: defaultNamespaces_def)
  have "addOptionsFromConfigSpec o1 spec =
      bindE (defaultNamespaces ?o spec) (\<lambda>o4. Inr (controllerOptions (addressOptions o4 spec) (sp_Controller spec)))"
    unfolding addOptionsFromConfigSpec_def sync [symmetric] by (simp add: Let_def)
  then show ?thesis unfolding ns by (cases "defaultNamespaces o1 spec") (simp_all add: options_of_def)
qed

lemma options_of_idem: "options_of (options_of o1 ns spec) ns spec = options_of o1 ns spec"
proof (rule Options.equality)
  show "op_LeaderElectionResourceLock (options_of (options_of o1 ns spec) ns spec) = op_LeaderElectionResourceLock (options_of o1 ns spec)"
    "op_LeaderElectionNamespace (options_of (options_of o1 ns spec) ns spec) = op_LeaderElectionNamespace (options_of o1 ns spec)"
    "op_LeaderElectionID (options_of (options_of o1 ns spec) ns spec) = op_LeaderElectionID (options_of o1 ns spec)"
    "op_LeaseDuration (options_of (options_of o1 ns spec) ns spec) = op_LeaseDuration (options_of o1 ns spec)"
    "op_RenewDeadline (options_of (options_of o1 ns spec) ns spec) = op_RenewDeadline (options_of o1 ns spec)"
    "op_RetryPeriod (options_of (options_of o1 ns spec) ns spec) = op_RetryPeriod (options_of o1 ns spec)"
    by (auto simp: options_of_def setLeaderElectionConfig_eq split: option.split)
  show "op_CacheSyncTimeout (options_of (options_of o1 ns spec) ns spec) = op_CacheSyncTimeout (options_of o1 ns spec)"
    "op_GroupKindConcurrency (options_of (options_of o1 ns spec) ns spec) = op_GroupKindConcurrency (options_of o1 ns spec)"
    by (simp_all add: options_of_def controllerOptions_eq split: option.split)
qed (simp_all add: options_of_def)

text \<open>Options that are set before a file is loaded go before those of the file. Every option keeps its value when
  it has one, otherwise it has that of the file; the cache is restricted to the namespaces of the file, and a file
  that names a single namespace as well as several is refused. Loading the same file again changes nothing.\<close>

lemma options_precedence:
  assumes "addOptionsFromConfigSpec o1 spec = Inr o2"
  shows "op_MetricsBindAddress o2 = (if op_MetricsBindAddress o1 \<noteq> '''' then op_MetricsBindAddress o1 else cm_BindAddress (sp_Metrics spec)) \<and>
    op_HealthProbeBindAddress o2 =
      (if op_HealthProbeBindAddress o1 \<noteq> '''' then op_HealthProbeBindAddress o1 else ch_HealthProbeBindAddress (sp_Health spec)) \<and>
    op_SyncPeriod o2 = (if op_SyncPeriod o1 \<noteq> None then op_SyncPeriod o1 else sp_SyncPeriod spec) \<and>
    op_LeaderElection o2 = (op_LeaderElection o1 \<or> Option.bind (sp_LeaderElection spec) le_LeaderElect = Some True) \<and>
    map fst (op_DefaultNamespaces o2) =
      (if op_DefaultNamespaces o1 \<noteq> [] then map fst (op_DefaultNamespaces o1)
       else if sp_CacheNamespace spec \<noteq> '''' then [sp_CacheNamespace spec] else map fst (sp_CacheNamespaces spec)) \<and>
    (op_DefaultNamespaces o1 = [] \<longrightarrow> sp_CacheNamespace spec = '''' \<or> sp_CacheNamespaces spec = []) \<and>
    addOptionsFromConfigSpec o2 spec = Inr o2"
proof -
  from assms obtain o3 where ns: "defaultNamespaces o1 spec = Inr o3" and o2: "o2 = options_of o1 (op_DefaultNamespaces o3) spec"
    by (auto simp: addOptions_eq result_simps)
  have "op_DefaultNamespaces o2 = op_DefaultNamespaces o3" by (simp add: o2 options_of_def)
  from defaultNamespaces_done(4) [OF ns this] this have "addOptionsFromConfigSpec o2 spec = Inr o2"
    by (simp add: addOptions_eq) (simp add: o2 options_of_idem)
  with defaultNamespaces_done(2,3) [OF ns] show ?thesis by (simp add: o2 options_of_def)
qed

text \<open>The cluster domain is what follows the name of the default service, without a trailing dot.\<close>

lemma parseClusterDomainCNAME_iff:
  "parseClusterDomainCNAME cname = Inr d \<longleftrightarrow>
     d \<noteq> '''' \<and> (cname = k8sDefaultService @ ''.'' @ d @ ''.'' \<or> cname = k8sDefaultService @ ''.'' @ d \<and> \<not> HasSuffix d ''.'')"
proof -
  have trim: "TrimSuffix rest ''.'' = d \<longleftrightarrow> rest = d @ ''.'' \<or> rest = d \<and> \<not> HasSuffix d ''.''" for rest
    by (auto simp: TrimSuffix_def HasSuffix_iff)
  show ?thesis
  proof (cases "HasPrefix cname (k8sDefaultService @ ''.'')")
    case True
    then obtain rest where cname: "cname = (k8sDefaultService @ ''.'') @ rest" by (auto simp: HasPrefix_iff)
    show ?thesis unfolding parseClusterDomainCNAME_def cname TrimPrefix_append Let_def using trim [of rest] by auto
  next
    case False
    then show ?thesis by (auto simp: parseClusterDomainCNAME_def TrimPrefix_def HasPrefix_iff)
  qed
qed

section \<open>Witnesses\<close>

definition ref_config_lib :: config_lib where
  "ref_config_lib =
     \<lparr>lb_ReadFile = Inr, lb_ExpandEnv = (\<lambda>s. s),
      lb_DecodeInto = (\<lambda>s c. Inr (c\<lparr>cn_TrustDomain := ''td'', cn_ClusterName := ''c'', cn_GCInterval := 0,
         cn_Spec := (cn_Spec c)\<lparr>sp_EntryIDPrefix := s, sp_EntryIDPrefixCleanup := Some '''', sp_EnableEntryListCache := True\<rparr>\<rparr>)),
      lb_Compile = (\<lambda>s. Inr ((=) s)), lb_LookupCNAME = (\<lambda>s. Inr (s @ ''.cluster.local.'')),
      lb_template_Parse = (\<lambda>s. Inr (\<lambda>d. Inr s))\<rparr>"

definition ref_flags :: "string \<Rightarrow> flags" where
  "ref_flags file = \<lparr>fl_config = file, fl_spireAPISocket = '''', fl_expandEnv = False, fl_zap = \<lparr>zo_Level = None, zo_Encoder = None\<rparr>\<rparr>"

lemma ref_parse:
  obtains c where "parseConfig ref_config_lib (ref_flags ''scm'') = Inr c" "sp_EntryIDPrefix (cn_Spec (mc_ctrlConfig c)) = ''scm.''"
    "sp_StaticManifestPath (cn_Spec (mc_ctrlConfig c)) = None"
proof -
  have "case parseConfig ref_config_lib (ref_flags ''scm'') of
      Inl _ \<Rightarrow> False
    | Inr c \<Rightarrow> sp_EntryIDPrefix (cn_Spec (mc_ctrlConfig c)) = ''scm.'' \<and> sp_StaticManifestPath (cn_Spec (mc_ctrlConfig c)) = None"
    by code_simp
  with that show ?thesis by (auto split: sum.splits)
qed

theorem parseConfig_sound_witness:
  "\<exists>c. parseConfig ref_config_lib (ref_flags ''scm'') = Inr c \<and> 0 < cn_GCInterval (mc_ctrlConfig c) \<and>
     HasSuffix (sp_EntryIDPrefix (cn_Spec (mc_ctrlConfig c))) ''.''"
proof (rule ref_parse)
  fix c assume c: "parseConfig ref_config_lib (ref_flags ''scm'') = Inr c" "sp_EntryIDPrefix (cn_Spec (mc_ctrlConfig c)) = ''scm.''"
  with parseConfig_sound [OF c(1)] show ?thesis by auto
qed

lemma options_precedence_witness:
  "\<exists>o2. addOptionsFromConfigSpec emptyOptions (emptySpec\<lparr>sp_CacheNamespace := ''ns'', sp_Metrics := \<lparr>cm_BindAddress = '':8080''\<rparr>\<rparr>) = Inr o2 \<and>
     op_MetricsBindAddress o2 = '':8080'' \<and> map fst (op_DefaultNamespaces o2) = [''ns'']"
proof -
  let ?spec = "emptySpec\<lparr>sp_CacheNamespace := ''ns'', sp_Metrics := \<lparr>cm_BindAddress = '':8080''\<rparr>\<rparr>"
  obtain o2 where o2: "addOptionsFromConfigSpec emptyOptions ?spec = Inr o2"
    by (simp add: addOptions_eq defaultNamespaces_def emptyOptions_def emptySpec_def)
  from options_precedence [OF this] o2 show ?thesis by (auto simp: emptyOptions_def emptySpec_def)
qed

end
