(* ===== verification/Controller_Manager.thy ===== *)
theory Controller_Manager
  imports Controllers Webhook_Manager Federation_Reconciler Reconciler_Run Manager_Config
begin

section \<open>The start of the controller manager (cmd/main.go)\<close>

text \<open>
  \<open>main\<close> parses the configuration and runs the manager, with static manifests or in a cluster. What it does to
  the outside is a trace: the calls in the order in which they are made, each with the error it returned. Which
  errors the calls return is a parameter, \<open>me_result\<close>, of what happened before; so are go-spiffe, gRPC, the
  environment and the paths. The parts that are modelled elsewhere (the webhook manager, the loops, the
  controllers) appear in the trace as the calls that start them.

  A function of Go that returns gives \<open>Ok\<close> or \<open>Failed\<close>; \<open>os.Exit\<close> is \<open>Exited\<close> and runs no deferred function,
  a panic is \<open>Panicked\<close> and runs them. Executions that never leave \<open>mgr.Start\<close> or \<open>wg.Wait\<close> have the trace up to
  that call.
\<close>

subsection \<open>Traces and outcomes\<close>

datatype 'a outcome = Ok 'a | Failed err | Exited | Panicked

text \<open>The loops that are run, with their configuration.\<close>

datatype 'w runnable =
    EntryLoop "'w ReconcilerConfig" Duration
  | FederationLoop "'w fed_ReconcilerConfig"
  | WebhookLoop ID string string

datatype kind = KClusterFederatedTrustDomain | KClusterSPIFFEID | KClusterStaticEntry | KPod | KEndpoints

text \<open>\<open>Dial\<close> has the sources that were opened and closed and the client. A controller is set up with the loop it
  triggers, which may be nil.\<close>

datatype 'w action =
    SetupSignalHandler
  | Dial "nat list" "nat list" "Client option"
  | MkdirTemp
  | InClusterConfig
  | NewForConfig
  | GetConfig
  | WebhookInit ID string string
  | NewManager Options "(string \<times> string \<times> string) option"
  | SetupController kind "'w runnable option" "Regexp list"
  | SetupWebhook kind
  | Add "'w runnable"
  | AddHealthzCheck
  | AddReadyzCheck
  | Go "'w runnable"
  | Wait
  | StartManager
  | CloseClient Client
  | RemoveAll string

type_synonym 'w trace = "('w action \<times> err option) list"
type_synonym ('w, 'a) prog = "'w trace \<Rightarrow> 'w trace \<times> 'a outcome"

record 'w main_env =
  me_spiffeid :: spiffeid_lib
  me_dial :: dial_lib
  me_Getenv :: "string \<Rightarrow> string"
  me_certDir :: string
  me_Join :: "string \<Rightarrow> string \<Rightarrow> string"
  me_K8sClient :: "'w K8sClient"
  me_EntryClient :: "Client \<Rightarrow> 'w EntryClient"
  me_TrustDomainClient :: "Client \<Rightarrow> 'w TrustDomainClient"
  me_result :: "'w trace \<Rightarrow> 'w action \<Rightarrow> err option"
  me_signal_panics :: "'w trace \<Rightarrow> bool"

definition andThen :: "('w, 'a) prog \<Rightarrow> ('a \<Rightarrow> ('w, 'b) prog) \<Rightarrow> ('w, 'b) prog" where
  "andThen p f tr =
     (case p tr of
        (tr', Ok x) \<Rightarrow> f x tr'
      | (tr', Failed e) \<Rightarrow> (tr', Failed e)
      | (tr', Exited) \<Rightarrow> (tr', Exited)
      | (tr', Panicked) \<Rightarrow> (tr', Panicked))"

text \<open>A deferred call runs whenever the function is left, but not after \<open>os.Exit\<close>.\<close>

definition deferring :: "('w, unit) prog \<Rightarrow> ('w, 'a) prog \<Rightarrow> ('w, 'a) prog" where
  "deferring cleanup p tr =
     (case p tr of
        (tr', Exited) \<Rightarrow> (tr', Exited)
      | (tr', out) \<Rightarrow>
          (case cleanup tr' of
             (tr'', Exited) \<Rightarrow> (tr'', Exited)
           | (tr'', _) \<Rightarrow> (tr'', out)))"

definition call :: "'w main_env \<Rightarrow> 'w action \<Rightarrow> ('w, unit) prog" where
  "call E a tr =
     (tr @ [(a, me_result E tr a)], case me_result E tr a of None \<Rightarrow> Ok () | Some e \<Rightarrow> Failed e)"

text \<open>A call without a result.\<close>

definition effect :: "'w action \<Rightarrow> ('w, unit) prog" where
  "effect a tr = (tr @ [(a, None)], Ok ())"

definition returning :: "'a outcome \<Rightarrow> ('w, 'a) prog" where
  "returning out tr = (tr, out)"

text \<open>Calls in sequence, up to the first that fails.\<close>

fun calls :: "'w main_env \<Rightarrow> 'w action list \<Rightarrow> ('w, unit) prog" where
  "calls E [] tr = (tr, Ok ())"
| "calls E (a # as) tr = andThen (call E a) (\<lambda>_. calls E as) tr"

definition setupSignalHandler :: "'w main_env \<Rightarrow> ('w, unit) prog" where
  "setupSignalHandler E tr = (if me_signal_panics E tr then (tr, Panicked) else (tr @ [(SetupSignalHandler, None)], Ok ()))"

subsection \<open>Connecting and configuring\<close>

definition dialSPIREServer :: "dial_lib \<Rightarrow> spiffeid_lib \<Rightarrow> ControllerManagerConfig \<Rightarrow> nat list \<times> nat list \<times> Client result" where
  "dialSPIREServer D L config =
     (if cn_SPIREServerAddress config \<noteq> ''''
      then DialMTLS D L (cn_SPIREServerAddress config) (cn_SPIREServerMTLS config) (cn_Grpc config)
      else ([], [], DialSocket D (cn_SPIREServerSocketPath config) (cn_Grpc config)))"

definition dialing :: "'w main_env \<Rightarrow> ControllerManagerConfig \<Rightarrow> ('w, Client) prog" where
  "dialing E config tr =
     (case dialSPIREServer (me_dial E) (me_spiffeid E) config of
        (opened, closed, Inl e) \<Rightarrow> (tr @ [(Dial opened closed None, Some e)], Failed e)
      | (opened, closed, Inr client) \<Rightarrow> (tr @ [(Dial opened closed (Some client), None)], Ok client))"

definition entryReconcilerConfig :: "'w main_env \<Rightarrow> main_Config \<Rightarrow> TrustDomain \<Rightarrow> Client \<Rightarrow> 'w ReconcilerConfig" where
  "entryReconcilerConfig E c trustDomain client =
     (let config = mc_ctrlConfig c; spec = cn_Spec config in
      \<lparr>rc_TrustDomain = trustDomain, rc_ClusterName = cn_ClusterName config, rc_ClusterDomain = cn_ClusterDomain config,
       rc_EntryClient = me_EntryClient E client, rc_K8sClient = Some (me_K8sClient E),
       rc_IgnoreNamespaces = mc_ignoreNamespacesRegex c, rc_ClassName = sp_ClassName spec,
       rc_WatchClassless = sp_WatchClassless spec, rc_ParentIDTemplate = mc_parentIDTemplate c,
       rc_Reconcile = mc_reconcile c, rc_EntryIDPrefix = sp_EntryIDPrefix spec,
       rc_EntryIDPrefixCleanup = sp_EntryIDPrefixCleanup spec, rc_StaticManifestPath = None,
       rc_ExpandEnvStaticManifests = False, rc_EnableEntryRenderCache = sp_EnableEntryRenderCache spec,
       rc_EntryRenderCacheSize = sp_EntryRenderCacheSize spec, rc_EnableEntryListCache = sp_EnableEntryListCache spec,
       rc_EntryListCacheReloadInterval = sp_EntryListCacheReloadInterval spec,
       rc_EnableEntryListHintFilter = sp_EnableEntryListHintFilter spec\<rparr>)"

definition federationReconcilerConfig :: "'w main_env \<Rightarrow> main_Config \<Rightarrow> Client \<Rightarrow> 'w fed_ReconcilerConfig" where
  "federationReconcilerConfig E c client =
     (let config = mc_ctrlConfig c; spec = cn_Spec config in
      \<lparr>fc_TrustDomainClient = me_TrustDomainClient E client, fc_K8sClient = Some (me_K8sClient E),
       fc_ClassName = sp_ClassName spec, fc_WatchClassless = sp_WatchClassless spec, fc_StaticManifestPath = None,
       fc_ExpandEnvStaticManifests = False, fc_GCInterval = cn_GCInterval config\<rparr>)"

text \<open>With static manifests there is no client of Kubernetes, and the manifests are read from the path.\<close>

definition static_entryConfig :: "'w main_env \<Rightarrow> main_Config \<Rightarrow> TrustDomain \<Rightarrow> Client \<Rightarrow> 'w ReconcilerConfig" where
  "static_entryConfig E c trustDomain client =
     (let spec = cn_Spec (mc_ctrlConfig c) in
      (entryReconcilerConfig E c trustDomain client)
        \<lparr>rc_K8sClient := None, rc_StaticManifestPath := sp_StaticManifestPath spec,
         rc_ExpandEnvStaticManifests := sp_ExpandEnvStaticManifests spec\<rparr>)"

definition static_federationConfig :: "'w main_env \<Rightarrow> main_Config \<Rightarrow> Client \<Rightarrow> 'w fed_ReconcilerConfig" where
  "static_federationConfig E c client =
     (let spec = cn_Spec (mc_ctrlConfig c) in
      (federationReconcilerConfig E c client)
        \<lparr>fc_K8sClient := None, fc_StaticManifestPath := sp_StaticManifestPath spec,
         fc_ExpandEnvStaticManifests := sp_ExpandEnvStaticManifests spec\<rparr>)"

subsection \<open>\<open>run\<close>\<close>

text \<open>From the creation of the manager to its start. The controllers are set up with the loops they trigger, the
  admission webhooks registered, the loops added.\<close>

definition entryLoop :: "'w main_env \<Rightarrow> main_Config \<Rightarrow> TrustDomain \<Rightarrow> Client \<Rightarrow> 'w runnable option" where
  "entryLoop E c td client =
     (if rk_ClusterSPIFFEIDs (mc_reconcile c) \<or> rk_ClusterStaticEntries (mc_reconcile c)
      then Some (EntryLoop (entryReconcilerConfig E c td client) (cn_GCInterval (mc_ctrlConfig c))) else None)"

definition federationLoop :: "'w main_env \<Rightarrow> main_Config \<Rightarrow> Client \<Rightarrow> 'w runnable option" where
  "federationLoop E c client =
     (if rk_ClusterFederatedTrustDomains (mc_reconcile c)
      then Some (FederationLoop (federationReconcilerConfig E c client)) else None)"

definition managerCalls ::
  "'w main_env \<Rightarrow> main_Config \<Rightarrow> TrustDomain \<Rightarrow> Client \<Rightarrow> (string \<times> string \<times> string) option \<Rightarrow> 'w runnable option \<Rightarrow> 'w action list" where
  "managerCalls E c td client server webhook =
     (let rk = mc_reconcile c; entry = entryLoop E c td client; federation = federationLoop E c client;
          ignored = mc_ignoreNamespacesRegex c in
      [NewManager (mc_options c) server] @
      (if rk_ClusterFederatedTrustDomains rk then [SetupController KClusterFederatedTrustDomain federation []] else []) @
      (if rk_ClusterSPIFFEIDs rk then [SetupController KClusterSPIFFEID entry []] else []) @
      (if rk_ClusterStaticEntries rk then [SetupController KClusterStaticEntry entry []] else []) @
      (if server \<noteq> None then [SetupWebhook KClusterFederatedTrustDomain, SetupWebhook KClusterSPIFFEID] else []) @
      (if rk_ClusterSPIFFEIDs rk then [SetupController KPod entry ignored, SetupController KEndpoints entry ignored] else []) @
      (case entry of Some r \<Rightarrow> [Add r] | None \<Rightarrow> []) @
      (case federation of Some r \<Rightarrow> [Add r] | None \<Rightarrow> []) @
      (case webhook of Some r \<Rightarrow> [Add r] | None \<Rightarrow> []) @
      [AddHealthzCheck, AddReadyzCheck, StartManager])"

text \<open>The webhook manager is created and initialized before the manager. \<open>RequireFromPath\<close> panics on an error.\<close>

definition keyPairName :: string where "keyPairName = ''keypair.pem''"

definition startWebhook :: "'w main_env \<Rightarrow> main_Config \<Rightarrow> TrustDomain \<Rightarrow> ('w, 'w runnable) prog" where
  "startWebhook E c td =
     andThen (calls E [InClusterConfig, NewForConfig]) (\<lambda>_.
     case FromPath (me_spiffeid E) td ''/spire-controller-manager-webhook'' of
       Inl _ \<Rightarrow> returning Panicked
     | Inr webhookID \<Rightarrow>
         (let keyPairPath = me_Join E (me_certDir E) keyPairName; name = cn_ValidatingWebhookConfigurationName (mc_ctrlConfig c) in
          andThen (call E (WebhookInit webhookID keyPairPath name)) (\<lambda>_. returning (Ok (WebhookLoop webhookID keyPairPath name)))))"

text \<open>\<open>ctrl.GetConfigOrDie\<close> ends the process when there is no configuration of the cluster.\<close>

definition getConfigOrDie :: "'w main_env \<Rightarrow> ('w, unit) prog" where
  "getConfigOrDie E tr =
     (case call E GetConfig tr of
        (tr', Failed _) \<Rightarrow> (tr', Exited)
      | r \<Rightarrow> r)"

definition startManager ::
  "'w main_env \<Rightarrow> main_Config \<Rightarrow> TrustDomain \<Rightarrow> Client \<Rightarrow> (string \<times> string \<times> string) option \<Rightarrow> 'w runnable option \<Rightarrow> ('w, unit) prog" where
  "startManager E c td client server webhook =
     andThen (getConfigOrDie E) (\<lambda>_. calls E (managerCalls E c td client server webhook))"

definition removeCertDir :: "'w main_env \<Rightarrow> ('w, unit) prog" where
  "removeCertDir E tr =
     (case call E (RemoveAll (me_certDir E)) tr of
        (tr', Failed _) \<Rightarrow> (tr', Exited)
      | r \<Rightarrow> r)"

text \<open>What \<open>run\<close> does with the client of the server.\<close>

definition serve :: "'w main_env \<Rightarrow> main_Config \<Rightarrow> TrustDomain \<Rightarrow> Client \<Rightarrow> ('w, unit) prog" where
  "serve E c td client =
     (if me_Getenv E ''ENABLE_WEBHOOKS'' \<noteq> ''false''
      then andThen (call E MkdirTemp) (\<lambda>_.
           deferring (removeCertDir E)
             (andThen (startWebhook E c td) (\<lambda>webhook.
              startManager E c td client (Some (me_certDir E, keyPairName, keyPairName)) (Some webhook))))
      else startManager E c td client None None)"

definition run :: "'w main_env \<Rightarrow> main_Config \<Rightarrow> ('w, unit) prog" where
  "run E c =
     (case TrustDomainFromString (me_spiffeid E) (cn_TrustDomain (mc_ctrlConfig c)) of
        Inl e \<Rightarrow> returning (Failed e)
      | Inr td \<Rightarrow>
          andThen (setupSignalHandler E) (\<lambda>_.
          andThen (dialing E (mc_ctrlConfig c)) (\<lambda>client.
          deferring (call E (CloseClient client)) (serve E c td client))))"

subsection \<open>\<open>staticRun\<close> and \<open>main\<close>\<close>

text \<open>The loops run in goroutines of their own; \<open>Wait\<close> returns when they have.\<close>

definition staticServe :: "'w main_env \<Rightarrow> main_Config \<Rightarrow> TrustDomain \<Rightarrow> ('w, unit) prog" where
  "staticServe E c td =
     andThen (dialing E (mc_ctrlConfig c)) (\<lambda>client.
     deferring (call E (CloseClient client))
       (andThen (call E (NewManager (mc_options c) None)) (\<lambda>_.
        andThen (if rk_ClusterStaticEntries (mc_reconcile c)
                 then effect (Go (EntryLoop (static_entryConfig E c td client) (cn_GCInterval (mc_ctrlConfig c))))
                 else returning (Ok ())) (\<lambda>_.
        andThen (if rk_ClusterFederatedTrustDomains (mc_reconcile c)
                 then effect (Go (FederationLoop (static_federationConfig E c client)))
                 else returning (Ok ())) (\<lambda>_.
        andThen (calls E [AddHealthzCheck, AddReadyzCheck]) (\<lambda>_.
        andThen (effect Wait) (\<lambda>_.
        call E StartManager)))))))"

definition staticRun :: "'w main_env \<Rightarrow> main_Config \<Rightarrow> ('w, unit) prog" where
  "staticRun E c =
     (case TrustDomainFromString (me_spiffeid E) (cn_TrustDomain (mc_ctrlConfig c)) of
        Inl e \<Rightarrow> returning (Failed e)
      | Inr td \<Rightarrow> andThen (setupSignalHandler E) (\<lambda>_. staticServe E c td))"

definition exit_on_error :: "('w, unit) prog \<Rightarrow> ('w, unit) prog" where
  "exit_on_error p tr = (case p tr of (tr', Failed _) \<Rightarrow> (tr', Exited) | r \<Rightarrow> r)"

definition main :: "config_lib \<Rightarrow> flags \<Rightarrow> 'w main_env \<Rightarrow> 'w trace \<times> unit outcome" where
  "main B fl E =
     (case parseConfig B fl of
        Inl _ \<Rightarrow> ([], Exited)
      | Inr c \<Rightarrow>
          andThen (if sp_StaticManifestPath (cn_Spec (mc_ctrlConfig c)) \<noteq> None then exit_on_error (staticRun E c) else returning (Ok ()))
            (\<lambda>_. exit_on_error (run E c)) [])"

section \<open>Lemmas on traces\<close>

lemma andThen_cases:
  assumes "andThen p f tr = (tr', out)"
  obtains (ok) tr1 x where "p tr = (tr1, Ok x)" "f x tr1 = (tr', out)"
  | (failed) e where "p tr = (tr', Failed e)" "out = Failed e"
  | (exited) "p tr = (tr', Exited)" "out = Exited"
  | (panicked) "p tr = (tr', Panicked)" "out = Panicked"
  using assms by (cases "p tr"; cases "snd (p tr)") (auto simp: andThen_def)

lemma deferring_cases:
  assumes "deferring cleanup p tr = (tr', out)"
  obtains (exited) "p tr = (tr', Exited)" "out = Exited"
  | (cleaned) tr1 out1 r where "p tr = (tr1, out1)" "out1 \<noteq> Exited" "cleanup tr1 = (tr', r)" "out = (if r = Exited then Exited else out1)"
  using assms by (cases "p tr"; cases "snd (p tr)"; cases "cleanup (fst (p tr))"; cases "snd (cleanup (fst (p tr)))")
    (auto simp: deferring_def)

lemma call_done: "call E a tr = (tr', out) \<Longrightarrow> tr' = tr @ [(a, me_result E tr a)] \<and> (out = Ok () \<and> me_result E tr a = None \<or>
    (\<exists>e. out = Failed e \<and> me_result E tr a = Some e))"
  by (auto simp: call_def split: option.splits)

text \<open>A sequence of calls either makes all of them or stops after one that fails.\<close>

lemma calls_done:
  assumes "calls E as tr = (tr', out)"
  shows "\<exists>ext. tr' = tr @ ext \<and> (out = Ok () \<and> map fst ext = as \<or> (\<exists>e n. out = Failed e \<and> n < length as \<and> map fst ext = take (Suc n) as))"
  using assms
proof (induction as arbitrary: tr)
  case (Cons a as)
  from Cons.prems have "andThen (call E a) (\<lambda>_. calls E as) tr = (tr', out)" by simp
  then show ?case
  proof (cases rule: andThen_cases)
    case (ok tr1 x)
    from Cons.IH [OF ok(2)] call_done [OF ok(1)] show ?thesis
      by (auto intro: exI [of _ 0]) (metis Suc_less_eq append.assoc append_Cons append_Nil list.simps(9) fst_conv take_Suc_Cons)+
  next
    case (failed e)
    with call_done [OF failed(1)] show ?thesis by (auto intro!: exI [of _ 0])
  qed (auto dest: call_done)
qed auto

lemma calls_start:
  assumes "calls E (bs @ [a]) tr = (tr', out)" "a \<notin> set bs"
  shows "\<exists>ext. tr' = tr @ ext \<and> set (map fst ext) \<subseteq> insert a (set bs) \<and> (a \<in> set (map fst ext) \<longrightarrow> map fst ext = bs @ [a]) \<and>
    (\<exists>e. out = Ok () \<or> out = Failed e)"
proof -
  from calls_done [OF assms(1)] obtain ext where ext: "tr' = tr @ ext"
    "out = Ok () \<and> map fst ext = bs @ [a] \<or> (\<exists>e n. out = Failed e \<and> n < length (bs @ [a]) \<and> map fst ext = take (Suc n) (bs @ [a]))" by blast
  have "take (Suc n) (bs @ [a]) = bs @ [a]" if "a \<in> set (take (Suc n) (bs @ [a]))" for n
    using that assms(2) by (cases "Suc n \<le> length bs") (auto dest: in_set_takeD)
  moreover have "set (take (Suc n) (bs @ [a])) \<subseteq> insert a (set bs)" for n using set_take_subset [of "Suc n" "bs @ [a]"] by auto
  ultimately show ?thesis using ext by (intro exI [of _ ext]) fastforce
qed

definition setup_calls ::
  "'w main_env \<Rightarrow> main_Config \<Rightarrow> TrustDomain \<Rightarrow> Client \<Rightarrow> (string \<times> string \<times> string) option \<Rightarrow> 'w runnable option \<Rightarrow> 'w action list" where
  "setup_calls E c td client server webhook = butlast (managerCalls E c td client server webhook)"

text \<open>The calls between dialing and the close of the client.\<close>

fun inside :: "'w action \<Rightarrow> bool" where
  "inside (CloseClient _) = False"
| "inside (Dial _ _ _) = False"
| "inside SetupSignalHandler = False"
| "inside _ = True"

lemma managerCalls_split:
  "managerCalls E c td client server webhook = setup_calls E c td client server webhook @ [StartManager]"
  "StartManager \<notin> set (setup_calls E c td client server webhook)"
  "\<forall>a\<in>set (setup_calls E c td client server webhook). inside a"
  "RemoveAll dir \<notin> set (setup_calls E c td client server webhook)"
  "MkdirTemp \<notin> set (setup_calls E c td client server webhook)"
  by (auto simp: setup_calls_def managerCalls_def Let_def butlast_append split: option.splits if_splits)

lemma inside_only:
  assumes "A \<subseteq> insert StartManager S" "MkdirTemp \<notin> S" "\<forall>a\<in>S. inside a"
  shows "MkdirTemp \<notin> A" "\<forall>a\<in>A. inside a"
  using assms by auto

lemma startManager_done:
  assumes "startManager E c td client server webhook tr = (tr', out)"
  obtains ext where "tr' = tr @ ext" "MkdirTemp \<notin> set (map fst ext)" "\<forall>a\<in>set (map fst ext). inside a"
    "StartManager \<in> set (map fst ext) \<longrightarrow> out \<noteq> Exited"
    "StartManager \<in> set (map fst ext) \<longrightarrow> map fst ext = GetConfig # managerCalls E c td client server webhook"
proof -
  have config: "tr1 = tr @ [(GetConfig, me_result E tr GetConfig)]" if "getConfigOrDie E tr = (tr1, out1)" for tr1 out1
    using that call_done [of E GetConfig tr] by (auto simp: getConfigOrDie_def split: prod.splits outcome.splits)
  note sp = managerCalls_split [where E = E and c = c and td = td and client = client and server = server and webhook = webhook]
  from assms show thesis unfolding startManager_def
  proof (cases rule: andThen_cases)
    case (ok tr1 x)
    from calls_start [OF ok(2) [unfolded sp(1)] sp(2)] obtain ext where ext: "tr' = tr1 @ ext"
      "set (map fst ext) \<subseteq> insert StartManager (set (setup_calls E c td client server webhook))"
      "StartManager \<in> set (map fst ext) \<Longrightarrow> map fst ext = managerCalls E c td client server webhook" "out \<noteq> Exited"
      unfolding sp(1) by blast
    have "MkdirTemp \<notin> set (map fst ext)" "\<forall>a\<in>set (map fst ext). inside a" using inside_only [OF ext(2) sp(5,3)] by blast+
    then show thesis using ext(1,3,4) config [OF ok(1)] by (intro that [of "(GetConfig, me_result E tr GetConfig) # ext"]) auto
  qed (rule that [of "[(GetConfig, me_result E tr GetConfig)]"], auto dest: config)+
qed

text \<open>The trace of the webhook's start: up to its initialization, which is its last call.\<close>

lemma startWebhook_done:
  assumes "startWebhook E c td tr = (tr', out)"
  shows "\<exists>ext. tr' = tr @ ext \<and> set (map fst ext) \<inter> {StartManager, MkdirTemp} = {} \<and>
    (\<forall>a\<in>set (map fst ext). inside a) \<and> out \<noteq> Exited \<and>
    (\<forall>wh. out = Ok wh \<longrightarrow> (\<exists>i. FromPath (me_spiffeid E) td ''/spire-controller-manager-webhook'' = Inr i \<and>
       wh = WebhookLoop i (me_Join E (me_certDir E) keyPairName) (cn_ValidatingWebhookConfigurationName (mc_ctrlConfig c)) \<and>
       map fst ext = [InClusterConfig, NewForConfig, WebhookInit i (me_Join E (me_certDir E) keyPairName)
         (cn_ValidatingWebhookConfigurationName (mc_ctrlConfig c))]))"
  using assms unfolding startWebhook_def
proof (cases rule: andThen_cases)
  case (ok tr1 x)
  from calls_done [OF ok(1)] obtain ext where ext: "tr1 = tr @ ext" "map fst ext = [InClusterConfig, NewForConfig]" by auto
  show ?thesis
  proof (cases "FromPath (me_spiffeid E) td ''/spire-controller-manager-webhook''")
    case (Inl e)
    with ok ext show ?thesis by (auto simp: returning_def)
  next
    case (Inr i)
    let ?path = "me_Join E (me_certDir E) keyPairName" and ?name = "cn_ValidatingWebhookConfigurationName (mc_ctrlConfig c)"
    from ok(2) Inr have "andThen (call E (WebhookInit i ?path ?name)) (\<lambda>_. returning (Ok (WebhookLoop i ?path ?name))) tr1 = (tr', out)"
      by (simp add: Let_def)
    then show ?thesis
    proof (cases rule: andThen_cases)
      case (ok tr2 y)
      with call_done [OF ok(1)] ext Inr show ?thesis
        by (intro exI [of _ "ext @ [(WebhookInit i ?path ?name, None)]"]) (auto simp: returning_def)
    next
      case (failed e)
      with call_done [OF failed(1)] ext show ?thesis
        by (intro exI [of _ "ext @ [(WebhookInit i ?path ?name, Some e)]"]) auto
    qed (auto dest: call_done)
  qed
next
  case (failed e)
  from calls_done [OF failed(1)] obtain ext n where "tr' = tr @ ext" "map fst ext = take (Suc n) [InClusterConfig, NewForConfig]" by auto
  then show ?thesis using failed set_take_subset [of "Suc n" "[InClusterConfig, NewForConfig] :: 'a action list"]
    by (intro exI [of _ ext]) auto
next
  case exited
  from calls_done [OF exited(1)] show ?thesis by auto
next
  case panicked
  from calls_done [OF panicked(1)] show ?thesis by auto
qed

text \<open>How the manager is started with the webhook server (\<open>wh\<close>) and without it.\<close>

definition webhook_calls :: "'w main_env \<Rightarrow> main_Config \<Rightarrow> ID \<Rightarrow> 'w action list" where
  "webhook_calls E c i =
     [MkdirTemp, InClusterConfig, NewForConfig,
      WebhookInit i (me_Join E (me_certDir E) keyPairName) (cn_ValidatingWebhookConfigurationName (mc_ctrlConfig c))]"

definition start_calls :: "'w main_env \<Rightarrow> main_Config \<Rightarrow> TrustDomain \<Rightarrow> Client \<Rightarrow> 'w action list \<Rightarrow> bool" where
  "start_calls E c td client as \<longleftrightarrow>
     (if me_Getenv E ''ENABLE_WEBHOOKS'' \<noteq> ''false''
      then \<exists>i. FromPath (me_spiffeid E) td ''/spire-controller-manager-webhook'' = Inr i \<and>
        as = webhook_calls E c i @ GetConfig # managerCalls E c td client (Some (me_certDir E, keyPairName, keyPairName))
          (Some (WebhookLoop i (me_Join E (me_certDir E) keyPairName) (cn_ValidatingWebhookConfigurationName (mc_ctrlConfig c)))) @
          [RemoveAll (me_certDir E)]
      else as = GetConfig # managerCalls E c td client None None)"

lemma removeCertDir_done:
  assumes "removeCertDir E tr = (tr', out)"
  shows "\<exists>r. tr' = tr @ [(RemoveAll (me_certDir E), r)] \<and> (out \<noteq> Exited \<longrightarrow> r = None)"
  using assms call_done [of E "RemoveAll (me_certDir E)" tr] by (auto simp: removeCertDir_def split: prod.splits outcome.splits)

text \<open>The part between the creation of the directory and its removal.\<close>

lemma webhook_part_done:
  assumes "andThen (startWebhook E c td) (\<lambda>webhook.
      startManager E c td client (Some (me_certDir E, keyPairName, keyPairName)) (Some webhook)) tr = (tr', out)"
  shows "\<exists>ext. tr' = tr @ ext \<and> MkdirTemp \<notin> set (map fst ext) \<and> (\<forall>a\<in>set (map fst ext). inside a) \<and>
    (StartManager \<in> set (map fst ext) \<longrightarrow> out \<noteq> Exited) \<and>
    (StartManager \<in> set (map fst ext) \<and> me_Getenv E ''ENABLE_WEBHOOKS'' \<noteq> ''false'' \<longrightarrow>
       start_calls E c td client (MkdirTemp # map fst ext @ [RemoveAll (me_certDir E)]))"
  using assms
proof (cases rule: andThen_cases)
  case (ok tr1 wh)
  from startWebhook_done [OF ok(1)] obtain i ext where ext: "FromPath (me_spiffeid E) td ''/spire-controller-manager-webhook'' = Inr i"
    "wh = WebhookLoop i (me_Join E (me_certDir E) keyPairName) (cn_ValidatingWebhookConfigurationName (mc_ctrlConfig c))"
    "tr1 = tr @ ext" "MkdirTemp # map fst ext = webhook_calls E c i" by (auto simp: webhook_calls_def)
  obtain ext2 where ext2: "tr' = tr1 @ ext2" "MkdirTemp \<notin> set (map fst ext2)" "\<forall>a\<in>set (map fst ext2). inside a"
    "StartManager \<in> set (map fst ext2) \<longrightarrow> out \<noteq> Exited"
    "StartManager \<in> set (map fst ext2) \<longrightarrow>
       map fst ext2 = GetConfig # managerCalls E c td client (Some (me_certDir E, keyPairName, keyPairName)) (Some wh)"
    by (rule startManager_done [OF ok(2)])
  have "set (map fst ext) \<subseteq> set (tl (webhook_calls E c i))" using ext(4) by (metis list.sel(3) order_refl)
  then have no: "MkdirTemp \<notin> set (map fst ext)" "StartManager \<notin> set (map fst ext)" "\<forall>a\<in>set (map fst ext). inside a"
    by (auto simp: webhook_calls_def)
  have start: "start_calls E c td client (MkdirTemp # map fst (ext @ ext2) @ [RemoveAll (me_certDir E)])"
    if "StartManager \<in> set (map fst (ext @ ext2))" "me_Getenv E ''ENABLE_WEBHOOKS'' \<noteq> ''false''"
  proof -
    have "MkdirTemp # map fst (ext @ ext2) = webhook_calls E c i @ map fst ext2" using ext(4) by simp
    moreover have "map fst ext2 = GetConfig # managerCalls E c td client (Some (me_certDir E, keyPairName, keyPairName)) (Some wh)"
      using ext2(5) that(1) no(2) by auto
    ultimately show ?thesis using that(2) ext(1,2) unfolding start_calls_def by auto
  qed
  show ?thesis
  proof (intro exI [of _ "ext @ ext2"] conjI)
    show "tr' = tr @ ext @ ext2" using ext(3) ext2(1) by simp
    show "MkdirTemp \<notin> set (map fst (ext @ ext2))" "\<forall>a\<in>set (map fst (ext @ ext2)). inside a" using no ext2(2,3) by auto
    show "StartManager \<in> set (map fst (ext @ ext2)) \<longrightarrow> out \<noteq> Exited" using no(2) ext2(4) by auto
  qed (use start in blast)
next
  case (failed e)
  from startWebhook_done [OF failed(1)] failed show ?thesis by auto
next
  case exited
  from startWebhook_done [OF exited(1)] show ?thesis by auto
next
  case panicked
  from startWebhook_done [OF panicked(1)] panicked show ?thesis by auto
qed

lemma serve_done:
  assumes "serve E c td client tr = (tr', out)"
  shows "\<exists>ext. tr' = tr @ ext \<and> (\<forall>a\<in>set (map fst ext). inside a) \<and>
    (StartManager \<in> set (map fst ext) \<longrightarrow> start_calls E c td client (map fst ext)) \<and>
    ((MkdirTemp, None) \<in> set ext \<and> out \<noteq> Exited \<longrightarrow> (RemoveAll (me_certDir E), None) \<in> set ext)"
proof (cases "me_Getenv E ''ENABLE_WEBHOOKS'' = ''false''")
  case True
  from assms True have "startManager E c td client None None tr = (tr', out)" by (simp add: serve_def)
  then obtain ext where ext: "tr' = tr @ ext" "MkdirTemp \<notin> set (map fst ext)" "\<forall>a\<in>set (map fst ext). inside a"
    "StartManager \<in> set (map fst ext) \<longrightarrow> map fst ext = GetConfig # managerCalls E c td client None None"
    by (rule startManager_done)
  have "(MkdirTemp, None) \<notin> set ext" using ext(2) by force
  with ext(1,3,4) True show ?thesis unfolding start_calls_def by (intro exI [of _ ext]) simp
next
  case False
  let ?p = "andThen (startWebhook E c td) (\<lambda>webhook.
      startManager E c td client (Some (me_certDir E, keyPairName, keyPairName)) (Some webhook))"
  from assms False have "andThen (call E MkdirTemp) (\<lambda>_. deferring (removeCertDir E) ?p) tr = (tr', out)" by (simp add: serve_def)
  then show ?thesis
  proof (cases rule: andThen_cases)
    case (ok tr1 x)
    from call_done [OF ok(1)] have tr1: "tr1 = tr @ [(MkdirTemp, None)]" by auto
    from ok(2) show ?thesis
    proof (cases rule: deferring_cases)
      case exited
      from webhook_part_done [OF exited(1)] obtain ext where ext: "tr' = tr1 @ ext" "\<forall>a\<in>set (map fst ext). inside a"
        "StartManager \<notin> set (map fst ext)" by blast
      with tr1 exited(2) show ?thesis by (intro exI [of _ "(MkdirTemp, None) # ext"]) auto
    next
      case (cleaned tr2 out1 r)
      from webhook_part_done [OF cleaned(1)] obtain ext where ext: "tr2 = tr1 @ ext" "\<forall>a\<in>set (map fst ext). inside a"
        "StartManager \<in> set (map fst ext) \<Longrightarrow> start_calls E c td client (MkdirTemp # map fst ext @ [RemoveAll (me_certDir E)])"
        using False by blast
      from removeCertDir_done [OF cleaned(3)] obtain res where res: "tr' = tr2 @ [(RemoveAll (me_certDir E), res)]" "r \<noteq> Exited \<longrightarrow> res = None"
        by blast
      show ?thesis
      proof (intro exI [of _ "(MkdirTemp, None) # ext @ [(RemoveAll (me_certDir E), res)]"] conjI)
        show "tr' = tr @ (MkdirTemp, None) # ext @ [(RemoveAll (me_certDir E), res)]" using tr1 ext(1) res(1) by simp
        show "\<forall>a\<in>set (map fst ((MkdirTemp, None) # ext @ [(RemoveAll (me_certDir E), res)])). inside a" using ext(2) by simp
        show "StartManager \<in> set (map fst ((MkdirTemp, None) # ext @ [(RemoveAll (me_certDir E), res)])) \<longrightarrow>
            start_calls E c td client (map fst ((MkdirTemp, None) # ext @ [(RemoveAll (me_certDir E), res)]))" using ext(3) by auto
      qed (use cleaned(4) res(2) in auto)
    qed
  qed (auto dest!: call_done)
qed

text \<open>The whole trace of \<open>run\<close>.\<close>

lemma run_done:
  assumes "run E c tr = (tr', out)"
  obtains (before) "tr' = tr" "out = Panicked \<and> me_signal_panics E tr \<or> (\<exists>e. out = Failed e \<and>
      TrustDomainFromString (me_spiffeid E) (cn_TrustDomain (mc_ctrlConfig c)) = Inl e)"
  | (undialed) e opened closed where "dialSPIREServer (me_dial E) (me_spiffeid E) (mc_ctrlConfig c) = (opened, closed, Inl e)"
      "tr' = tr @ [(SetupSignalHandler, None), (Dial opened closed None, Some e)]" "out = Failed e"
  | (served) td opened closed client ext post where
      "TrustDomainFromString (me_spiffeid E) (cn_TrustDomain (mc_ctrlConfig c)) = Inr td"
      "dialSPIREServer (me_dial E) (me_spiffeid E) (mc_ctrlConfig c) = (opened, closed, Inr client)"
      "tr' = tr @ (SetupSignalHandler, None) # (Dial opened closed (Some client), None) # ext @ post"
      "\<forall>a\<in>set (map fst ext). inside a"
      "StartManager \<in> set (map fst ext) \<longrightarrow> start_calls E c td client (map fst ext)"
      "(MkdirTemp, None) \<in> set ext \<and> out \<noteq> Exited \<longrightarrow> (RemoveAll (me_certDir E), None) \<in> set ext"
      "out \<noteq> Exited \<longrightarrow> map fst post = [CloseClient client]" "map fst post = [] \<or> map fst post = [CloseClient client]"
proof (cases "TrustDomainFromString (me_spiffeid E) (cn_TrustDomain (mc_ctrlConfig c))")
  case (Inl e)
  with assms before show ?thesis by (simp add: run_def returning_def)
next
  case (Inr td)
  note r = assms [unfolded run_def Inr sum.case]
  from r show ?thesis
  proof (cases rule: andThen_cases)
    case (ok tr1 x)
    then have tr1: "tr1 = tr @ [(SetupSignalHandler, None)]" by (auto simp: setupSignalHandler_def split: if_splits)
    from ok(2) show ?thesis
    proof (cases rule: andThen_cases)
      case (ok tr2 client)
      then obtain opened closed where d: "dialSPIREServer (me_dial E) (me_spiffeid E) (mc_ctrlConfig c) = (opened, closed, Inr client)"
        and tr2: "tr2 = tr1 @ [(Dial opened closed (Some client), None)]" by (auto simp: dialing_def split: prod.splits sum.splits)
      from ok(2) show ?thesis
      proof (cases rule: deferring_cases)
        case exited
        from serve_done [OF exited(1)] d tr1 tr2 exited(2) show ?thesis by (auto intro!: served [OF Inr d, of _ "[]"])
      next
        case (cleaned tr3 out1 res)
        from serve_done [OF cleaned(1)] obtain ext where ext: "tr3 = tr2 @ ext" "\<forall>a\<in>set (map fst ext). inside a"
          "StartManager \<in> set (map fst ext) \<longrightarrow> start_calls E c td client (map fst ext)"
          "(MkdirTemp, None) \<in> set ext \<and> out1 \<noteq> Exited \<longrightarrow> (RemoveAll (me_certDir E), None) \<in> set ext" by blast
        from call_done [OF cleaned(3)] have "tr' = tr3 @ [(CloseClient client, me_result E tr3 (CloseClient client))]" by blast
        with ext tr1 tr2 cleaned(2) show ?thesis
          by (intro served [OF Inr d, of ext "[(CloseClient client, me_result E tr3 (CloseClient client))]"]) auto
      qed
    qed (auto simp: tr1 dialing_def split: prod.splits sum.splits intro: undialed)
  qed (auto simp: setupSignalHandler_def intro: before split: if_splits)
qed

lemma dial_sources:
  "dialSPIREServer D L config = (opened, closed, Inl e) \<Longrightarrow> closed = opened"
  "dialSPIREServer D L config = (opened, closed, Inr client) \<Longrightarrow> closed = [] \<and> snd (Close client) = opened"
  by (auto simp: dialSPIREServer_def DialMTLS_def DialSocket_def Close_def Let_def bindE_eq_Inr
      split: if_splits option.splits sum.splits prod.splits)

text \<open>The resources a configuration asks for, and the loop that a controller is to trigger.\<close>

fun configured :: "ReconcileConfig \<Rightarrow> kind \<Rightarrow> bool" where
  "configured rk KClusterFederatedTrustDomain = rk_ClusterFederatedTrustDomains rk"
| "configured rk KClusterStaticEntry = rk_ClusterStaticEntries rk"
| "configured rk _ = rk_ClusterSPIFFEIDs rk"

fun triggers :: "kind \<Rightarrow> 'w runnable \<Rightarrow> bool" where
  "triggers KClusterFederatedTrustDomain (FederationLoop _) = True"
| "triggers KClusterFederatedTrustDomain _ = False"
| "triggers _ (EntryLoop _ _) = True"
| "triggers _ _ = False"

lemma managerCalls_controllers:
  "SetupController k t ig \<in> set (managerCalls E c td client server webhook) \<longleftrightarrow> configured (mc_reconcile c) k \<and>
     t = (if k = KClusterFederatedTrustDomain then federationLoop E c client else entryLoop E c td client) \<and>
     ig = (if k = KPod \<or> k = KEndpoints then mc_ignoreNamespacesRegex c else [])"
  by (cases k) (auto simp: managerCalls_def Let_def split: option.splits)

lemma managerCalls_runnables:
  "Add r \<in> set (managerCalls E c td client server webhook) \<longleftrightarrow>
     entryLoop E c td client = Some r \<or> federationLoop E c client = Some r \<or> webhook = Some r"
  by (auto simp: managerCalls_def Let_def split: option.splits)

lemma managerCalls_target:
  assumes "SetupController k t ig \<in> set (managerCalls E c td client server webhook)"
  shows "\<exists>r. t = Some r \<and> Add r \<in> set (managerCalls E c td client server webhook) \<and> triggers k r"
  using assms unfolding managerCalls_controllers managerCalls_runnables
  by (cases k) (auto simp: entryLoop_def federationLoop_def)

text \<open>Where the calls of the manager stand in the trace.\<close>

lemma run_start:
  assumes "run E c [] = (tr, out)" "StartManager \<in> set (map fst tr)"
  obtains td client pre server webhook post where
    "map fst tr = pre @ managerCalls E c td client server webhook @ post"
    "set pre \<subseteq> {SetupSignalHandler, MkdirTemp, InClusterConfig, NewForConfig, GetConfig} \<union> range (\<lambda>(o1, c1, cl). Dial o1 c1 cl) \<union>
       range (\<lambda>(i, p, n). WebhookInit i p n)"
    "set post \<subseteq> {RemoveAll (me_certDir E), CloseClient client}"
    "me_Getenv E ''ENABLE_WEBHOOKS'' = ''false'' \<Longrightarrow> server = None \<and> webhook = None"
    "me_Getenv E ''ENABLE_WEBHOOKS'' \<noteq> ''false'' \<Longrightarrow> \<exists>i. server = Some (me_certDir E, keyPairName, keyPairName) \<and>
       webhook = Some (WebhookLoop i (me_Join E (me_certDir E) keyPairName) (cn_ValidatingWebhookConfigurationName (mc_ctrlConfig c))) \<and>
       WebhookInit i (me_Join E (me_certDir E) keyPairName) (cn_ValidatingWebhookConfigurationName (mc_ctrlConfig c)) \<in> set pre"
  using assms(1)
proof (cases rule: run_done)
  case (served td opened closed client ext post)
  let ?pre = "[SetupSignalHandler, Dial opened closed (Some client)]"
  let ?path = "me_Join E (me_certDir E) keyPairName" and ?name = "cn_ValidatingWebhookConfigurationName (mc_ctrlConfig c)"
  have post: "set (map fst post) \<subseteq> {CloseClient client}" using served(8) by auto
  then have st: "start_calls E c td client (map fst ext)" using assms(2) served(3,5) by auto
  show ?thesis
  proof (cases "me_Getenv E ''ENABLE_WEBHOOKS'' = ''false''")
    case True
    with st served(3) post show ?thesis
      by (intro that [of "?pre @ [GetConfig]" td client None None "map fst post"]) (auto simp: start_calls_def image_iff)
  next
    case False
    with st obtain i where i: "map fst ext = webhook_calls E c i @ GetConfig # managerCalls E c td client (Some (me_certDir E, keyPairName, keyPairName))
          (Some (WebhookLoop i ?path ?name)) @ [RemoveAll (me_certDir E)]" by (auto simp: start_calls_def)
    show ?thesis
    proof (rule that [of "?pre @ webhook_calls E c i @ [GetConfig]" td client "Some (me_certDir E, keyPairName, keyPairName)"
          "Some (WebhookLoop i ?path ?name)" "RemoveAll (me_certDir E) # map fst post"])
      show "map fst tr = (?pre @ webhook_calls E c i @ [GetConfig]) @ managerCalls E c td client (Some (me_certDir E, keyPairName, keyPairName))
          (Some (WebhookLoop i ?path ?name)) @ RemoveAll (me_certDir E) # map fst post" using served(3) i by simp
    qed (use False post in \<open>auto simp: webhook_calls_def image_iff\<close>)
  qed
qed (use assms(2) in auto)

text \<open>Programs that make only calls of a kind.\<close>

definition only :: "('w action \<Rightarrow> bool) \<Rightarrow> ('w, 'a) prog \<Rightarrow> bool" where
  "only P p \<longleftrightarrow> (\<forall>tr. \<exists>ext. fst (p tr) = tr @ ext \<and> list_all P (map fst ext))"

lemma only_returning: "only P (returning out)"
  by (simp add: only_def returning_def)

lemma only_effect: "P a \<Longrightarrow> only P (effect a)"
  by (simp add: only_def effect_def)

lemma only_call: "P a \<Longrightarrow> only P (call E a)"
  by (simp add: only_def call_def)

lemma only_signal: "P SetupSignalHandler \<Longrightarrow> only P (setupSignalHandler E)"
  by (simp add: only_def setupSignalHandler_def)

lemma only_dialing: "(\<And>o1 c1 cl. P (Dial o1 c1 cl)) \<Longrightarrow> only P (dialing E config)"
  by (simp add: only_def dialing_def split: prod.splits sum.splits)

lemma only_ext: "only P p \<Longrightarrow> p tr = (tr', out) \<Longrightarrow> \<exists>ext. tr' = tr @ ext \<and> list_all P (map fst ext)"
  unfolding only_def by (metis fst_conv)

lemma onlyI: "(\<And>tr tr' out. p tr = (tr', out) \<Longrightarrow> \<exists>ext. tr' = tr @ ext \<and> list_all P (map fst ext)) \<Longrightarrow> only P p"
  unfolding only_def by (metis prod.collapse)

lemma only_andThen:
  assumes "only P p" "\<And>x. only P (f x)"
  shows "only P (andThen p f)"
proof (rule onlyI)
  fix tr tr' out
  assume "andThen p f tr = (tr', out)"
  then show "\<exists>ext. tr' = tr @ ext \<and> list_all P (map fst ext)"
  proof (cases rule: andThen_cases)
    case (ok tr1 x)
    from only_ext [OF assms(1) ok(1)] only_ext [OF assms(2) ok(2)] show ?thesis by auto
  qed (use only_ext [OF assms(1)] in blast)+
qed

lemma only_deferring:
  assumes "only P cleanup" "only P p"
  shows "only P (deferring cleanup p)"
proof (rule onlyI)
  fix tr tr' out
  assume "deferring cleanup p tr = (tr', out)"
  then show "\<exists>ext. tr' = tr @ ext \<and> list_all P (map fst ext)"
  proof (cases rule: deferring_cases)
    case exited
    from only_ext [OF assms(2) exited(1)] show ?thesis .
  next
    case (cleaned tr1 out1 r)
    from only_ext [OF assms(2) cleaned(1)] only_ext [OF assms(1) cleaned(3)] show ?thesis by auto
  qed
qed

lemma only_calls:
  assumes "list_all P as"
  shows "only P (calls E as)"
proof (rule onlyI)
  fix tr tr' out
  assume "calls E as tr = (tr', out)"
  from calls_done [OF this] obtain ext n where "tr' = tr @ ext" "map fst ext = as \<or> map fst ext = take n as" by blast
  with assms show "\<exists>ext. tr' = tr @ ext \<and> list_all P (map fst ext)"
    by (metis append_take_drop_id list_all_append)
qed

lemmas only_intros = only_returning only_effect only_call only_signal only_dialing only_andThen only_deferring only_calls

text \<open>The controllers and loops of a started manager.\<close>

lemma run_started:
  assumes "run E c [] = (tr, out)" "StartManager \<in> set (map fst tr)"
  obtains td client server webhook where
    "\<And>k t ig. SetupController k t ig \<in> set (map fst tr) \<longleftrightarrow> SetupController k t ig \<in> set (managerCalls E c td client server webhook)"
    "\<And>r. Add r \<in> set (map fst tr) \<longleftrightarrow> Add r \<in> set (managerCalls E c td client server webhook)"
    "\<And>cfg gc. Add (EntryLoop cfg gc) \<in> set (map fst tr) \<Longrightarrow>
       cfg = entryReconcilerConfig E c td client \<and> gc = cn_GCInterval (mc_ctrlConfig c)"
    "\<And>cfg. Add (FederationLoop cfg) \<in> set (map fst tr) \<Longrightarrow> cfg = federationReconcilerConfig E c client"
    "me_Getenv E ''ENABLE_WEBHOOKS'' \<noteq> ''false'' \<Longrightarrow>
       \<exists>pre post dir file i name. map fst tr = pre @ NewManager (mc_options c) (Some (dir, file, file)) # post \<and>
          WebhookInit i (me_Join E dir file) name \<in> set pre \<and> Add (WebhookLoop i (me_Join E dir file) name) \<in> set post"
proof (rule run_start [OF assms])
  fix td client pre server webhook post
  let ?m = "managerCalls E c td client server webhook"
  assume tr: "map fst tr = pre @ ?m @ post"
    and pre: "set pre \<subseteq> {SetupSignalHandler, MkdirTemp, InClusterConfig, NewForConfig, GetConfig} \<union> range (\<lambda>(o1, c1, cl). Dial o1 c1 cl) \<union>
       range (\<lambda>(i, p, n). WebhookInit i p n)"
    and post: "set post \<subseteq> {RemoveAll (me_certDir E), CloseClient client}"
    and off: "me_Getenv E ''ENABLE_WEBHOOKS'' = ''false'' \<Longrightarrow> server = None \<and> webhook = None"
    and on: "me_Getenv E ''ENABLE_WEBHOOKS'' \<noteq> ''false'' \<Longrightarrow> \<exists>i. server = Some (me_certDir E, keyPairName, keyPairName) \<and>
       webhook = Some (WebhookLoop i (me_Join E (me_certDir E) keyPairName) (cn_ValidatingWebhookConfigurationName (mc_ctrlConfig c))) \<and>
       WebhookInit i (me_Join E (me_certDir E) keyPairName) (cn_ValidatingWebhookConfigurationName (mc_ctrlConfig c)) \<in> set pre"
  have runnables: "Add r \<in> set (map fst tr) \<longleftrightarrow> Add r \<in> set ?m" for r using pre post unfolding tr by auto
  obtain rest where m: "?m = NewManager (mc_options c) server # rest" by (simp add: managerCalls_def Let_def)
  show ?thesis
  proof (rule that [of td client server webhook])
    show "SetupController k t ig \<in> set (map fst tr) \<longleftrightarrow> SetupController k t ig \<in> set ?m" for k t ig
      using pre post unfolding tr by auto
    show "cfg = entryReconcilerConfig E c td client \<and> gc = cn_GCInterval (mc_ctrlConfig c)"
      if "Add (EntryLoop cfg gc) \<in> set (map fst tr)" for cfg gc
      using that off on unfolding runnables managerCalls_runnables by (auto simp: federationLoop_def entryLoop_def split: if_splits)
    show "cfg = federationReconcilerConfig E c client" if "Add (FederationLoop cfg) \<in> set (map fst tr)" for cfg
      using that off on unfolding runnables managerCalls_runnables by (auto simp: federationLoop_def entryLoop_def split: if_splits)
    let ?path = "me_Join E (me_certDir E) keyPairName" and ?name = "cn_ValidatingWebhookConfigurationName (mc_ctrlConfig c)"
    assume "me_Getenv E ''ENABLE_WEBHOOKS'' \<noteq> ''false''"
    from on [OF this] obtain i where i: "server = Some (me_certDir E, keyPairName, keyPairName)"
      "webhook = Some (WebhookLoop i ?path ?name)" "WebhookInit i ?path ?name \<in> set pre" by blast
    from i(2) have "Add (WebhookLoop i ?path ?name) \<in> set ?m" unfolding managerCalls_runnables by simp
    then have "Add (WebhookLoop i ?path ?name) \<in> set (rest @ post)" unfolding m by simp
    moreover have "map fst tr = pre @ NewManager (mc_options c) (Some (me_certDir E, keyPairName, keyPairName)) # rest @ post"
      using tr i(1) unfolding m by simp
    ultimately show "\<exists>pre post dir file i name. map fst tr = pre @ NewManager (mc_options c) (Some (dir, file, file)) # post \<and>
        WebhookInit i (me_Join E dir file) name \<in> set pre \<and> Add (WebhookLoop i (me_Join E dir file) name) \<in> set post"
      using i(3) by blast
  qed (rule runnables)
qed

text \<open>The configuration of an added entry loop fits the reconciler.\<close>

lemma entryReconcilerConfig_fits:
  assumes "parseConfig B fl = Inr c"
  shows "0 < cn_GCInterval (mc_ctrlConfig c)" "sources_present (entryReconcilerConfig E c td client)"
    "rc_EnableEntryListCache (entryReconcilerConfig E c td client) \<Longrightarrow> rc_EntryIDPrefix (entryReconcilerConfig E c td client) \<noteq> ''''"
  using parseConfig_gc [OF assms] parseConfig_required(4) [OF assms]
  by (auto simp: entryReconcilerConfig_def sources_present_def Let_def)

section \<open>Properties\<close>

text \<open>C38: \<open>run\<close> releases what it acquires. Unless the process is ended by \<open>os.Exit\<close>, whatever calls fail: the client of
  the server is closed once and last, every source of the Workload API that was opened is closed, with the
  client or when dialing fails, and the temporary directory of the key pair is removed.\<close>

theorem run_releases:
  assumes "run E c [] = (tr, out)" "out \<noteq> Exited"
  shows "((MkdirTemp, None) \<in> set tr \<longrightarrow> (RemoveAll (me_certDir E), None) \<in> set tr) \<and>
    (\<forall>opened closed. Dial opened closed None \<in> set (map fst tr) \<longrightarrow> closed = opened) \<and>
    (\<forall>opened closed client. Dial opened closed (Some client) \<in> set (map fst tr) \<longrightarrow>
       opened = closed @ snd (Close client) \<and> (\<exists>pre. map fst tr = pre @ [CloseClient client] \<and> (\<forall>cl. CloseClient cl \<notin> set pre)))"
  using assms(1)
proof (cases rule: run_done)
  case before
  then show ?thesis by simp
next
  case (undialed e opened closed)
  then show ?thesis using dial_sources(1) by simp
next
  case (served td opened closed client ext post)
  then have no: "Dial o1 c1 cl \<notin> set (map fst ext)" "CloseClient cl1 \<notin> set (map fst ext)" for o1 c1 cl cl1 by fastforce+
  have post: "map fst post = [CloseClient client]" using served(7) assms(2) by simp
  then have acts: "map fst tr = (SetupSignalHandler # Dial opened closed (Some client) # map fst ext) @ [CloseClient client]"
    using served(3) by simp
  have removed: "(RemoveAll (me_certDir E), None) \<in> set tr" if m: "(MkdirTemp, None) \<in> set tr"
  proof -
    from post have "(MkdirTemp, None) \<notin> set post" by (cases post) auto
    with m served(3,6) assms(2) show ?thesis by auto
  qed
  show ?thesis
  proof (intro conjI allI impI)
    fix o1 c1 cl assume "Dial o1 c1 (Some cl) \<in> set (map fst tr)"
    then have eq: "o1 = opened" "c1 = closed" "cl = client" using no(1) unfolding acts by auto
    from dial_sources(2) [OF served(2)] show "o1 = c1 @ snd (Close cl)" by (simp add: eq)
    show "\<exists>pre. map fst tr = pre @ [CloseClient cl] \<and> (\<forall>cl. CloseClient cl \<notin> set pre)"
      unfolding acts eq using no(2) by (intro exI [of _ "SetupSignalHandler # Dial opened closed (Some client) # map fst ext"]) simp
  next
    fix o1 c1 assume "Dial o1 c1 None \<in> set (map fst tr)"
    then show "c1 = o1" using no(1) unfolding acts by auto
  qed (rule removed)
qed

text \<open>C37: a started manager is wired as configured. There is a controller exactly for every kind of resource that is
  to be reconciled, pods and endpoints with ClusterSPIFFEIDs; every controller triggers a loop that exists, is
  the one for its kind, and has been added to the manager. The loops have a positive GC interval and the clients
  they need, and the entry list cache only with an ID prefix. With webhooks enabled the webhook manager has been
  initialized, before the manager was created, for the key pair file that the webhook server reads.\<close>

theorem run_wiring:
  assumes "parseConfig B fl = Inr c" "run E c [] = (tr, out)" "StartManager \<in> set (map fst tr)"
  shows "(\<forall>k. (\<exists>t ig. SetupController k t ig \<in> set (map fst tr)) \<longleftrightarrow> configured (mc_reconcile c) k) \<and>
    (\<forall>k t ig. SetupController k t ig \<in> set (map fst tr) \<longrightarrow> (\<exists>r. t = Some r \<and> Add r \<in> set (map fst tr) \<and> triggers k r)) \<and>
    (\<forall>cfg gc. Add (EntryLoop cfg gc) \<in> set (map fst tr) \<longrightarrow>
       0 < gc \<and> sources_present cfg \<and> (rc_EnableEntryListCache cfg \<longrightarrow> rc_EntryIDPrefix cfg \<noteq> '''')) \<and>
    (\<forall>cfg. Add (FederationLoop cfg) \<in> set (map fst tr) \<longrightarrow> 0 < fc_GCInterval cfg \<and> fc_K8sClient cfg \<noteq> None) \<and>
    (me_Getenv E ''ENABLE_WEBHOOKS'' \<noteq> ''false'' \<longrightarrow>
       (\<exists>pre post dir file i name. map fst tr = pre @ NewManager (mc_options c) (Some (dir, file, file)) # post \<and>
          WebhookInit i (me_Join E dir file) name \<in> set pre \<and> Add (WebhookLoop i (me_Join E dir file) name) \<in> set post))"
proof (rule run_started [OF assms(2,3)])
  fix td client server webhook
  let ?m = "managerCalls E c td client server webhook"
  assume controllers: "\<And>k t ig. SetupController k t ig \<in> set (map fst tr) \<longleftrightarrow> SetupController k t ig \<in> set ?m"
    and runnables: "\<And>r. Add r \<in> set (map fst tr) \<longleftrightarrow> Add r \<in> set ?m"
    and entry: "\<And>cfg gc. Add (EntryLoop cfg gc) \<in> set (map fst tr) \<Longrightarrow>
       cfg = entryReconcilerConfig E c td client \<and> gc = cn_GCInterval (mc_ctrlConfig c)"
    and federation: "\<And>cfg. Add (FederationLoop cfg) \<in> set (map fst tr) \<Longrightarrow> cfg = federationReconcilerConfig E c client"
    and webhooks: "me_Getenv E ''ENABLE_WEBHOOKS'' \<noteq> ''false'' \<Longrightarrow>
       \<exists>pre post dir file i name. map fst tr = pre @ NewManager (mc_options c) (Some (dir, file, file)) # post \<and>
          WebhookInit i (me_Join E dir file) name \<in> set pre \<and> Add (WebhookLoop i (me_Join E dir file) name) \<in> set post"
  have "\<forall>k. (\<exists>t ig. SetupController k t ig \<in> set (map fst tr)) \<longleftrightarrow> configured (mc_reconcile c) k"
    unfolding controllers managerCalls_controllers by simp
  moreover have "\<forall>k t ig. SetupController k t ig \<in> set (map fst tr) \<longrightarrow> (\<exists>r. t = Some r \<and> Add r \<in> set (map fst tr) \<and> triggers k r)"
    unfolding controllers runnables using managerCalls_target by blast
  moreover have "0 < gc \<and> sources_present cfg \<and> (rc_EnableEntryListCache cfg \<longrightarrow> rc_EntryIDPrefix cfg \<noteq> '''')"
    if "Add (EntryLoop cfg gc) \<in> set (map fst tr)" for cfg gc
    using entry [OF that] entryReconcilerConfig_fits [OF assms(1)] by blast
  moreover have "0 < fc_GCInterval cfg \<and> fc_K8sClient cfg \<noteq> None" if "Add (FederationLoop cfg) \<in> set (map fst tr)" for cfg
    using federation [OF that] parseConfig_gc [OF assms(1)] by (simp add: federationReconcilerConfig_def Let_def)
  ultimately show ?thesis using webhooks by blast
qed

text \<open>What the controller runtime documents of \<open>SetupSignalHandler\<close>: it panics when it is called twice.\<close>

definition signal_handler_once :: "'w main_env \<Rightarrow> bool" where
  "signal_handler_once E \<longleftrightarrow> (\<forall>tr. me_signal_panics E tr \<longleftrightarrow> SetupSignalHandler \<in> set (map fst tr))"

lemma static_ok:
  assumes "staticRun E c [] = (tr, Ok u)"
  shows "\<exists>td. TrustDomainFromString (me_spiffeid E) (cn_TrustDomain (mc_ctrlConfig c)) = Inr td \<and> SetupSignalHandler \<in> set (map fst tr)"
proof (cases "TrustDomainFromString (me_spiffeid E) (cn_TrustDomain (mc_ctrlConfig c))")
  case (Inl e)
  with assms show ?thesis by (simp add: staticRun_def returning_def)
next
  case (Inr td)
  from assms [unfolded staticRun_def Inr sum.case] show ?thesis
  proof (cases rule: andThen_cases)
    case (ok tr1 x)
    then have "tr1 = [(SetupSignalHandler, None)]" by (auto simp: setupSignalHandler_def split: if_splits)
    moreover have "\<exists>ext. tr = tr1 @ ext \<and> list_all (\<lambda>_. True) (map fst ext)"
      by (rule only_ext [of _ "staticServe E c td" tr1, OF _ ok(2)]) (auto simp: staticServe_def intro!: only_intros)
    ultimately show ?thesis using Inr by auto
  qed simp_all
qed

text \<open>C39: with static manifests the program does not end normally. \<open>main\<close> calls \<open>run\<close> after \<open>staticRun\<close>, so that when
  the static run ends without an error the signal handler is set up a second time; given that this panics, as
  the controller runtime documents, the outcome is a panic, and otherwise the exit of a failure. No manager is
  started in the cluster, and the loops that ran had the manifests they read and no ClusterSPIFFEIDs.\<close>

theorem main_static:
  assumes "parseConfig B fl = Inr c" "sp_StaticManifestPath (cn_Spec (mc_ctrlConfig c)) \<noteq> None" "signal_handler_once E"
    and "staticRun E c [] = (tr, out)"
  shows "main B fl E = (tr, case out of Ok _ \<Rightarrow> Panicked | Panicked \<Rightarrow> Panicked | _ \<Rightarrow> Exited) \<and>
    (\<forall>cfg gc. Go (EntryLoop cfg gc) \<in> set (map fst tr) \<longrightarrow> 0 < gc \<and> sources_present cfg \<and> rc_K8sClient cfg = None)"
proof -
  let ?P = "\<lambda>a. \<forall>cfg gc. a = Go (EntryLoop cfg gc) \<longrightarrow> 0 < gc \<and> sources_present cfg \<and> rc_K8sClient cfg = None"
  have cfg: "sources_present (static_entryConfig E c td client)" "rc_K8sClient (static_entryConfig E c td client) = None" for td client
    using parseConfig_static(2) [OF assms(1,2)] assms(2)
    by (simp_all add: static_entryConfig_def entryReconcilerConfig_def sources_present_def Let_def)
  have "only ?P (staticRun E c)"
    unfolding staticRun_def staticServe_def using cfg parseConfig_gc [OF assms(1)]
    by (auto split: sum.split if_split intro!: only_intros)
  from only_ext [OF this assms(4)] have loops: "list_all ?P (map fst tr)" by simp
  have "main B fl E = (tr, case out of Ok _ \<Rightarrow> Panicked | Panicked \<Rightarrow> Panicked | _ \<Rightarrow> Exited)"
  proof (cases out)
    case (Ok u)
    from static_ok [OF assms(4) [unfolded Ok]] obtain td where td: "TrustDomainFromString (me_spiffeid E) (cn_TrustDomain (mc_ctrlConfig c)) = Inr td"
      and "SetupSignalHandler \<in> set (map fst tr)" by blast
    then have "me_signal_panics E tr" using assms(3) unfolding signal_handler_once_def by blast
    with td have "run E c tr = (tr, Panicked)" by (simp add: run_def andThen_def setupSignalHandler_def)
    with assms Ok show ?thesis by (simp add: main_def andThen_def exit_on_error_def)
  qed (use assms in \<open>simp_all add: main_def andThen_def exit_on_error_def\<close>)
  with loops show ?thesis unfolding list_all_iff by blast
qed

lemma dotted_unique:
  assumes "HasSuffix p ''.''" "HasSuffix q ''.''" "CHR ''.'' \<notin> set (butlast p)" "CHR ''.'' \<notin> set (butlast q)" "HasPrefix s p" "HasPrefix s q"
  shows "p = q"
proof -
  from assms obtain p' q' where p: "p = p' @ ''.''" and q: "q = q' @ ''.''" by (auto simp: HasSuffix_iff)
  from assms(5) obtain t where "s = p' @ CHR ''.'' # t" by (auto simp: HasPrefix_iff p)
  moreover from assms(6) obtain u where "s = q' @ CHR ''.'' # u" by (auto simp: HasPrefix_iff q)
  moreover have "takeWhile (\<lambda>x. x \<noteq> CHR ''.'') (r @ CHR ''.'' # v) = r" if "CHR ''.'' \<notin> set r" for r v
    using that by (induction r) auto
  ultimately have "p' = q'" using assms(3,4) unfolding p q by (metis butlast_snoc)
  then show ?thesis by (simp add: p q)
qed

text \<open>C36: controller managers that share a server stay out of each other's way. When two accepted configurations have
  different prefixes, without dots before the one at the end, no entry is processed by both; and one deletes
  entries that the other processes only when it is configured to clean up the other's very prefix. Without the
  dot that is appended to them, prefixes like \<open>a\<close> and \<open>ab\<close> would overlap.\<close>

theorem managers_isolated:
  assumes "parseConfig B1 fl1 = Inr c1" "parseConfig B2 fl2 = Inr c2"
    and r1: "r1 = entryReconcilerConfig E1 c1 td1 client1" and r2: "r2 = entryReconcilerConfig E2 c2 td2 client2"
    and "rc_EntryIDPrefix r1 \<noteq> ''''" "rc_EntryIDPrefix r2 \<noteq> ''''" "rc_EntryIDPrefix r1 \<noteq> rc_EntryIDPrefix r2"
    and "CHR ''.'' \<notin> set (butlast (rc_EntryIDPrefix r1))" "CHR ''.'' \<notin> set (butlast (rc_EntryIDPrefix r2))"
    and "case rc_EntryIDPrefixCleanup r1 of Some p \<Rightarrow> CHR ''.'' \<notin> set (butlast p) | None \<Rightarrow> True"
  shows "\<not> (fst (shouldProcessOrDeleteEntryID r1 e) \<and> fst (shouldProcessOrDeleteEntryID r2 e)) \<and>
    (snd (shouldProcessOrDeleteEntryID r1 e) \<and> fst (shouldProcessOrDeleteEntryID r2 e) \<longrightarrow>
       rc_EntryIDPrefixCleanup r1 = Some (rc_EntryIDPrefix r2))"
proof -
  have dots: "HasSuffix (rc_EntryIDPrefix r1) ''.''" "HasSuffix (rc_EntryIDPrefix r2) ''.''"
    using assms(5,6) parseConfig_prefixes(1) [OF assms(1)] parseConfig_prefixes(1) [OF assms(2)]
    by (auto simp: r1 r2 entryReconcilerConfig_def Let_def)
  have cleanup: "p = '''' \<or> HasSuffix p ''.''" if "rc_EntryIDPrefixCleanup r1 = Some p" for p
    using that parseConfig_prefixes(2) [OF assms(1)] by (auto simp: r1 entryReconcilerConfig_def Let_def)
  have processed: "fst (shouldProcessOrDeleteEntryID r2 e) \<longleftrightarrow> HasPrefix (e_ID e) (rc_EntryIDPrefix r2)"
    "fst (shouldProcessOrDeleteEntryID r1 e) \<longleftrightarrow> HasPrefix (e_ID e) (rc_EntryIDPrefix r1)"
    using assms(5,6) by (auto simp: shouldProcessOrDeleteEntryID_def split: option.splits)
  have "rc_EntryIDPrefixCleanup r1 = Some (rc_EntryIDPrefix r2)"
    if del: "snd (shouldProcessOrDeleteEntryID r1 e)" and own: "HasPrefix (e_ID e) (rc_EntryIDPrefix r2)"
  proof -
    from del obtain p where p: "rc_EntryIDPrefixCleanup r1 = Some p"
      "if p = '''' then CHR ''.'' \<notin> set (e_ID e) else HasPrefix (e_ID e) p"
      by (auto simp: shouldProcessOrDeleteEntryID_def ContainsChar_def split: option.splits if_splits)
    have "CHR ''.'' \<in> set (e_ID e)" using own dots(2) by (auto simp: HasPrefix_iff HasSuffix_iff)
    with p have np: "p \<noteq> ''''" "HasPrefix (e_ID e) p" by (auto split: if_splits)
    with cleanup [OF p(1)] dots(2) assms(9,10) own have "p = rc_EntryIDPrefix r2" by (intro dotted_unique) (auto simp: p(1))
    with p(1) show ?thesis by simp
  qed
  with dotted_unique [OF dots assms(8,9)] assms(7) show ?thesis unfolding processed by blast
qed

section \<open>Witnesses\<close>

text \<open>Every call succeeds; a second signal handler panics.\<close>

fun is_signal :: "'w action \<Rightarrow> bool" where
  "is_signal SetupSignalHandler = True"
| "is_signal _ = False"

fun is_start :: "'w action \<Rightarrow> bool" where
  "is_start StartManager = True"
| "is_start _ = False"

definition ref_main :: "mem_world main_env" where
  "ref_main =
     \<lparr>me_spiffeid = ref_spiffeid, me_dial = ref_dial, me_Getenv = (\<lambda>_. ''''), me_certDir = ''/tmp/certs'',
      me_Join = (\<lambda>a b. a @ ''/'' @ b), me_K8sClient = mem_k8s, me_EntryClient = (\<lambda>_. NewEntryClient ref_spiffeid echo_api),
      me_TrustDomainClient = (\<lambda>_. \<lparr>tc_ListFR = (\<lambda>w. Some (w, Inr [])), tc_CreateFR = (\<lambda>w frs. (w, [], None)),
        tc_UpdateFR = (\<lambda>w frs. (w, [], None)), tc_DeleteFR = (\<lambda>w tds. (w, [], None))\<rparr>),
      me_result = (\<lambda>tr a. None), me_signal_panics = (\<lambda>tr. list_ex is_signal (map fst tr))\<rparr>"

lemma ref_run:
  obtains c where "parseConfig ref_config_lib (ref_flags ''scm'') = Inr c"
    "\<exists>tr. run ref_main c [] = (tr, Ok ()) \<and> StartManager \<in> set (map fst tr) \<and> rk_ClusterSPIFFEIDs (mc_reconcile c)"
proof -
  have "case parseConfig ref_config_lib (ref_flags ''scm'') of
      Inl _ \<Rightarrow> False
    | Inr c \<Rightarrow> list_ex is_start (map fst (fst (run ref_main c []))) \<and> rk_ClusterSPIFFEIDs (mc_reconcile c) \<and>
        (case snd (run ref_main c []) of Ok () \<Rightarrow> True | _ \<Rightarrow> False)"
    by code_simp
  then obtain c where c: "parseConfig ref_config_lib (ref_flags ''scm'') = Inr c" "list_ex is_start (map fst (fst (run ref_main c [])))"
    "rk_ClusterSPIFFEIDs (mc_reconcile c)" "snd (run ref_main c []) = Ok ()" by (auto split: sum.splits outcome.splits)
  have "is_start a \<longleftrightarrow> a = StartManager" for a :: "mem_world action" by (cases a) auto
  with c(2) have "StartManager \<in> set (map fst (fst (run ref_main c [])))" by (auto simp: list_ex_iff)
  with that c show ?thesis by (metis prod.collapse)
qed

theorem run_releases_witness:
  "\<exists>c tr. parseConfig ref_config_lib (ref_flags ''scm'') = Inr c \<and> run ref_main c [] = (tr, Ok ()) \<and>
     ((MkdirTemp, None) \<in> set tr \<longrightarrow> (RemoveAll ''/tmp/certs'', None) \<in> set tr)"
proof (rule ref_run)
  fix c assume c: "parseConfig ref_config_lib (ref_flags ''scm'') = Inr c"
    and "\<exists>tr. run ref_main c [] = (tr, Ok ()) \<and> StartManager \<in> set (map fst tr) \<and> rk_ClusterSPIFFEIDs (mc_reconcile c)"
  then obtain tr where r: "run ref_main c [] = (tr, Ok ())" by blast
  from run_releases [OF r] c r show ?thesis by (auto simp: ref_main_def)
qed

theorem run_wiring_witness:
  "\<exists>c tr t ig. parseConfig ref_config_lib (ref_flags ''scm'') = Inr c \<and> run ref_main c [] = (tr, Ok ()) \<and>
     SetupController KPod t ig \<in> set (map fst tr)"
proof (rule ref_run)
  fix c assume c: "parseConfig ref_config_lib (ref_flags ''scm'') = Inr c"
    and "\<exists>tr. run ref_main c [] = (tr, Ok ()) \<and> StartManager \<in> set (map fst tr) \<and> rk_ClusterSPIFFEIDs (mc_reconcile c)"
  then obtain tr where r: "run ref_main c [] = (tr, Ok ())" "StartManager \<in> set (map fst tr)" "rk_ClusterSPIFFEIDs (mc_reconcile c)" by blast
  have "configured (mc_reconcile c) KPod" by (simp add: r(3))
  with run_wiring [OF c r(1,2)] c r(1) show ?thesis by blast
qed

definition ref_static_lib :: config_lib where
  "ref_static_lib = ref_config_lib\<lparr>lb_DecodeInto := (\<lambda>s c. Inr (c\<lparr>cn_TrustDomain := ''td'', cn_ClusterName := ''c'',
     cn_Spec := (cn_Spec c)\<lparr>sp_StaticManifestPath := Some s\<rparr>\<rparr>))\<rparr>"

theorem main_static_witness: "snd (main ref_static_lib (ref_flags ''/manifests'') ref_main) = Panicked"
proof -
  have "case parseConfig ref_static_lib (ref_flags ''/manifests'') of
      Inl _ \<Rightarrow> False
    | Inr c \<Rightarrow> sp_StaticManifestPath (cn_Spec (mc_ctrlConfig c)) \<noteq> None \<and> (case snd (staticRun ref_main c []) of Ok () \<Rightarrow> True | _ \<Rightarrow> False)"
    by code_simp
  then obtain c where c: "parseConfig ref_static_lib (ref_flags ''/manifests'') = Inr c"
    "sp_StaticManifestPath (cn_Spec (mc_ctrlConfig c)) \<noteq> None" "snd (staticRun ref_main c []) = Ok ()"
    by (auto split: sum.splits outcome.splits)
  have "is_signal a \<longleftrightarrow> a = SetupSignalHandler" for a :: "mem_world action" by (cases a) auto
  then have once: "signal_handler_once ref_main" by (auto simp: signal_handler_once_def ref_main_def list_ex_iff)
  obtain tr where r: "staticRun ref_main c [] = (tr, Ok ())" using c(3) by (metis prod.collapse)
  from main_static [OF c(1,2) once r] show ?thesis by simp
qed

theorem managers_isolated_witness:
  "\<exists>c1 c2. parseConfig ref_config_lib (ref_flags ''a'') = Inr c1 \<and> parseConfig ref_config_lib (ref_flags ''ab'') = Inr c2 \<and>
     \<not> (fst (shouldProcessOrDeleteEntryID (entryReconcilerConfig ref_main c1 (TrustDomain ''td'') \<lparr>cl_conn = 1, cl_closer = None\<rparr>)
           (sample_entry\<lparr>e_ID := ''ab.1''\<rparr>)) \<and>
        fst (shouldProcessOrDeleteEntryID (entryReconcilerConfig ref_main c2 (TrustDomain ''td'') \<lparr>cl_conn = 1, cl_closer = None\<rparr>)
           (sample_entry\<lparr>e_ID := ''ab.1''\<rparr>)))"
proof -
  have p: "case parseConfig ref_config_lib (ref_flags s) of Inl _ \<Rightarrow> False
      | Inr c \<Rightarrow> sp_EntryIDPrefix (cn_Spec (mc_ctrlConfig c)) = s @ ''.'' \<and> sp_EntryIDPrefixCleanup (cn_Spec (mc_ctrlConfig c)) = Some ''''"
    if "s = ''a'' \<or> s = ''ab''" for s
    using that by (elim disjE) (simp only:, code_simp)+
  from p [of "''a''"] p [of "''ab''"] obtain c1 c2 where c: "parseConfig ref_config_lib (ref_flags ''a'') = Inr c1"
    "parseConfig ref_config_lib (ref_flags ''ab'') = Inr c2"
    "sp_EntryIDPrefix (cn_Spec (mc_ctrlConfig c1)) = ''a.''" "sp_EntryIDPrefixCleanup (cn_Spec (mc_ctrlConfig c1)) = Some ''''"
    "sp_EntryIDPrefix (cn_Spec (mc_ctrlConfig c2)) = ''ab.''" by (auto split: sum.splits)
  from managers_isolated [OF c(1,2) refl refl, of ref_main "TrustDomain ''td''" "\<lparr>cl_conn = 1, cl_closer = None\<rparr>" ref_main
      "TrustDomain ''td''" "\<lparr>cl_conn = 1, cl_closer = None\<rparr>" "sample_entry\<lparr>e_ID := ''ab.1''\<rparr>"] c
  show ?thesis by (simp add: entryReconcilerConfig_def Let_def)
qed

end
