(* ===== verification/Spec2Isabelle.thy ===== *)
theory Spec2Isabelle
  imports Entry_Converge Federation_Loop Controller_Manager
begin

text \<open>
  Verification of the SPIRE controller manager (spire-controller-manager, Go).

  \<^bold>\<open>The program.\<close> The manager keeps the registration entries and federation relationships of a SPIRE server in agreement
  with resources of Kubernetes. \<open>main\<close> (cmd/main.go) parses the configuration and starts one reconcile loop
  (pkg/reconciler) for entries (pkg/spireentry) and one for federation relationships
  (pkg/spirefederationrelationship). Controllers (internal/controller) trigger the loops when resources, pods or
  endpoints change; a timer does so at the latest after the GC interval. A reconcile lists the custom resources
  (api/v1alpha1, pkg/k8sapi), renders the entries they declare for the pods they select, lists what the server
  has (pkg/spireapi), and deletes, creates and updates until both agree. Two caches save work: one of rendered
  entries, one of the listed entries. A webhook manager (pkg/webhookmanager) mints the serving certificate of the
  admission webhooks and keeps its CA bundle in the webhook configuration.

  \<^bold>\<open>How it is modelled.\<close> Structs are records, with a prefix for the field names of each, interfaces are records of
  functions, errors are values of \<open>err + 'a\<close>. Calls that change the outside (the SPIRE server, Kubernetes, the
  file system, the clock) thread a world \<open>'w\<close>, whose type is a parameter; reads are functions of it. A nil
  dereference, an index out of range or a loop that does not end gives the value \<open>None\<close>. Go maps are association
  lists; where the code ranges over a map, the order is a parameter. Integers are unbounded where the code cannot
  overflow and wrapped with \<open>wrap32\<close> and \<open>wrap64\<close> where it converts or subtracts times. Concurrency is in the step
  relations of the two loops: the steps of other goroutines come in between at any time.

  Code outside the repository is a parameter of the definitions, with what is relied on as named hypotheses:
  go-spiffe (\<open>spiffeid_lib\<close>), x509 and url parsing, the gRPC stubs (\<open>EntryAPI\<close>, \<open>TrustDomainAPI\<close>, \<open>SVIDAPI\<close>,
  \<open>BundleAPI\<close>), the Kubernetes client (\<open>K8sClient\<close>), the LRU cache, SHA-256, JSON encoding, UUIDs, text templates, label selectors,
  regular expressions, YAML decoding, backoff durations and the controller runtime.

  \<^bold>\<open>The theories\<close>, each with the code it models:
  \<^item> \<open>Go_Prelude\<close>: errors, strings, sorting, maps, times and integers of Go, with the lemmas all theories share.
  \<^item> \<open>Spire_Types\<close> (pkg/spireapi/types.go): entries, selectors, federation relationships, bundles, statuses and their
    conversion to and from API messages. Round trips, with what TTLs lose.
  \<^item> \<open>Batch\<close>, \<open>Paging\<close>, \<open>Entry_Api\<close>, \<open>Trust_Domain_Api\<close>, \<open>Spire_Client\<close> (batch.go, entryapi.go, trustdomainapi.go,
    svidapi.go, bundleapi.go, client.go): batched calls, listing by pages, the clients, dialing with mTLS.
    \<open>page_loop\<close> is a partial function; it returns when the page tokens make progress.
  \<^item> \<open>Entry_List_Cache\<close> (entry_list_cache.go), \<open>Crd_Api\<close> (api/v1alpha1 types, webhooks and loaders, pkg/k8sapi),
    \<open>Entries\<close> (entries.go): the cache, the resources with parsing and validation, rendering.
  \<^item> \<open>Entry_State\<close>, \<open>Entry_Plan\<close>, \<open>Entry_Reconciler\<close> (by.go, reconciler.go of pkg/spireentry): keys, preference,
    outdated fields, the plan, and the whole reconcile. \<open>Reconciler_Plan\<close>, \<open>Reconciler_Cache\<close>, \<open>Reconciler_Collect\<close>
    and \<open>Reconciler_Run\<close> hold its properties: a plan brings the server in sync and touches only what the prefixes
    own; the caches agree with what they cache or are reloaded; fallbacks give way; a reconcile returns, and when
    a listing fails it ends after the probe without using a function that writes. \<open>Collect_Spec\<close> specifies, without
    states and caches, which entries the resources declare, and shows that collecting them declares exactly those.
    \<open>Reference_World\<close> is an in-memory server and cluster for witnesses.
  \<^item> \<open>Entry_Server\<close>, \<open>Entry_Calls\<close>, \<open>Entry_Declared\<close>, \<open>Entry_Converge\<close>: convergence of the entries. The locale \<open>entry_api\<close>
    states what the stubs promise of single items, \<open>entry_server\<close> what the client of pkg/spireapi then promises of whole
    calls (a sublocale), \<open>entry_declares\<close> what the reconciler relies on of Kubernetes, the clock and UUIDs. Convergence
    is shown under conditions that matter, each named where it is used: the hint filter is off (\<open>entry_convergence\<close>), the
    resources can be listed and what they declare is valid with TTLs of whole seconds (\<open>entry_declares\<close>), and no entry of
    others claims a declared key, the probe entry or an ID that will be drawn (\<open>unclaimed\<close>). Then every call of a
    plan succeeds, the entry list cache follows, what is declared does not depend on the order or the versions of the
    resources, and a whole reconcile, from the probe to the statuses, brings the server in sync and leaves a
    state from which the next one changes nothing; so the loop waits only when the server is in sync.
  \<^item> \<open>Federation_Reconciler\<close>, \<open>Federation_Converge\<close>, \<open>Federation_Loop\<close> (pkg/spirefederationrelationship): conflicts,
    plan and execution, convergence of a reconcile and of the loop. The locales \<open>trust_domain_server\<close> and
    \<open>trust_domain_api\<close> state what the client promises, and what the stubs must promise for it.
  \<^item> \<open>Reconcile_Loop\<close> (pkg/reconciler), \<open>Controllers\<close> (internal/controller): the loop as a step relation with its
    timer and unbuffered trigger channel; the locale \<open>reconcile_action\<close> carries invariants of a reconcile to all
    executions. The handlers and the index of endpoints by pod.
  \<^item> \<open>Webhook_Manager\<close> (pkg/webhookmanager): minting, renewal thresholds, the patch of the CA bundle, PEM encoding, and
    the loop with its back-off timers, which fire once and must be armed again, as a step relation.
  \<^item> \<open>Manager_Config\<close> (controllermanagerconfig_types.go and _loader.go, \<open>parseConfig\<close>), \<open>Controller_Manager\<close> (the rest of
    cmd/main.go): what an accepted configuration guarantees; start-up as a trace of calls, any of which may fail.

  The properties below span them: configuration, start-up, client, reconciler and loop.

  \<^bold>\<open>Not modelled\<close>: logging (the logging.go files and all log calls), the Prometheus counters (pkg/metrics), generated
  code (zz_generated.deepcopy.go; \<open>DeepCopy\<close> is the identity on values) and the registration of types
  (groupversion_info.go, \<open>init\<close> of main), which have no logic of their own; the demo programs and test helpers.
  The controller runtime, client-go's informer and the LRU cache are libraries.
\<close>

section \<open>The whole manager\<close>

text \<open>The loop that a started manager runs for the entries, and the state it starts from.\<close>

lemma started_entry_loop:
  assumes "parseConfig B fl = Inr c" "run M c [] = (tr, out)" "StartManager \<in> set (map fst tr)" "Add (EntryLoop cfg gc) \<in> set (map fst tr)"
    and "\<And>client. me_EntryClient M client = NewEntryClient L A"
  shows "rc_EntryClient cfg = NewEntryClient L A" "gc = cn_GCInterval (mc_ctrlConfig c)" "0 < gc" "sources_present cfg"
    and "rc_EnableEntryListCache cfg \<Longrightarrow> rc_EntryIDPrefix cfg \<noteq> ''''" "rc_K8sClient cfg = Some (me_K8sClient M)"
    and "rc_EnableEntryListHintFilter cfg = sp_EnableEntryListHintFilter (cn_Spec (mc_ctrlConfig c))"
proof -
  obtain td client where "cfg = entryReconcilerConfig M c td client \<and> gc = cn_GCInterval (mc_ctrlConfig c)"
    by (rule run_started [OF assms(2,3)]) (use assms(4) in blast)
  then show "rc_EntryClient cfg = NewEntryClient L A" "gc = cn_GCInterval (mc_ctrlConfig c)" "0 < gc" "sources_present cfg"
    "rc_EnableEntryListCache cfg \<Longrightarrow> rc_EntryIDPrefix cfg \<noteq> ''''" "rc_K8sClient cfg = Some (me_K8sClient M)"
    "rc_EnableEntryListHintFilter cfg = sp_EnableEntryListHintFilter (cn_Spec (mc_ctrlConfig c))"
    using entryReconcilerConfig_fits(1) [OF assms(1)] entryReconcilerConfig_fits(2,3) [OF assms(1), of M td client] assms(5) by (simp_all add: entryReconcilerConfig_def Let_def)
qed

text \<open>C2: from the configuration to the entries. When a manager that is started with an accepted configuration that leaves
  enableEntryListHintFilter off runs an entry loop, over the client of pkg/spireapi and an API that keeps the
  contract of the SPIRE API, then over every execution of the loop, with triggers, timers and changes of the rest of
  the world in any order, while the declarations stay the same and nobody else changes the entries: the loop waits only when
  the server is in sync, the processed entries being those declared and nothing being left to clean up; and unless
  its context is cancelled it can always get there within the GC interval of the configuration. (With the hint filter,
  which the configuration may turn on, stale entries are never deleted. The conditions on the environment are those
  of a single reconcile: the resources can be listed, what they declare is valid and has TTLs of whole seconds, and at
  the start join token entries and entries of others have keys that nothing declares and nobody uses the probe entry
  or an ID that will be drawn.)\<close>

theorem started_manager_converges:
  assumes "parseConfig B fl = Inr c" "run M c [] = (tr, out)" "StartManager \<in> set (map fst tr)" "Add (EntryLoop cfg gc) \<in> set (map fst tr)"
    and "\<And>client. me_EntryClient M client = NewEntryClient L A" "entry_api L A I view create update delete created updated deleted"
    and "entry_declares I view (valid_entry L) E cfg ds good" "\<not> sp_EnableEntryListHintFilter (cn_Spec (mc_ctrlConfig c))"
    and "I w" "good (er_renderCache (Reconciler E cfg))" "unclaimed E cfg ds 0 (view w)"
    and "runs (entry_Config E cfg gc) (entries_kept I view) (New (w, Reconciler E cfg) now) es s"
  shows "(\<forall>d. lp_phase s = Waiting d \<longrightarrow> in_sync E cfg ds (view (fst (lp_world s)))) \<and>
    (lp_phase s \<noteq> Returned \<and> \<not> lp_cancelled s \<longrightarrow>
      (\<exists>es' s' d. runs (entry_Config E cfg gc) (entries_kept I view) s es' s' \<and> set es' \<subseteq> {EDrain, ETick, ETimer, EReconciled} \<and>
        lp_now s' \<le> lp_now s + cn_GCInterval (mc_ctrlConfig c) \<and> lp_phase s' = Waiting d \<and> in_sync E cfg ds (view (fst (lp_world s')))))"
proof (intro conjI allI impI)
  note loop = started_entry_loop [OF assms(1-5)]
  have ready: "ready I view E cfg ds good w (Reconciler E cfg)" using loop(5) by (intro Reconciler_ready assms(9-11))
  have "\<not> rc_EnableEntryListHintFilter cfg" using loop(7) assms(8) by simp
  note entry = entry_convergence.entry_loop [OF api_convergence [OF assms(6) loop(1) assms(7) this] _ ready]
  show "in_sync E cfg ds (view (fst (lp_world s)))" if "lp_phase s = Waiting d" for d by (rule entry(1) [OF assms(12) that])
  assume going: "lp_phase s \<noteq> Returned \<and> \<not> lp_cancelled s"
  have nonneg: "0 \<le> cf_GCInterval (entry_Config E cfg gc)" using loop(3) by (simp add: entry_Config_def)
  have "\<exists>es' s'. runs (entry_Config E cfg gc) (entries_kept I view) s es' s' \<and> set es' \<subseteq> {EDrain, ETick, ETimer, EReconciled} \<and>
      EReconciled \<in> set es' \<and> lp_now s' \<le> lp_now s + cf_GCInterval (entry_Config E cfg gc) \<and>
      lp_phase s' = Waiting (lp_now s' + cf_GCInterval (entry_Config E cfg gc))"
    by (rule loop_reconciles [OF assms(12) conjunct1 [OF going] conjunct2 [OF going] nonneg]) (rule entry(2))
  then obtain es' s' where s': "runs (entry_Config E cfg gc) (entries_kept I view) s es' s'" "set es' \<subseteq> {EDrain, ETick, ETimer, EReconciled}"
    "lp_now s' \<le> lp_now s + gc" "lp_phase s' = Waiting (lp_now s' + gc)" by (auto simp: entry_Config_def)
  then have "in_sync E cfg ds (view (fst (lp_world s')))" by (intro entry(1) [OF runs_append [OF assms(12)]])
  with s' loop(2) show "\<exists>es' s' d. runs (entry_Config E cfg gc) (entries_kept I view) s es' s' \<and> set es' \<subseteq> {EDrain, ETick, ETimer, EReconciled} \<and>
      lp_now s' \<le> lp_now s + cn_GCInterval (mc_ctrlConfig c) \<and> lp_phase s' = Waiting d \<and> in_sync E cfg ds (view (fst (lp_world s')))" by blast
qed

text \<open>A manager over the reference server.\<close>

definition rpc_main :: "mem_world main_env" where
  "rpc_main = ref_main\<lparr>me_EntryClient := (\<lambda>_. NewEntryClient ref_spiffeid mem_rpc)\<rparr>"

lemma rpc_run:
  obtains c tr cfg gc where "parseConfig ref_config_lib (ref_flags ''scm'') = Inr c" "run rpc_main c [] = (tr, Ok ())"
    "StartManager \<in> set (map fst tr)" "Add (EntryLoop cfg gc) \<in> set (map fst tr)" "rpc_configured cfg"
proof -
  let ?loop = "\<lambda>a. case a of Add (EntryLoop cfg gc) \<Rightarrow> rpc_configured cfg | _ \<Rightarrow> False"
  have "case parseConfig ref_config_lib (ref_flags ''scm'') of
      Inl _ \<Rightarrow> False
    | Inr c \<Rightarrow> list_ex is_start (map fst (fst (run rpc_main c []))) \<and> list_ex ?loop (map fst (fst (run rpc_main c []))) \<and>
        (case snd (run rpc_main c []) of Ok () \<Rightarrow> True | _ \<Rightarrow> False)"
    by code_simp
  then obtain c where c: "parseConfig ref_config_lib (ref_flags ''scm'') = Inr c" "list_ex is_start (map fst (fst (run rpc_main c [])))"
    "list_ex ?loop (map fst (fst (run rpc_main c [])))" "snd (run rpc_main c []) = Ok ()" by (auto split: sum.splits outcome.splits)
  obtain a where a: "a \<in> set (map fst (fst (run rpc_main c [])))" "is_start a" using c(2) unfolding list_ex_iff by blast
  obtain b where b: "b \<in> set (map fst (fst (run rpc_main c [])))" "?loop b" using c(3) unfolding list_ex_iff by blast
  from a(2) have "a = StartManager" by (cases a) simp_all
  moreover from b(2) obtain cfg gc where "b = Add (EntryLoop cfg gc)" "rpc_configured cfg" by (auto split: action.splits runnable.splits)
  moreover have "run rpc_main c [] = (fst (run rpc_main c []), Ok ())" using c(4) by (metis prod.collapse)
  ultimately show thesis using that c(1) a(1) b(1) by blast
qed

theorem started_manager_converges_witness:
  "\<exists>c cfg gc es s. parseConfig ref_config_lib (ref_flags ''scm'') = Inr c \<and>
     runs (entry_Config mem_env cfg gc) (entries_kept rpc_inv m_entries) (New (rpc_world, Reconciler mem_env cfg) 0) es s \<and>
     in_sync mem_env cfg [rpc_declared] (m_entries (fst (lp_world s)))"
proof (rule rpc_run)
  fix c tr cfg gc
  assume c: "parseConfig ref_config_lib (ref_flags ''scm'') = Inr c" "run rpc_main c [] = (tr, Ok ())"
    "StartManager \<in> set (map fst tr)" "Add (EntryLoop cfg gc) \<in> set (map fst tr)" and cfg: "rpc_configured cfg"
  have client: "me_EntryClient rpc_main cl = NewEntryClient ref_spiffeid mem_rpc" "me_K8sClient rpc_main = mem_k8s" for cl
    by (simp_all add: rpc_main_def ref_main_def)
  have decl: "entry_declares rpc_inv m_entries (valid_entry ref_spiffeid) mem_env cfg [rpc_declared] (\<lambda>c. True)"
    using rpc_entry_declares [OF cfg] started_entry_loop(6) [OF c client(1)] client(2) by simp
  have hints: "\<not> sp_EnableEntryListHintFilter (cn_Spec (mc_ctrlConfig c))"
    using cfg started_entry_loop(7) [OF c client(1)] by (simp add: rpc_configured_def)
  have rdy: "rpc_inv rpc_world" "unclaimed mem_env cfg [rpc_declared] 0 (m_entries rpc_world)"
    using rpc_ready [OF cfg] by (simp_all add: ready_def Reconciler_def)
  from started_manager_converges [OF c client(1) mem_entry_api.entry_api_axioms decl hints rdy(1) TrueI rdy(2) runs_Nil, of 0] c(1)
  show ?thesis by (auto simp: New_def)
qed

text \<open>C40: from the configuration to the reconciles. When a manager that is started with an accepted configuration runs
  an entry loop, over the client of pkg/spireapi, with a server whose pages end and whose create results are
  complete, then whatever the loop has been through, with triggers, changes by others and failed calls, unless its
  context is cancelled it can complete another reconcile within the GC interval of the configuration.\<close>

theorem started_manager_reconciles:
  assumes "parseConfig B fl = Inr c" "run M c [] = (tr, out)" "StartManager \<in> set (map fst tr)" "Add (EntryLoop cfg gc) \<in> set (map fst tr)"
    and "\<And>client. me_EntryClient M client = NewEntryClient L A" "\<And>flt. list_progress A flt rank" "complete_results A"
    and "runs (entry_Config E cfg gc) env (New (w, Reconciler E cfg) now) es s" "lp_phase s \<noteq> Returned" "\<not> lp_cancelled s"
  shows "\<exists>es' s'. runs (entry_Config E cfg gc) env s es' s' \<and> set es' \<subseteq> {EDrain, ETick, ETimer, EReconciled} \<and>
    EReconciled \<in> set es' \<and> lp_now s' \<le> lp_now s + cn_GCInterval (mc_ctrlConfig c) \<and>
    lp_phase s' = Waiting (lp_now s' + cn_GCInterval (mc_ctrlConfig c))"
proof -
  note loop = started_entry_loop [OF assms(1-5)]
  have total: "\<exists>x'. cf_Reconcile (entry_Config E cfg gc) x = Some x'" for x
    using reconcile_total [OF loop(1) assms(6,7) loop(4), of E "snd x" "fst x"] by (auto simp: entry_Config_def split_beta)
  have nonneg: "0 \<le> cf_GCInterval (entry_Config E cfg gc)" using loop(3) by (simp add: entry_Config_def)
  from loop_reconciles [OF assms(8-10) nonneg total] show ?thesis by (simp add: entry_Config_def loop(2))
qed

theorem started_manager_reconciles_witness:
  "\<exists>c cfg gc es s. parseConfig ref_config_lib (ref_flags ''scm'') = Inr c \<and>
     runs (entry_Config mem_env cfg gc) (\<lambda>w w'. w' = w) (New (sample_world, Reconciler mem_env cfg) 0) es s \<and> EReconciled \<in> set es"
proof (rule ref_run)
  fix c
  assume c: "parseConfig ref_config_lib (ref_flags ''scm'') = Inr c"
    and "\<exists>tr. run ref_main c [] = (tr, Ok ()) \<and> StartManager \<in> set (map fst tr) \<and> rk_ClusterSPIFFEIDs (mc_reconcile c)"
  then obtain tr where r: "run ref_main c [] = (tr, Ok ())" "StartManager \<in> set (map fst tr)" "rk_ClusterSPIFFEIDs (mc_reconcile c)" by blast
  obtain cfg gc where added: "Add (EntryLoop cfg gc) \<in> set (map fst tr)"
    by (rule run_started [OF r(1,2)]) (use r(3) in \<open>auto simp: managerCalls_runnables entryLoop_def\<close>)
  let ?s0 = "New (sample_world, Reconciler mem_env cfg) 0"
  have progress: "list_progress echo_api flt (\<lambda>w tok. 0)" for flt by (simp add: tokens_progress_def echo_api_def)
  have results: "complete_results echo_api" by (auto simp: complete_results_def echo_api_def list_all_iff)
  have "\<exists>es' s'. runs (entry_Config mem_env cfg gc) (\<lambda>w w'. w' = w) ?s0 es' s' \<and> set es' \<subseteq> {EDrain, ETick, ETimer, EReconciled} \<and>
    EReconciled \<in> set es' \<and> lp_now s' \<le> lp_now ?s0 + cn_GCInterval (mc_ctrlConfig c) \<and>
    lp_phase s' = Waiting (lp_now s' + cn_GCInterval (mc_ctrlConfig c))"
    by (rule started_manager_reconciles [OF c r(1,2) added _ progress results runs_Nil]) (simp_all add: ref_main_def New_def)
  with c show ?thesis by blast
qed

end
